theory Spec2Isabelle
  imports Complex_Main "HOL-Library.AList" "HOL-Library.Sublist"
begin

section \<open>Values, objects and errors\<close>

text \<open>
  A Node \<^verbatim>\<open>Buffer\<close> is a list of bytes, and so is a string (\<^typ>\<open>char\<close> is a byte).
  A JavaScript object with string keys is an association list in insertion order whose keys are
  distinct: \<^const>\<open>map_of\<close> reads a property, \<^const>\<open>AList.update\<close> assigns one (in place when
  the key exists, appended otherwise) and \<^const>\<open>AList.delete\<close> is \<^verbatim>\<open>delete o[k]\<close>.
  The special enumeration order of integer-like keys is not modelled; nothing below depends
  on the order in which two different keys are enumerated.
\<close>

type_synonym buffer = string

type_synonym 'v obj = "(string \<times> 'v) list"

datatype jsval =
    JUndefined
  | JNull
  | JBool bool
  | JNum rat
  | JStr string
  | JArr "jsval list"
  | JObj "(string \<times> jsval) list"

text \<open>The messages of \<^verbatim>\<open>ERROR\<close> thrown by \<^verbatim>\<open>pass.ts\<close>, the two built-in exceptions
  its expressions can raise, and the two conditions named by the specification
  (\<^verbatim>\<open>InvalidCredential\<close> of the signature engine, \<^verbatim>\<open>DuplicateKey\<close> of the field collection).\<close>

datatype error =
    REQUIR_VALID_FAILED
  | PASSFILE_VALIDATION_FAILED
  | OVV_KEYS_BADFORMAT
  | NO_PASS_TYPE
  | TRSTYPE_REQUIRED
  | TypeError
  | SyntaxError
  | InvalidCredential
  | DuplicateKey

text \<open>JavaScript truthiness, as used by \<^verbatim>\<open>!x\<close>, \<^verbatim>\<open>x && y\<close> and \<^verbatim>\<open>x || y\<close>.\<close>

fun truthy :: "jsval \<Rightarrow> bool" where
  "truthy JUndefined = False"
| "truthy JNull = False"
| "truthy (JBool b) = b"
| "truthy (JNum n) = (n \<noteq> 0)"
| "truthy (JStr s) = (s \<noteq> [])"
| "truthy (JArr xs) = True"
| "truthy (JObj kv) = True"

text \<open>\<^verbatim>\<open>Object.assign(target, source)\<close>; the spread \<^verbatim>\<open>{ ...source }\<close> is the
  assignment to a fresh object.\<close>

definition Object_assign :: "'v obj \<Rightarrow> 'v obj \<Rightarrow> 'v obj" where
  "Object_assign target source = fold (\<lambda>(k, v). AList.update k v) source target"

definition spread :: "'v obj \<Rightarrow> 'v obj" where
  "spread source = Object_assign [] source"

text \<open>\<^verbatim>\<open>v[k]\<close> for reading: a property of an object, \<^verbatim>\<open>undefined\<close> on the other
  values (the keys read below are never array indices or \<^verbatim>\<open>length\<close>), a
  \<^verbatim>\<open>TypeError\<close> on \<^verbatim>\<open>null\<close> and \<^verbatim>\<open>undefined\<close>.\<close>

fun get_prop :: "jsval \<Rightarrow> string \<Rightarrow> error + jsval" where
  "get_prop JUndefined k = Inl TypeError"
| "get_prop JNull k = Inl TypeError"
| "get_prop (JObj kv) k = Inr (case map_of kv k of None \<Rightarrow> JUndefined | Some v \<Rightarrow> v)"
| "get_prop _ k = Inr JUndefined"

text \<open>\<^verbatim>\<open>v[k] = x\<close> in strict mode (class bodies are strict): an object takes the
  property; an array takes it as a named property, which \<^verbatim>\<open>JSON.stringify\<close> never
  prints, so the serialised value is the array as it was; every other value raises
  \<^verbatim>\<open>TypeError\<close>.\<close>

fun set_prop :: "jsval \<Rightarrow> string \<Rightarrow> jsval \<Rightarrow> error + jsval" where
  "set_prop (JObj kv) k x = Inr (JObj (AList.update k x kv))"
| "set_prop (JArr xs) k x = Inr (JArr xs)"
| "set_prop _ k x = Inl TypeError"

section \<open>The instance and its collaborators\<close>

text \<open>\<^verbatim>\<open>Schemas.PartitionedBundle\<close> and \<^verbatim>\<open>Schemas.PassInstance\<close>, the constructor's
  options.\<close>

record PartitionedBundle =
  model_bundle :: "buffer obj"
  l10nBundle :: "buffer obj obj"

record PassInstance =
  model :: PartitionedBundle
  certificates :: jsval
  overrides :: "jsval obj option"

text \<open>The Joi schemas of \<^verbatim>\<open>./schemas\<close> that \<^verbatim>\<open>pass.ts\<close> names.\<close>

datatype schema = Barcode | Beacon | Location | NFC | Field | TransitType

text \<open>
  What \<^verbatim>\<open>pass.ts\<close> imports and the sources do not contain, or what belongs to the
  platform: each is a parameter of the model.
  \<^item> \<open>JSON_parse\<close> is \<^verbatim>\<open>JSON.parse(buffer.toString())\<close>, \<open>None\<close> when it throws;
    \<open>JSON_stringify\<close> is \<^verbatim>\<open>Buffer.from(JSON.stringify(v))\<close>;
  \<^item> \<open>isValid\<close> and \<open>getValidated\<close> are \<^verbatim>\<open>Schemas.isValid\<close> and
    \<^verbatim>\<open>Schemas.getValidated\<close> (\<open>None\<close> for \<^verbatim>\<open>null\<close>); \<open>isValid_PassInstance\<close> is the check
    of the constructor's options;
  \<^item> \<open>OverridesSupportedOptions\<close> is the list of keys of that schema and
    \<open>overrides_wellformed\<close> its verdict on the values of those keys;
  \<^item> \<open>isValidRGB\<close>, \<open>generateStringFile\<close> are the functions of \<^verbatim>\<open>./utils\<close>;
  \<^item> \<open>sha1_hex\<close> is \<^verbatim>\<open>forge.md.sha1\<close> followed by \<^verbatim>\<open>toHex\<close>;
  \<^item> \<open>Signature_create\<close> is \<^verbatim>\<open>Signature.create\<close>, \<open>None\<close> when it throws;
  \<^item> \<open>platform\<close> is the host platform, which decides \<^verbatim>\<open>path.sep\<close>.
\<close>

datatype platform = Posix | Win32

record env =
  JSON_parse :: "buffer \<Rightarrow> jsval option"
  JSON_stringify :: "jsval \<Rightarrow> buffer"
  isValid :: "jsval \<Rightarrow> schema \<Rightarrow> bool"
  getValidated :: "jsval \<Rightarrow> schema \<Rightarrow> jsval option"
  isValid_PassInstance :: "PassInstance \<Rightarrow> bool"
  OverridesSupportedOptions :: "string list"
  overrides_wellformed :: "jsval obj \<Rightarrow> bool"
  isValidRGB :: "jsval \<Rightarrow> bool"
  generateStringFile :: "string obj \<Rightarrow> buffer"
  sha1_hex :: "buffer \<Rightarrow> string"
  Signature_create :: "string obj \<Rightarrow> jsval \<Rightarrow> buffer option"
  platform :: platform

text \<open>The private state of a \<^verbatim>\<open>Pass\<close>. The five \<^verbatim>\<open>FieldsArray\<close> slots are the
  ordered lists of their fields.\<close>

record Pass =
  "bundle" :: "buffer obj"
  l10nBundles :: "buffer obj obj"
  props :: "jsval obj"
  type :: string
  passCore :: jsval
  headerFields :: "jsval list"
  primaryFields :: "jsval list"
  secondaryFields :: "jsval list"
  auxiliaryFields :: "jsval list"
  backFields :: "jsval list"
  Certificates :: jsval
  transitType :: jsval
  l10nTranslations :: "string obj obj"

section \<open>Serialising pass.json: \<^verbatim>\<open>_patch\<close>\<close>

definition passColors :: "string list" where
  "passColors = [''backgroundColor'', ''foregroundColor'', ''labelColor'']"

text \<open>The colour keys of the properties that hold a truthy value failing
  \<^verbatim>\<open>isValidRGB\<close> are selected first and deleted afterwards.\<close>

definition invalid_colors :: "env \<Rightarrow> jsval obj \<Rightarrow> string list" where
  "invalid_colors E ps =
     filter (\<lambda>v. case map_of ps v of None \<Rightarrow> False
                 | Some x \<Rightarrow> truthy x \<and> \<not> isValidRGB E x) passColors"

definition prune_colors :: "env \<Rightarrow> jsval obj \<Rightarrow> jsval obj" where
  "prune_colors E ps = fold AList.delete (invalid_colors E ps) ps"

text \<open>\<^verbatim>\<open>this._fields.forEach((field) => { passFile[this.type][field] = this[field] })\<close>,
  in the order of \<^verbatim>\<open>_fields\<close>.\<close>

definition fields_of :: "Pass \<Rightarrow> (string \<times> jsval) list" where
  "fields_of st =
     [(''primaryFields'', JArr (primaryFields st)),
      (''secondaryFields'', JArr (secondaryFields st)),
      (''auxiliaryFields'', JArr (auxiliaryFields st)),
      (''backFields'', JArr (backFields st)),
      (''headerFields'', JArr (headerFields st))]"

fun set_props :: "jsval \<Rightarrow> (string \<times> jsval) list \<Rightarrow> error + jsval" where
  "set_props c [] = Inr c"
| "set_props c ((k, x) # rest) =
     (case set_prop c k x of Inl e \<Rightarrow> Inl e | Inr c' \<Rightarrow> set_props c' rest)"

text \<open>The body of \<^verbatim>\<open>if (Object.keys(this[passProps]).length)\<close>: the properties after
  the invalid colours were deleted, and the document after the properties were assigned to
  it.\<close>

definition overlay :: "env \<Rightarrow> Pass \<Rightarrow> jsval obj \<Rightarrow> jsval obj \<times> jsval obj" where
  "overlay E st passFile =
     (if props st \<noteq> []
      then (let props1 = prune_colors E (props st) in (props1, Object_assign passFile props1))
      else (props st, passFile))"

text \<open>
  The object that \<^verbatim>\<open>_patch\<close> hands to \<^verbatim>\<open>JSON.stringify\<close>, together with the
  properties of the instance, which \<^verbatim>\<open>_patch\<close> prunes in place whether or not it throws
  later. The category entry is read after the properties were assigned, the five field
  lists are written to it, then the transit type is checked and written. A buffer that
  does not parse leaves the properties as they are. A document that parses to
  \<^verbatim>\<open>null\<close> or to a primitive value has no category entry to write to: the properties
  are pruned, and the assignment of the properties (for \<^verbatim>\<open>null\<close>) or the first field
  assignment raises a \<^verbatim>\<open>TypeError\<close>. An array is given the same outcome: it has an
  entry under the category key only when the properties hold one, which a template and a
  whitelist of overrides without category keys exclude.
\<close>

definition patch_passFile :: "env \<Rightarrow> Pass \<Rightarrow> buffer \<Rightarrow> jsval obj \<times> (error + jsval)" where
  "patch_passFile E st passCoreBuffer =
     (case JSON_parse E passCoreBuffer of
        None \<Rightarrow> (props st, Inl SyntaxError)
      | Some (JObj passFile) \<Rightarrow>
          (let (props1, passFile1) = overlay E st passFile
           in (props1,
               (case map_of passFile1 (type st) of
                  None \<Rightarrow> Inl TypeError
                | Some c \<Rightarrow>
                    (case set_props c (fields_of st) of
                       Inl e \<Rightarrow> Inl e
                     | Inr c1 \<Rightarrow>
                         if type st = ''boardingPass'' \<and> \<not> truthy (transitType st)
                         then Inl TRSTYPE_REQUIRED
                         else (case set_prop c1 ''transitType'' (transitType st) of
                                 Inl e \<Rightarrow> Inl e
                               | Inr c2 \<Rightarrow> Inr (JObj (AList.update (type st) c2 passFile1)))))))
      | Some _ \<Rightarrow>
          (if props st \<noteq> [] then prune_colors E (props st) else props st, Inl TypeError))"

text \<open>The value that the document edited by \<^verbatim>\<open>_patch\<close> holds under the category key
  when the fields are written, if the document parses to an object that has the key.\<close>

definition template_category :: "env \<Rightarrow> Pass \<Rightarrow> jsval option" where
  "template_category E st =
     (case map_of (bundle st) ''pass.json'' of
        None \<Rightarrow> None
      | Some passCoreBuffer \<Rightarrow>
          (case JSON_parse E passCoreBuffer of
             Some (JObj passFile) \<Rightarrow> map_of (snd (overlay E st passFile)) (type st)
           | _ \<Rightarrow> None))"

definition patch :: "env \<Rightarrow> Pass \<Rightarrow> buffer \<Rightarrow> jsval obj \<times> (error + buffer)" where
  "patch E st passCoreBuffer =
     (case patch_passFile E st passCoreBuffer of
        (ps, Inl e) \<Rightarrow> (ps, Inl e)
      | (ps, Inr passFile) \<Rightarrow> (ps, Inr (JSON_stringify E passFile)))"

section \<open>Generating the archive: \<^verbatim>\<open>generate\<close>\<close>

text \<open>
  Modelled from the spec: \<^verbatim>\<open>getAllFilesWithName\<close> and \<^verbatim>\<open>deletePersonalization\<close> of
  \<^verbatim>\<open>./utils\<close> are not part of the sources. The personalization guard of the
  specification deletes the descriptor file and every file whose name starts with the
  personalization-logo prefix; \<^verbatim>\<open>parser.ts\<close> writes the same deletion inline as
  \<^verbatim>\<open>[...logoFullNames, personalizationJsonFile].forEach((file) => delete bundle[file])\<close>.
  \<open>getAllFilesWithName_startsWith name source\<close> is the call with mode
  \<^verbatim>\<open>"startsWith"\<close>.
\<close>

definition getAllFilesWithName_startsWith :: "string \<Rightarrow> string list \<Rightarrow> string list" where
  "getAllFilesWithName_startsWith name source = filter (prefix name) source"

definition deletePersonalization :: "buffer obj \<Rightarrow> string list \<Rightarrow> buffer obj" where
  "deletePersonalization source logosNames =
     fold AList.delete (logosNames @ [''personalization.json'']) source"

text \<open>The bundle of the instance after \<^verbatim>\<open>pass.json\<close> was replaced by its patched
  buffer and the personalization files were pruned.\<close>

definition prune_personalization :: "jsval obj \<Rightarrow> buffer obj \<Rightarrow> buffer obj" where
  "prune_personalization ps b =
     (let currentBundleFiles = map fst b
      in if \<not> truthy (case map_of ps ''nfc'' of None \<Rightarrow> JUndefined | Some v \<Rightarrow> v)
            \<and> ''personalization.json'' \<in> set currentBundleFiles
         then deletePersonalization b
                (getAllFilesWithName_startsWith ''personalizationLogo'' currentBundleFiles)
         else b)"

text \<open>
  \<^verbatim>\<open>path.join(languageBundleDirname, fileName).replace(/\\/, "/")\<close>. The regular
  expression has no \<^verbatim>\<open>g\<close> flag: the first backslash is replaced. Node's
  \<^verbatim>\<open>path.join\<close> joins with the separator of the platform and normalises the result: it
  resolves the segments \<^verbatim>\<open>.\<close> and \<^verbatim>\<open>..\<close>, drops empty segments, and on Windows turns
  every forward slash into a backslash. \<open>path_join\<close> is the join alone. It is
  \<^verbatim>\<open>path.join\<close> on the arguments that the normalisation leaves as they are: a folder
  name \<open><lang>.lproj\<close> whose language code has no separator, joined with a file name that
  is not empty, is no dot segment and has no separator (\<open>wf_translations\<close> and
  \<open>wf_l10n\<close> below), and on Windows also with a file name whose segments are of that
  kind and are separated by single backslashes. Every statement about the path of an
  archived localization file is made for such names.
\<close>

definition backslash :: char where
  "backslash = CHR 0x5C"

fun replace_first :: "char \<Rightarrow> char \<Rightarrow> string \<Rightarrow> string" where
  "replace_first a b [] = []"
| "replace_first a b (c # cs) = (if c = a then b # cs else c # replace_first a b cs)"

definition path_sep :: "env \<Rightarrow> char" where
  "path_sep E = (case platform E of Posix \<Rightarrow> CHR ''/'' | Win32 \<Rightarrow> backslash)"

definition path_join :: "env \<Rightarrow> string \<Rightarrow> string \<Rightarrow> string" where
  "path_join E a b = a @ [path_sep E] @ b"

definition fullPath :: "env \<Rightarrow> string \<Rightarrow> string \<Rightarrow> string" where
  "fullPath E languageBundleDirname fileName =
     replace_first backslash CHR ''/'' (path_join E languageBundleDirname fileName)"

definition languageBundleDirname :: "string \<Rightarrow> string" where
  "languageBundleDirname lang = lang @ ''.lproj''"

text \<open>The body of \<^verbatim>\<open>if (strings.length)\<close>: the rendered strings are appended to
  the \<^verbatim>\<open>pass.strings\<close> of the language folder, which is created when it is missing.\<close>

definition merge_strings :: "buffer \<Rightarrow> string \<Rightarrow> buffer obj obj \<Rightarrow> buffer obj obj" where
  "merge_strings strings dir l10n =
     (if strings \<noteq> []
      then (let languageBundleUnit = (case map_of l10n dir of None \<Rightarrow> [] | Some u \<Rightarrow> u)
            in AList.update dir
                 (AList.update ''pass.strings''
                    ((case map_of languageBundleUnit ''pass.strings'' of None \<Rightarrow> [] | Some b \<Rightarrow> b)
                       @ strings)
                    languageBundleUnit)
                 l10n)
      else l10n)"

definition bundleRelativeL10NPaths :: "env \<Rightarrow> string \<Rightarrow> buffer obj \<Rightarrow> buffer obj" where
  "bundleRelativeL10NPaths E dir unit =
     fold (\<lambda>(fileName, fileContent) acc. AList.update (fullPath E dir fileName) fileContent acc)
       unit []"

text \<open>One round of the loop over the language codes: the state is the localization
  bundle of the instance and the final bundle.\<close>

definition rendered :: "env \<Rightarrow> string obj obj \<Rightarrow> string \<Rightarrow> buffer" where
  "rendered E translations lang =
     generateStringFile E (case map_of translations lang of None \<Rightarrow> [] | Some t \<Rightarrow> t)"

definition lang_step ::
  "env \<Rightarrow> string obj obj \<Rightarrow> string \<Rightarrow> buffer obj obj \<times> buffer obj \<Rightarrow> buffer obj obj \<times> buffer obj"
where
  "lang_step E translations lang = (\<lambda>(l10n, finalBundle).
     (let strings = rendered E translations lang;
          dir = languageBundleDirname lang;
          l10n1 = merge_strings strings dir l10n
      in (case map_of l10n1 dir of
            None \<Rightarrow> (l10n1, finalBundle)
          | Some unit \<Rightarrow>
              if unit = [] then (l10n1, finalBundle)
              else (l10n1, Object_assign finalBundle (bundleRelativeL10NPaths E dir unit)))))"

text \<open>The loop runs over \<^verbatim>\<open>Object.keys(this.l10nTranslations)\<close> from the last key to
  the first, and its condition \<^verbatim>\<open>(lang = translationsLanguageCodes[--langs])\<close> also stops
  it at an empty key.\<close>

definition translationsLanguageCodes :: "Pass \<Rightarrow> string list" where
  "translationsLanguageCodes st = takeWhile (\<lambda>lang. lang \<noteq> []) (rev (map fst (l10nTranslations st)))"

definition localize_all :: "env \<Rightarrow> Pass \<Rightarrow> buffer obj \<Rightarrow> buffer obj obj \<times> buffer obj" where
  "localize_all E st b =
     fold (lang_step E (l10nTranslations st)) (translationsLanguageCodes st)
       (l10nBundles st, spread b)"

text \<open>
  Names for the statements about the loop: the \<^verbatim>\<open>pass.strings\<close> bytes a localization
  bundle holds for a folder (empty when there are none), a name without path separators,
  and a file name proper. The localization bundle is well formed when the names of the files
  in every folder are distinct file names, and the staged translations are well formed when
  the language codes are distinct, not empty and without separators.
\<close>

definition existing_strings :: "buffer obj obj \<Rightarrow> string \<Rightarrow> buffer" where
  "existing_strings l10n dir =
     (case map_of l10n dir of
        None \<Rightarrow> []
      | Some u \<Rightarrow> (case map_of u ''pass.strings'' of None \<Rightarrow> [] | Some b \<Rightarrow> b))"

definition no_separator :: "string \<Rightarrow> bool" where
  "no_separator s = (CHR ''/'' \<notin> set s \<and> backslash \<notin> set s)"

definition simple_name :: "string \<Rightarrow> bool" where
  "simple_name s = (s \<noteq> [] \<and> s \<noteq> ''.'' \<and> s \<noteq> ''..'' \<and> no_separator s)"

definition wf_l10n :: "buffer obj obj \<Rightarrow> bool" where
  "wf_l10n l10n =
     (\<forall>(d, u) \<in> set l10n. distinct (map fst u) \<and> (\<forall>f \<in> fst ` set u. simple_name f))"

definition wf_translations :: "string obj obj \<Rightarrow> bool" where
  "wf_translations translations =
     (distinct (map fst translations)
      \<and> (\<forall>lang \<in> fst ` set translations. lang \<noteq> [] \<and> no_separator lang))"

text \<open>The manifest is the reduction of the entries of the final bundle.\<close>

definition manifest_of :: "env \<Rightarrow> buffer obj \<Rightarrow> string obj" where
  "manifest_of E finalBundle =
     fold (\<lambda>(fileName, buffer) acc. AList.update fileName (sha1_hex E buffer) acc) finalBundle []"

definition manifest_json :: "string obj \<Rightarrow> jsval" where
  "manifest_json manifest = JObj (map (\<lambda>(fileName, digest). (fileName, JStr digest)) manifest)"

text \<open>
  \<^verbatim>\<open>generate\<close> returns the instance as it has become and either the error thrown or the
  entries given to the archive, in the order of the calls of \<^verbatim>\<open>addBuffer\<close>. The
  archive is the stream of these entries.
\<close>

definition generate :: "env \<Rightarrow> Pass \<Rightarrow> Pass \<times> (error + (string \<times> buffer) list)" where
  "generate E st =
     (case map_of (bundle st) ''pass.json'' of
        None \<Rightarrow> (st, Inl TypeError)
      | Some passCoreBuffer \<Rightarrow>
         (case patch E st passCoreBuffer of
            (props1, Inl e) \<Rightarrow> (st\<lparr>props := props1\<rparr>, Inl e)
          | (props1, Inr patched) \<Rightarrow>
             (let bundle1 = prune_personalization props1
                              (AList.update ''pass.json'' patched (bundle st));
                  (l10n1, finalBundle) = localize_all E st bundle1;
                  st1 = st\<lparr>props := props1, bundle := bundle1, l10nBundles := l10n1\<rparr>;
                  manifest = manifest_of E finalBundle
              in (case Signature_create E manifest (Certificates st) of
                    None \<Rightarrow> (st1, Inl InvalidCredential)
                  | Some signatureBuffer \<Rightarrow>
                      (st1, Inr (finalBundle @
                                 [(''signature'', signatureBuffer),
                                  (''manifest.json'', JSON_stringify E (manifest_json manifest))]))))))"

section \<open>The constructor\<close>

text \<open>
  Modelled from the spec: \<^verbatim>\<open>Schemas.getValidated\<close> and the schema
  \<^verbatim>\<open>OverridesSupportedOptions\<close> are not part of the sources. The overrides are
  restricted to a fixed whitelist of mutable top-level keys; keys outside the whitelist are
  dropped silently at validation time, not merged. The constructor tests the result for
  \<^verbatim>\<open>null\<close>, which is the verdict \<open>overrides_wellformed\<close> on what is kept.
\<close>

definition getValidated_overrides :: "env \<Rightarrow> jsval obj \<Rightarrow> jsval obj option" where
  "getValidated_overrides E ovv =
     (let kept = filter (\<lambda>(k, v). k \<in> set (OverridesSupportedOptions E)) ovv
      in if overrides_wellformed E kept then Some kept else None)"

text \<open>The category is the first key of \<^verbatim>\<open>pass.json\<close> in which the regular expression
  \<^verbatim>\<open>/(boardingPass|eventTicket|coupon|generic|storeCard)/\<close> finds a match.\<close>

definition pass_types :: "string list" where
  "pass_types = [''boardingPass'', ''eventTicket'', ''coupon'', ''generic'', ''storeCard'']"

definition is_type_key :: "string \<Rightarrow> bool" where
  "is_type_key key = list_ex (\<lambda>t. sublist t key) pass_types"

definition propsSchemaMap :: "(string \<times> schema) list" where
  "propsSchemaMap =
     [(''barcodes'', Barcode), (''barcode'', Barcode), (''beacons'', Beacon),
      (''locations'', Location), (''nfc'', NFC)]"

text \<open>\<^verbatim>\<open>Object.keys(current).length\<close> as a condition: \<^verbatim>\<open>Object.keys\<close> throws on
  \<^verbatim>\<open>null\<close> and \<^verbatim>\<open>undefined\<close>, lists the indices of an array or a string, and is
  empty on numbers and booleans.\<close>

fun has_keys :: "jsval \<Rightarrow> error + bool" where
  "has_keys JUndefined = Inl TypeError"
| "has_keys JNull = Inl TypeError"
| "has_keys (JObj kv) = Inr (kv \<noteq> [])"
| "has_keys (JArr xs) = Inr (xs \<noteq> [])"
| "has_keys (JStr s) = Inr (s \<noteq> [])"
| "has_keys _ = Inr False"

fun getValidInArray :: "env \<Rightarrow> schema \<Rightarrow> jsval list \<Rightarrow> error + jsval list" where
  "getValidInArray E schemaName [] = Inr []"
| "getValidInArray E schemaName (current # contents) =
     (case has_keys current of
        Inl e \<Rightarrow> Inl e
      | Inr h \<Rightarrow>
          (case getValidInArray E schemaName contents of
             Inl e \<Rightarrow> Inl e
           | Inr valid \<Rightarrow> Inr (if h \<and> isValid E current schemaName then current # valid else valid)))"

text \<open>The reduction of the keys of \<^verbatim>\<open>pass.json\<close> to the validated properties.\<close>

fun validatedPassKeys ::
  "env \<Rightarrow> string \<Rightarrow> jsval obj \<Rightarrow> string list \<Rightarrow> jsval obj \<Rightarrow> error + jsval obj" where
  "validatedPassKeys E t core [] acc = Inr acc"
| "validatedPassKeys E t core (current # passCoreKeys) acc =
     (if t = current then validatedPassKeys E t core passCoreKeys acc
      else
        (let v = (case map_of core current of None \<Rightarrow> JUndefined | Some x \<Rightarrow> x)
         in case map_of propsSchemaMap current of
              None \<Rightarrow> validatedPassKeys E t core passCoreKeys (AList.update current v acc)
            | Some currentSchema \<Rightarrow>
                (case v of
                   JArr xs \<Rightarrow>
                     (case getValidInArray E currentSchema xs of
                        Inl e \<Rightarrow> Inl e
                      | Inr valid \<Rightarrow>
                          validatedPassKeys E t core passCoreKeys
                            (AList.update current (JArr valid) acc))
                 | _ \<Rightarrow>
                     validatedPassKeys E t core passCoreKeys
                       (AList.update current
                          (if isValid E v currentSchema \<and> truthy v then v else JUndefined) acc))))"

text \<open>\<^verbatim>\<open>(this.passCore[this.type][fieldName] || []).filter(...)\<close>: a truthy value that is
  not an array has no \<^verbatim>\<open>filter\<close>.\<close>

definition template_fields :: "env \<Rightarrow> jsval \<Rightarrow> string \<Rightarrow> error + jsval list" where
  "template_fields E c fieldName =
     (case get_prop c fieldName of
        Inl e \<Rightarrow> Inl e
      | Inr v \<Rightarrow>
          if \<not> truthy v then Inr []
          else (case v of
                  JArr xs \<Rightarrow> Inr (filter (\<lambda>field. isValid E field Field) xs)
                | _ \<Rightarrow> Inl TypeError))"

text \<open>The transit type read from the template: only for \<^verbatim>\<open>boardingPass\<close>, and only a
  truthy value; the initial value is the empty string.\<close>

definition template_transitType :: "string \<Rightarrow> jsval \<Rightarrow> error + jsval" where
  "template_transitType t c =
     (if t = ''boardingPass''
      then (case get_prop c ''transitType'' of
              Inl e \<Rightarrow> Inl e
            | Inr v \<Rightarrow> Inr (if truthy v then v else JStr []))
      else Inr (JStr []))"

definition Pass_constructor :: "env \<Rightarrow> PassInstance \<Rightarrow> error + Pass" where
  "Pass_constructor E options =
     (if \<not> isValid_PassInstance E options then Inl REQUIR_VALID_FAILED
      else
        (let b = spread (model_bundle (model options))
         in case map_of b ''pass.json'' of
              None \<Rightarrow> Inl PASSFILE_VALIDATION_FAILED
            | Some passCoreBuffer \<Rightarrow>
        (case JSON_parse E passCoreBuffer of
              None \<Rightarrow> Inl PASSFILE_VALIDATION_FAILED
            | Some pc \<Rightarrow>
        (case getValidated_overrides E (case overrides options of None \<Rightarrow> [] | Some ovv \<Rightarrow> ovv) of
              None \<Rightarrow> Inl OVV_KEYS_BADFORMAT
            | Some validOverrides \<Rightarrow>
        (case pc of
              JUndefined \<Rightarrow> Inl TypeError
            | JNull \<Rightarrow> Inl TypeError
            | JObj kv \<Rightarrow>
        (case find is_type_key (map fst kv) of
              None \<Rightarrow> Inl NO_PASS_TYPE
            | Some t \<Rightarrow>
        (case validatedPassKeys E t kv (map fst kv) [] of
              Inl e \<Rightarrow> Inl e
            | Inr validated \<Rightarrow>
        (let c = (case map_of kv t of None \<Rightarrow> JUndefined | Some x \<Rightarrow> x)
         in case template_transitType t c of
              Inl e \<Rightarrow> Inl e
            | Inr tt \<Rightarrow>
        (case template_fields E c ''primaryFields'' of
              Inl e \<Rightarrow> Inl e
            | Inr primary \<Rightarrow>
        (case template_fields E c ''secondaryFields'' of
              Inl e \<Rightarrow> Inl e
            | Inr secondary \<Rightarrow>
        (case template_fields E c ''auxiliaryFields'' of
              Inl e \<Rightarrow> Inl e
            | Inr auxiliary \<Rightarrow>
        (case template_fields E c ''backFields'' of
              Inl e \<Rightarrow> Inl e
            | Inr back \<Rightarrow>
        (case template_fields E c ''headerFields'' of
              Inl e \<Rightarrow> Inl e
            | Inr header \<Rightarrow>
                Inr \<lparr> bundle = b,
                      l10nBundles = l10nBundle (model options),
                      props = Object_assign (spread validated) validOverrides,
                      type = t,
                      passCore = pc,
                      headerFields = header,
                      primaryFields = primary,
                      secondaryFields = secondary,
                      auxiliaryFields = auxiliary,
                      backFields = back,
                      Certificates = certificates options,
                      transitType = tt,
                      l10nTranslations = [] \<rparr>))))))))
            | _ \<Rightarrow> Inl NO_PASS_TYPE)))))"

section \<open>The builder methods\<close>

text \<open>The setter \<^verbatim>\<open>transitType\<close>.\<close>

definition set_transitType :: "env \<Rightarrow> Pass \<Rightarrow> jsval \<Rightarrow> Pass" where
  "set_transitType E st v =
     (if \<not> isValid E v TransitType
      then st\<lparr>transitType := (if truthy (transitType st) then transitType st else JStr [])\<rparr>
      else st\<lparr>transitType := v\<rparr>)"

text \<open>\<^verbatim>\<open>localize(lang, translations)\<close>; \<open>None\<close> is the missing second argument.\<close>

definition localize :: "Pass \<Rightarrow> string \<Rightarrow> string obj option \<Rightarrow> Pass" where
  "localize st lang translations =
     (if lang \<noteq> []
      then st\<lparr>l10nTranslations :=
                AList.update lang (case translations of None \<Rightarrow> [] | Some t \<Rightarrow> t)
                  (l10nTranslations st)\<rparr>
      else st)"

text \<open>\<^verbatim>\<open>barcodesFromUncompleteData\<close>: a validation that returns \<^verbatim>\<open>null\<close> leaves
  \<^verbatim>\<open>null\<close> in the array.\<close>

definition barcode_formats :: "string list" where
  "barcode_formats =
     [''PKBarcodeFormatQR'', ''PKBarcodeFormatPDF417'', ''PKBarcodeFormatAztec'',
      ''PKBarcodeFormatCode128'']"

definition barcodesFromUncompleteData :: "env \<Rightarrow> string \<Rightarrow> jsval list" where
  "barcodesFromUncompleteData E message =
     (if message = [] then []
      else map (\<lambda>format.
                  case getValidated E (JObj [(''format'', JStr format), (''message'', JStr message)])
                         Barcode of
                    None \<Rightarrow> JNull
                  | Some b \<Rightarrow> b)
             barcode_formats)"

text \<open>The reduction of \<^verbatim>\<open>barcodes\<close> over structures: only objects (arrays are objects)
  are validated, and only a validated object with at least one key is kept.\<close>

fun is_Object :: "jsval \<Rightarrow> bool" where
  "is_Object (JObj kv) = True"
| "is_Object (JArr xs) = True"
| "is_Object _ = False"

fun nonempty_Object :: "jsval \<Rightarrow> bool" where
  "nonempty_Object (JObj kv) = (kv \<noteq> [])"
| "nonempty_Object (JArr xs) = (xs \<noteq> [])"
| "nonempty_Object _ = False"

definition validBarcodes :: "env \<Rightarrow> jsval list \<Rightarrow> jsval list" where
  "validBarcodes E data =
     fold (\<lambda>current acc.
             if \<not> is_Object current then acc
             else (case getValidated E current Barcode of
                     None \<Rightarrow> acc
                   | Some validated \<Rightarrow> if nonempty_Object validated then acc @ [validated] else acc))
       data []"

text \<open>\<^verbatim>\<open>barcodes(...data)\<close> with its arguments as a list.\<close>

definition barcodes :: "env \<Rightarrow> Pass \<Rightarrow> jsval list \<Rightarrow> Pass" where
  "barcodes E st data =
     (case data of
        JNull # _ \<Rightarrow> st\<lparr>props := AList.delete ''barcodes'' (props st)\<rparr>
      | JStr message # _ \<Rightarrow>
          (let autogen = barcodesFromUncompleteData E message
           in if autogen = [] then st
              else st\<lparr>props := AList.update ''barcodes'' (JArr autogen) (props st)\<rparr>)
      | _ \<Rightarrow>
          (let valid = validBarcodes E data
           in if valid \<noteq> [] then st\<lparr>props := AList.update ''barcodes'' (JArr valid) (props st)\<rparr>
              else st))"

text \<open>\<^verbatim>\<open>String.prototype.toLowerCase\<close> on ASCII text, and \<^verbatim>\<open>includes\<close>.\<close>

definition toLowerCase_char :: "char \<Rightarrow> char" where
  "toLowerCase_char c =
     (case map_of (zip ''ABCDEFGHIJKLMNOPQRSTUVWXYZ'' ''abcdefghijklmnopqrstuvwxyz'') c of
        None \<Rightarrow> c
      | Some l \<Rightarrow> l)"

definition toLowerCase :: "string \<Rightarrow> string" where
  "toLowerCase s = map toLowerCase_char s"

text \<open>\<^verbatim>\<open>barcodes.findIndex((b) => b.format.toLowerCase().includes(...))\<close>: reading
  \<^verbatim>\<open>format\<close> throws on \<^verbatim>\<open>null\<close>, and a format that is not a string has no
  \<^verbatim>\<open>toLowerCase\<close>. The result is the element found, \<open>None\<close> for the index \<open>-1\<close>.\<close>

fun find_barcode :: "string \<Rightarrow> jsval list \<Rightarrow> error + jsval option" where
  "find_barcode chosenFormat [] = Inr None"
| "find_barcode chosenFormat (b # bs) =
     (case get_prop b ''format'' of
        Inr (JStr format) \<Rightarrow>
          if sublist (toLowerCase chosenFormat) (toLowerCase format) then Inr (Some b)
          else find_barcode chosenFormat bs
      | _ \<Rightarrow> Inl TypeError)"

text \<open>\<^verbatim>\<open>barcode(chosenFormat)\<close>; \<open>None\<close> is \<^verbatim>\<open>null\<close>. A \<^verbatim>\<open>barcodes\<close> property that is
  not an array is either falsy, or has no truthy \<^verbatim>\<open>length\<close>, or has no
  \<^verbatim>\<open>findIndex\<close>.\<close>

definition barcode :: "Pass \<Rightarrow> string option \<Rightarrow> error + Pass" where
  "barcode st chosenFormat =
     (case chosenFormat of
        None \<Rightarrow> Inr (st\<lparr>props := AList.delete ''barcode'' (props st)\<rparr>)
      | Some f \<Rightarrow>
          if f = ''PKBarcodeFormatCode128'' then Inr st
          else (case map_of (props st) ''barcodes'' of
                  Some (JArr bs) \<Rightarrow>
                    (if bs = [] then Inr st
                     else (case find_barcode f bs of
                             Inl e \<Rightarrow> Inl e
                           | Inr None \<Rightarrow> Inr st
                           | Inr (Some b) \<Rightarrow> Inr (st\<lparr>props := AList.update ''barcode'' b (props st)\<rparr>)))
                | Some (JStr s) \<Rightarrow> if s = [] then Inr st else Inl TypeError
                | Some (JObj kv) \<Rightarrow>
                    (if truthy (case map_of kv ''length'' of None \<Rightarrow> JUndefined | Some l \<Rightarrow> l)
                     then Inl TypeError else Inr st)
                | _ \<Rightarrow> Inr st))"

section \<open>The field collection\<close>

text \<open>
  Modelled from the spec: the class \<^verbatim>\<open>FieldsArray\<close> is not part of the sources. The
  constructor of \<^verbatim>\<open>Pass\<close> gives the same pool \<^verbatim>\<open>fieldsKeys\<close> to the five slots. By the
  specification the pool holds the keys present in the five slots of the instance;
  \<open>insert(field)\<close> fails with \<open>DuplicateKey\<close> if the key of the field already exists in any of
  the five slots, and a successful insertion appends to the target slot. The result is
  the instance after the call and the condition raised, if any.
\<close>

datatype slot = PrimaryFields | SecondaryFields | AuxiliaryFields | BackFields | HeaderFields

fun slot_fields :: "Pass \<Rightarrow> slot \<Rightarrow> jsval list" where
  "slot_fields st PrimaryFields = primaryFields st"
| "slot_fields st SecondaryFields = secondaryFields st"
| "slot_fields st AuxiliaryFields = auxiliaryFields st"
| "slot_fields st BackFields = backFields st"
| "slot_fields st HeaderFields = headerFields st"

fun slot_update :: "slot \<Rightarrow> jsval list \<Rightarrow> Pass \<Rightarrow> Pass" where
  "slot_update PrimaryFields fs st = st\<lparr>primaryFields := fs\<rparr>"
| "slot_update SecondaryFields fs st = st\<lparr>secondaryFields := fs\<rparr>"
| "slot_update AuxiliaryFields fs st = st\<lparr>auxiliaryFields := fs\<rparr>"
| "slot_update BackFields fs st = st\<lparr>backFields := fs\<rparr>"
| "slot_update HeaderFields fs st = st\<lparr>headerFields := fs\<rparr>"

definition field_key :: "jsval \<Rightarrow> jsval" where
  "field_key field = (case get_prop field ''key'' of Inl e \<Rightarrow> JUndefined | Inr k \<Rightarrow> k)"

definition fieldsKeys :: "Pass \<Rightarrow> jsval list" where
  "fieldsKeys st =
     map field_key
       (primaryFields st @ secondaryFields st @ auxiliaryFields st @ backFields st
          @ headerFields st)"

definition insert_field :: "Pass \<Rightarrow> slot \<Rightarrow> jsval \<Rightarrow> Pass \<times> error option" where
  "insert_field st s field =
     (if field_key field \<in> set (fieldsKeys st) then (st, Some DuplicateKey)
      else (slot_update s (slot_fields st s @ [field]) st, None))"

text \<open>Insertions one after the other into one slot; a rejected field leaves the instance as
  it is.\<close>

definition insert_fields :: "Pass \<Rightarrow> slot \<Rightarrow> jsval list \<Rightarrow> Pass" where
  "insert_fields st s fs = fold (\<lambda>field st'. fst (insert_field st' s field)) fs st"

section \<open>Example collaborators and instances\<close>

text \<open>
  The theorems below hold for every choice of the collaborators. The examples run the
  model on one concrete choice: a parser and a serialiser that know the documents of the
  examples, validators that accept everything, a rendering of the string table as
  \<open>key = value;\<close> entries, the digest \<open>sha1:\<close> followed by the bytes, and a POSIX
  host.
\<close>

definition demo_store_json :: buffer where
  "demo_store_json = ''{description:Demo,storeCard:{}}''"

definition demo_store_doc :: jsval where
  "demo_store_doc = JObj [(''description'', JStr ''Demo''), (''storeCard'', JObj [])]"

definition demo_store_patched_json :: buffer where
  "demo_store_patched_json =
     ''{description:Demo,storeCard:{primaryFields:[],secondaryFields:[],auxiliaryFields:[],backFields:[],headerFields:[],transitType:}}''"

definition demo_store_patched_doc :: jsval where
  "demo_store_patched_doc =
     JObj [(''description'', JStr ''Demo''),
           (''storeCard'',
            JObj [(''primaryFields'', JArr []), (''secondaryFields'', JArr []),
                  (''auxiliaryFields'', JArr []), (''backFields'', JArr []),
                  (''headerFields'', JArr []), (''transitType'', JStr [])])]"

definition demo_boarding_json :: buffer where
  "demo_boarding_json = ''{boardingPass:{}}''"

definition demo_boarding_doc :: jsval where
  "demo_boarding_doc = JObj [(''boardingPass'', JObj [])]"

definition demo_color_json :: buffer where
  "demo_color_json = ''{backgroundColor:rgb(0,0,0),logoText:Demo,storeCard:{}}''"

definition demo_color_doc :: jsval where
  "demo_color_doc =
     JObj [(''backgroundColor'', JStr ''rgb(0,0,0)''), (''logoText'', JStr ''Demo''),
           (''storeCard'', JObj [])]"

definition demo_parse :: "buffer \<Rightarrow> jsval option" where
  "demo_parse b =
     (if b = demo_store_json then Some demo_store_doc
      else if b = demo_store_patched_json then Some demo_store_patched_doc
      else if b = demo_boarding_json then Some demo_boarding_doc
      else if b = demo_color_json then Some demo_color_doc
      else None)"

definition demo_stringify :: "jsval \<Rightarrow> buffer" where
  "demo_stringify v =
     (if v = demo_store_patched_doc then demo_store_patched_json
      else (case v of
              JObj kv \<Rightarrow>
                ''{'' @ concat (map (\<lambda>(k, x). k @ '':'' @ (case x of JStr s \<Rightarrow> s | _ \<Rightarrow> ''null'') @ '','') kv)
                  @ ''}''
            | _ \<Rightarrow> ''null''))"

definition demo_isValidRGB :: "jsval \<Rightarrow> bool" where
  "demo_isValidRGB v = (v = JStr ''rgb(0,0,0)'' \<or> v = JStr ''rgb(255,255,255)'')"

definition demo_generateStringFile :: "string obj \<Rightarrow> buffer" where
  "demo_generateStringFile lang =
     concat (map (\<lambda>(key, val). key @ '' = '' @ val @ '';'') lang)"

definition demo_env :: env where
  "demo_env =
     \<lparr> JSON_parse = demo_parse,
       JSON_stringify = demo_stringify,
       isValid = (\<lambda>v s. True),
       getValidated = (\<lambda>v s. Some v),
       isValid_PassInstance = (\<lambda>options. True),
       OverridesSupportedOptions = [''description'', ''backgroundColor'', ''logoText''],
       overrides_wellformed = (\<lambda>kept. True),
       isValidRGB = demo_isValidRGB,
       generateStringFile = demo_generateStringFile,
       sha1_hex = (\<lambda>b. ''sha1:'' @ b),
       Signature_create = (\<lambda>manifest certs. Some ''signed''),
       platform = Posix \<rparr>"

definition demo_store_options :: PassInstance where
  "demo_store_options =
     \<lparr> model = \<lparr> model_bundle =
                   [(''pass.json'', demo_store_json), (''icon.png'', ''PNG''),
                    (''personalization.json'', ''{}''), (''personalizationLogo.png'', ''LOGO'')],
                 l10nBundle =
                   [(''en.lproj'', [(''pass.strings'', ''hello = Hello;'')]),
                    (''it.lproj'', [])] \<rparr>,
       certificates = JNull,
       overrides = None \<rparr>"

text \<open>The instance constructed from \<open>demo_store_options\<close>.\<close>

definition demo_store_pass :: Pass where
  "demo_store_pass =
     \<lparr> bundle = [(''pass.json'', demo_store_json), (''icon.png'', ''PNG''),
                 (''personalization.json'', ''{}''), (''personalizationLogo.png'', ''LOGO'')],
       l10nBundles = [(''en.lproj'', [(''pass.strings'', ''hello = Hello;'')]),
                      (''it.lproj'', [])],
       props = [(''description'', JStr ''Demo'')],
       type = ''storeCard'',
       passCore = demo_store_doc,
       headerFields = [],
       primaryFields = [],
       secondaryFields = [],
       auxiliaryFields = [],
       backFields = [],
       Certificates = JNull,
       transitType = JStr [],
       l10nTranslations = [] \<rparr>"

text \<open>The same instance after English and French translations were staged, together
  with an empty mapping for Italian (whose folder is empty) and for German (which has no
  folder).\<close>

definition demo_localized_pass :: Pass where
  "demo_localized_pass =
     localize
       (localize
          (localize
             (localize demo_store_pass ''en'' (Some [(''bye'', ''Bye'')]))
             ''fr'' (Some [(''bye'', ''Salut'')]))
          ''it'' None)
       ''de'' (Some [])"

text \<open>What \<^verbatim>\<open>generate\<close> hands to the archive for \<open>demo_localized_pass\<close>.\<close>

definition demo_archive :: "(string \<times> buffer) list" where
  "demo_archive =
     [(''pass.json'', demo_store_patched_json),
      (''icon.png'', ''PNG''),
      (''fr.lproj/pass.strings'', ''bye = Salut;''),
      (''en.lproj/pass.strings'', ''hello = Hello;bye = Bye;''),
      (''signature'', ''signed''),
      (''manifest.json'',
       ''{pass.json:sha1:'' @ demo_store_patched_json @
       '',icon.png:sha1:PNG,fr.lproj/pass.strings:sha1:bye = Salut;,en.lproj/pass.strings:sha1:hello = Hello;bye = Bye;,}'')]"

text \<open>The instance after that call, and what a second call hands to the archive.\<close>

definition demo_generated_pass :: Pass where
  "demo_generated_pass =
     \<lparr> bundle = [(''pass.json'', demo_store_patched_json), (''icon.png'', ''PNG'')],
       l10nBundles = [(''en.lproj'', [(''pass.strings'', ''hello = Hello;bye = Bye;'')]),
                      (''it.lproj'', []),
                      (''fr.lproj'', [(''pass.strings'', ''bye = Salut;'')])],
       props = [(''description'', JStr ''Demo'')],
       type = ''storeCard'',
       passCore = demo_store_doc,
       headerFields = [],
       primaryFields = [],
       secondaryFields = [],
       auxiliaryFields = [],
       backFields = [],
       Certificates = JNull,
       transitType = JStr [],
       l10nTranslations =
         [(''en'', [(''bye'', ''Bye'')]), (''fr'', [(''bye'', ''Salut'')]), (''it'', []),
          (''de'', [])] \<rparr>"

definition demo_archive2 :: "(string \<times> buffer) list" where
  "demo_archive2 =
     [(''pass.json'', demo_store_patched_json),
      (''icon.png'', ''PNG''),
      (''fr.lproj/pass.strings'', ''bye = Salut;bye = Salut;''),
      (''en.lproj/pass.strings'', ''hello = Hello;bye = Bye;bye = Bye;''),
      (''signature'', ''signed''),
      (''manifest.json'',
       ''{pass.json:sha1:'' @ demo_store_patched_json @
       '',icon.png:sha1:PNG,fr.lproj/pass.strings:sha1:bye = Salut;bye = Salut;,en.lproj/pass.strings:sha1:hello = Hello;bye = Bye;bye = Bye;,}'')]"

text \<open>An instance without NFC whose template has a personalization descriptor, a
  personalization logo and a localized logo in the English folder, with an empty mapping
  staged for English and translations staged under the code \<open>personalizationLogo\<close>.\<close>

definition demo_logo_pass :: Pass where
  "demo_logo_pass =
     localize
       (localize
          (demo_store_pass\<lparr>l10nBundles := [(''en.lproj'', [(''personalizationLogo.png'', ''LOGO-EN'')])]\<rparr>)
          ''en'' None)
       ''personalizationLogo'' (Some [(''bye'', ''Bye'')])"

definition demo_logo_archive :: "(string \<times> buffer) list" where
  "demo_logo_archive =
     [(''pass.json'', demo_store_patched_json),
      (''icon.png'', ''PNG''),
      (''personalizationLogo.lproj/pass.strings'', ''bye = Bye;''),
      (''en.lproj/personalizationLogo.png'', ''LOGO-EN''),
      (''signature'', ''signed''),
      (''manifest.json'',
       ''{pass.json:sha1:'' @ demo_store_patched_json @
       '',icon.png:sha1:PNG,personalizationLogo.lproj/pass.strings:sha1:bye = Bye;,en.lproj/personalizationLogo.png:sha1:LOGO-EN,}'')]"

text \<open>A Windows host, and a template whose English folder holds a file under a name with
  a folder segment, \<open>sub\<close>, a backslash, \<open>logo.png\<close>; the instance constructed from it,
  and the instance after English translations were staged.\<close>

definition demo_win32_env :: env where
  "demo_win32_env = demo_env\<lparr>platform := Win32\<rparr>"

definition demo_nested_name :: string where
  "demo_nested_name = ''sub'' @ backslash # ''logo.png''"

definition demo_nested_options :: PassInstance where
  "demo_nested_options =
     \<lparr> model = \<lparr> model_bundle = [(''pass.json'', demo_store_json), (''icon.png'', ''PNG'')],
                 l10nBundle = [(''en.lproj'', [(demo_nested_name, ''LOGO-EN'')])] \<rparr>,
       certificates = JNull,
       overrides = None \<rparr>"

definition demo_nested_constructed :: Pass where
  "demo_nested_constructed =
     \<lparr> bundle = [(''pass.json'', demo_store_json), (''icon.png'', ''PNG'')],
       l10nBundles = [(''en.lproj'', [(demo_nested_name, ''LOGO-EN'')])],
       props = [(''description'', JStr ''Demo'')],
       type = ''storeCard'',
       passCore = demo_store_doc,
       headerFields = [],
       primaryFields = [],
       secondaryFields = [],
       auxiliaryFields = [],
       backFields = [],
       Certificates = JNull,
       transitType = JStr [],
       l10nTranslations = [] \<rparr>"

definition demo_nested_pass :: Pass where
  "demo_nested_pass = localize demo_nested_constructed ''en'' (Some [(''bye'', ''Bye'')])"

text \<open>The paths under which \<^verbatim>\<open>generate\<close> archives the files of \<open>demo_nested_pass\<close> on
  that host.\<close>

definition demo_nested_paths :: "string list" where
  "demo_nested_paths =
     [''pass.json'', ''icon.png'',
      ''en.lproj/sub'' @ backslash # ''logo.png'',
      ''en.lproj/pass.strings'',
      ''signature'', ''manifest.json'']"

text \<open>A boarding pass whose template names no transit type, as constructed.\<close>

definition demo_boarding_options :: PassInstance where
  "demo_boarding_options =
     \<lparr> model = \<lparr> model_bundle = [(''pass.json'', demo_boarding_json), (''icon.png'', ''PNG'')],
                 l10nBundle = [] \<rparr>,
       certificates = JNull,
       overrides = None \<rparr>"

definition demo_boarding_pass :: Pass where
  "demo_boarding_pass =
     \<lparr> bundle = [(''pass.json'', demo_boarding_json), (''icon.png'', ''PNG'')],
       l10nBundles = [],
       props = [],
       type = ''boardingPass'',
       passCore = demo_boarding_doc,
       headerFields = [],
       primaryFields = [],
       secondaryFields = [],
       auxiliaryFields = [],
       backFields = [],
       Certificates = JNull,
       transitType = JStr [],
       l10nTranslations = [] \<rparr>"

text \<open>A store card whose template sets a background colour and a logo text, constructed
  with overrides for both; the overriding colour is not a valid RGB colour.\<close>

definition demo_color_options :: PassInstance where
  "demo_color_options =
     \<lparr> model = \<lparr> model_bundle = [(''pass.json'', demo_color_json), (''icon.png'', ''PNG'')],
                 l10nBundle = [] \<rparr>,
       certificates = JNull,
       overrides = Some [(''backgroundColor'', JStr ''rgb(300,0,0)''),
                         (''logoText'', JStr ''Override'')] \<rparr>"

definition demo_color_pass :: Pass where
  "demo_color_pass =
     \<lparr> bundle = [(''pass.json'', demo_color_json), (''icon.png'', ''PNG'')],
       l10nBundles = [],
       props = [(''backgroundColor'', JStr ''rgb(300,0,0)''), (''logoText'', JStr ''Override'')],
       type = ''storeCard'',
       passCore = demo_color_doc,
       headerFields = [],
       primaryFields = [],
       secondaryFields = [],
       auxiliaryFields = [],
       backFields = [],
       Certificates = JNull,
       transitType = JStr [],
       l10nTranslations = [] \<rparr>"

definition demo_color_patched_doc :: jsval where
  "demo_color_patched_doc =
     JObj [(''backgroundColor'', JStr ''rgb(0,0,0)''),
           (''logoText'', JStr ''Override''),
           (''storeCard'',
            JObj [(''primaryFields'', JArr []), (''secondaryFields'', JArr []),
                  (''auxiliaryFields'', JArr []), (''backFields'', JArr []),
                  (''headerFields'', JArr []), (''transitType'', JStr [])])]"

definition demo_color_archive :: "(string \<times> buffer) list" where
  "demo_color_archive =
     [(''pass.json'', demo_stringify demo_color_patched_doc),
      (''icon.png'', ''PNG''),
      (''signature'', ''signed''),
      (''manifest.json'',
       ''{pass.json:sha1:'' @ demo_stringify demo_color_patched_doc @ '',icon.png:sha1:PNG,}'')]"

text \<open>Two fields with the keys \<open>gate\<close> and \<open>seat\<close>.\<close>

definition demo_gate :: jsval where
  "demo_gate = JObj [(''key'', JStr ''gate''), (''value'', JStr ''A1'')]"

definition demo_seat :: jsval where
  "demo_seat = JObj [(''key'', JStr ''seat''), (''value'', JStr ''12F'')]"

section \<open>Objects: assignment, spread and distinct keys\<close>

lemma map_of_Object_assign:
  "map_of (Object_assign target source) k =
     (case map_of (rev source) k of None \<Rightarrow> map_of target k | Some v \<Rightarrow> Some v)"
  unfolding Object_assign_def
proof (induction source arbitrary: target)
  case Nil
  show ?case by simp
next
  case (Cons p source)
  obtain k' v' where p: "p = (k', v')" by (cases p)
  show ?case
    by (simp add: p Cons.IH update_conv' map_add_def split: option.splits)
qed

lemma keys_Object_assign:
  "fst ` set (Object_assign target source) = fst ` set target \<union> fst ` set source"
  unfolding Object_assign_def
proof (induction source arbitrary: target)
  case Nil
  show ?case by simp
next
  case (Cons p source)
  obtain k' v' where p: "p = (k', v')" by (cases p)
  show ?case
    by (simp add: p Cons.IH dom_update Un_assoc)
qed

lemma distinct_Object_assign:
  "distinct (map fst target) \<Longrightarrow> distinct (map fst (Object_assign target source))"
  unfolding Object_assign_def
proof (induction source arbitrary: target)
  case Nil
  then show ?case by simp
next
  case (Cons p source)
  obtain k' v' where p: "p = (k', v')" by (cases p)
  from Cons.prems have "distinct (map fst (AList.update k' v' target))"
    by (rule distinct_update)
  then show ?case
    by (simp add: p Cons.IH)
qed

lemma distinct_spread: "distinct (map fst (spread source))"
  unfolding spread_def by (rule distinct_Object_assign) simp

section \<open>The manifest\<close>

lemma manifest_of_eq: "manifest_of E finalBundle =
    Object_assign [] (map (\<lambda>(fileName, buffer). (fileName, sha1_hex E buffer)) finalBundle)"
proof -
  have "fold (\<lambda>(fileName, buffer) acc. AList.update fileName (sha1_hex E buffer) acc) xs acc =
        fold (\<lambda>(k, v). AList.update k v) (map (\<lambda>(fileName, buffer). (fileName, sha1_hex E buffer)) xs) acc"
    for xs :: "buffer obj" and acc
    by (induction xs arbitrary: acc) (auto simp: case_prod_beta)
  then show ?thesis
    by (simp add: manifest_of_def Object_assign_def)
qed

lemma map_of_digests:
  "distinct (map fst xs) \<Longrightarrow> (n, b) \<in> set xs \<Longrightarrow>
     map_of (rev (map (\<lambda>(fileName, buffer). (fileName, f buffer)) xs)) n = Some (f b)"
proof -
  assume d: "distinct (map fst xs)" and m: "(n, b) \<in> set xs"
  have d': "distinct (map fst (rev (map (\<lambda>(fileName, buffer). (fileName, f buffer)) xs)))"
    using d by (simp add: rev_map [symmetric] case_prod_beta comp_def)
  have "(n, f b) \<in> set (rev (map (\<lambda>(fileName, buffer). (fileName, f buffer)) xs))"
    using m by force
  with d' show ?thesis
    by (rule map_of_is_SomeI)
qed

lemma manifest_of_entry:
  "distinct (map fst finalBundle) \<Longrightarrow> (n, b) \<in> set finalBundle \<Longrightarrow>
     map_of (manifest_of E finalBundle) n = Some (sha1_hex E b)"
  by (simp add: manifest_of_eq map_of_Object_assign map_of_digests)

lemma manifest_of_keys: "fst ` set (manifest_of E finalBundle) = fst ` set finalBundle"
  by (force simp: manifest_of_eq keys_Object_assign)

section \<open>The localization loop keeps the keys of the final bundle distinct\<close>

lemma distinct_lang_step:
  "distinct (map fst (snd s)) \<Longrightarrow> distinct (map fst (snd (lang_step E tr lang s)))"
  by (cases s) (auto simp: lang_step_def Let_def distinct_Object_assign split: option.splits)

lemma distinct_fold_lang_step:
  "distinct (map fst (snd s)) \<Longrightarrow> distinct (map fst (snd (fold (lang_step E tr) ls s)))"
  by (induction ls arbitrary: s) (simp_all add: distinct_lang_step)

lemma distinct_localize_all: "distinct (map fst (snd (localize_all E st b)))"
  unfolding localize_all_def by (rule distinct_fold_lang_step) (simp add: distinct_spread)

section \<open>What a successful \<^verbatim>\<open>generate\<close> has done\<close>

lemma generate_InrE:
  assumes "generate E st = (st', Inr archive)"
  obtains passCoreBuffer props1 patched signatureBuffer bundle1 where
    "map_of (bundle st) ''pass.json'' = Some passCoreBuffer"
    "patch E st passCoreBuffer = (props1, Inr patched)"
    "bundle1 = prune_personalization props1 (AList.update ''pass.json'' patched (bundle st))"
    "st' = st\<lparr>props := props1, bundle := bundle1, l10nBundles := fst (localize_all E st bundle1)\<rparr>"
    "Signature_create E (manifest_of E (snd (localize_all E st bundle1))) (Certificates st)
       = Some signatureBuffer"
    "archive = snd (localize_all E st bundle1) @
       [(''signature'', signatureBuffer),
        (''manifest.json'',
         JSON_stringify E (manifest_json (manifest_of E (snd (localize_all E st bundle1)))))]"
  using assms unfolding generate_def
  by (auto simp: Let_def split: option.splits prod.splits sum.splits)

section \<open>Paths of localization files\<close>

lemma replace_first_notin: "a \<notin> set s \<Longrightarrow> replace_first a b s = s"
  by (induction s) auto

lemma replace_first_append: "a \<notin> set xs \<Longrightarrow> replace_first a b (xs @ a # ys) = xs @ b # ys"
  by (induction xs) auto

lemma fullPath_simple:
  assumes "no_separator lang" and "simple_name f"
  shows "fullPath E (languageBundleDirname lang) f = lang @ ''.lproj/'' @ f"
proof (cases "platform E")
  case Posix
  have "backslash \<notin> set (lang @ ''.lproj'' @ CHR ''/'' # f)"
    using assms by (simp add: no_separator_def simple_name_def backslash_def)
  then show ?thesis
    by (simp add: fullPath_def path_join_def path_sep_def Posix replace_first_notin
        languageBundleDirname_def)
next
  case Win32
  have "backslash \<notin> set (lang @ ''.lproj'')"
    using assms by (simp add: no_separator_def backslash_def)
  then have "replace_first backslash CHR ''/'' ((lang @ ''.lproj'') @ backslash # f)
               = (lang @ ''.lproj'') @ CHR ''/'' # f"
    by (rule replace_first_append)
  then show ?thesis
    by (simp add: fullPath_def path_join_def path_sep_def Win32 languageBundleDirname_def)
qed

lemma split_at_char:
  "c \<notin> set xs \<Longrightarrow> c \<notin> set xs' \<Longrightarrow> xs @ c # ys = xs' @ c # ys' \<Longrightarrow> xs = xs' \<and> ys = ys'"
proof (induction xs arbitrary: xs')
  case Nil
  then show ?case by (cases xs') auto
next
  case (Cons x xs)
  then show ?case by (cases xs') auto
qed

lemma lproj_path_inj:
  assumes "no_separator l" and "no_separator l'"
    and "l @ ''.lproj/'' @ f = l' @ ''.lproj/'' @ f'"
  shows "l = l' \<and> f = f'"
proof -
  have "CHR ''/'' \<notin> set (l @ ''.lproj'')" and "CHR ''/'' \<notin> set (l' @ ''.lproj'')"
    using assms(1,2) by (simp_all add: no_separator_def)
  moreover have "(l @ ''.lproj'') @ CHR ''/'' # f = (l' @ ''.lproj'') @ CHR ''/'' # f'"
    using assms(3) by simp
  ultimately have "l @ ''.lproj'' = l' @ ''.lproj'' \<and> f = f'"
    by (rule split_at_char)
  then show ?thesis by simp
qed

section \<open>Merging the rendered strings\<close>

lemma map_of_merge_strings:
  "map_of (merge_strings s d l10n) d' =
     (if d' = d \<and> s \<noteq> []
      then Some (AList.update ''pass.strings'' (existing_strings l10n d @ s)
                   (case map_of l10n d of None \<Rightarrow> [] | Some u \<Rightarrow> u))
      else map_of l10n d')"
  by (auto simp: merge_strings_def existing_strings_def update_conv' Let_def split: option.splits)

lemma set_update_subset: "set (AList.update k v al) \<subseteq> insert (k, v) (set al)"
  by (induction al) auto

lemma wf_l10n_merge_strings:
  assumes "wf_l10n l10n"
  shows "wf_l10n (merge_strings s d l10n)"
proof (cases "s = []")
  case True
  with assms show ?thesis by (simp add: merge_strings_def)
next
  case False
  define u0 where "u0 = (case map_of l10n d of None \<Rightarrow> [] | Some u \<Rightarrow> u)"
  have u0: "distinct (map fst u0) \<and> (\<forall>f \<in> fst ` set u0. simple_name f)"
  proof (cases "map_of l10n d")
    case None
    then show ?thesis by (simp add: u0_def)
  next
    case (Some u)
    then have "(d, u) \<in> set l10n" by (rule map_of_SomeD)
    with assms show ?thesis by (auto simp: u0_def Some wf_l10n_def)
  qed
  define u1 where "u1 = AList.update ''pass.strings''
      ((case map_of u0 ''pass.strings'' of None \<Rightarrow> [] | Some b \<Rightarrow> b) @ s) u0"
  have "simple_name ''pass.strings''"
    by (simp add: simple_name_def no_separator_def backslash_def)
  with u0 have u1: "distinct (map fst u1) \<and> (\<forall>f \<in> fst ` set u1. simple_name f)"
    by (auto simp: u1_def distinct_update dom_update)
  have m: "merge_strings s d l10n = AList.update d u1 l10n"
    using False by (simp add: merge_strings_def u1_def u0_def Let_def)
  show ?thesis
    unfolding m wf_l10n_def
  proof (intro ballI)
    fix p assume "p \<in> set (AList.update d u1 l10n)"
    then have "p = (d, u1) \<or> p \<in> set l10n"
      using set_update_subset [of d u1 l10n] by auto
    then show "case p of (d, u) \<Rightarrow> distinct (map fst u) \<and> (\<forall>f \<in> fst ` set u. simple_name f)"
      using u1 assms by (auto simp: wf_l10n_def)
  qed
qed

lemma dirname_inj [simp]: "languageBundleDirname l = languageBundleDirname l' \<longleftrightarrow> l = l'"
  by (simp add: languageBundleDirname_def)

lemma fst_lang_step:
  "fst (lang_step E tr l s) =
     merge_strings (rendered E tr l) (languageBundleDirname l) (fst s)"
  by (cases s) (simp add: lang_step_def Let_def split: option.splits)

lemma snd_lang_step:
  "snd (lang_step E tr l s) =
     (case map_of (merge_strings (rendered E tr l) (languageBundleDirname l) (fst s))
             (languageBundleDirname l) of
        None \<Rightarrow> snd s
      | Some u \<Rightarrow>
          if u = [] then snd s
          else Object_assign (snd s) (bundleRelativeL10NPaths E (languageBundleDirname l) u))"
  by (cases s) (simp add: lang_step_def Let_def split: option.splits)

lemma fst_fold_lang_step:
  "fst (fold (lang_step E tr) ls s) =
     fold (\<lambda>l. merge_strings (rendered E tr l) (languageBundleDirname l)) ls (fst s)"
  by (induction ls arbitrary: s) (simp_all add: fst_lang_step)

lemma wf_l10n_fold_merge:
  "wf_l10n l10n \<Longrightarrow>
     wf_l10n (fold (\<lambda>l. merge_strings (rendered E tr l) (languageBundleDirname l)) ls l10n)"
  by (induction ls arbitrary: l10n) (simp_all add: wf_l10n_merge_strings)

lemma fold_merge_other:
  "d \<notin> languageBundleDirname ` set ls \<Longrightarrow>
     map_of (fold (\<lambda>l. merge_strings (rendered E tr l) (languageBundleDirname l)) ls l10n) d
       = map_of l10n d"
  by (induction ls arbitrary: l10n) (auto simp: map_of_merge_strings)

lemma merge_strings_cong:
  "map_of a d = map_of b d \<Longrightarrow> map_of (merge_strings s d a) d = map_of (merge_strings s d b) d"
  by (simp add: map_of_merge_strings existing_strings_def)

lemma fold_merge_same:
  "distinct ls \<Longrightarrow> l \<in> set ls \<Longrightarrow>
     map_of (fold (\<lambda>l. merge_strings (rendered E tr l) (languageBundleDirname l)) ls l10n)
        (languageBundleDirname l)
       = map_of (merge_strings (rendered E tr l) (languageBundleDirname l) l10n)
           (languageBundleDirname l)"
proof (induction ls arbitrary: l10n)
  case Nil
  then show ?case by simp
next
  case (Cons a ls)
  show ?case
  proof (cases "a = l")
    case True
    with Cons.prems have "languageBundleDirname l \<notin> languageBundleDirname ` set ls" by auto
    then show ?thesis
      by (simp add: True fold_merge_other)
  next
    case False
    with Cons.prems have "distinct ls" and "l \<in> set ls" by auto
    then have "map_of (fold (\<lambda>l. merge_strings (rendered E tr l) (languageBundleDirname l)) ls
                 (merge_strings (rendered E tr a) (languageBundleDirname a) l10n))
                 (languageBundleDirname l)
               = map_of (merge_strings (rendered E tr l) (languageBundleDirname l)
                   (merge_strings (rendered E tr a) (languageBundleDirname a) l10n))
                   (languageBundleDirname l)"
      by (rule Cons.IH)
    also have "\<dots> = map_of (merge_strings (rendered E tr l) (languageBundleDirname l) l10n)
                   (languageBundleDirname l)"
      using False by (intro merge_strings_cong) (simp add: map_of_merge_strings)
    finally show ?thesis by simp
  qed
qed

section \<open>Flattening a language folder into the final bundle\<close>

lemma bundleRelativeL10NPaths_eq:
  "bundleRelativeL10NPaths E d u =
     Object_assign [] (map (\<lambda>(fileName, fileContent). (fullPath E d fileName, fileContent)) u)"
proof -
  have "fold (\<lambda>(fileName, fileContent) acc. AList.update (fullPath E d fileName) fileContent acc) xs acc
        = fold (\<lambda>(k, v). AList.update k v)
            (map (\<lambda>(fileName, fileContent). (fullPath E d fileName, fileContent)) xs) acc"
    for xs :: "buffer obj" and acc
    by (induction xs arbitrary: acc) (auto simp: case_prod_beta)
  then show ?thesis
    by (simp add: bundleRelativeL10NPaths_def Object_assign_def)
qed

lemma keys_bundleRelativeL10NPaths:
  "fst ` set (bundleRelativeL10NPaths E d u) = fullPath E d ` fst ` set u"
  by (force simp: bundleRelativeL10NPaths_eq keys_Object_assign)

lemma map_of_rev_distinct: "distinct (map fst al) \<Longrightarrow> map_of (rev al) = map_of al"
proof (rule ext)
  fix k assume d: "distinct (map fst al)"
  then have d': "distinct (map fst (rev al))" by (simp add: rev_map [symmetric])
  show "map_of (rev al) k = map_of al k"
  proof (cases "map_of al k")
    case None
    then have "k \<notin> fst ` set al" by (simp add: map_of_eq_None_iff)
    then have "map_of (rev al) k = None" by (simp add: map_of_eq_None_iff)
    with None show ?thesis by simp
  next
    case (Some v)
    then have "(k, v) \<in> set (rev al)" by (auto dest: map_of_SomeD)
    with d' have "map_of (rev al) k = Some v" by (rule map_of_is_SomeI)
    with Some show ?thesis by simp
  qed
qed

lemma map_of_bundleRelativeL10NPaths:
  assumes "distinct (map fst u)" and "inj_on (fullPath E d) (fst ` set u)" and "(f, c) \<in> set u"
  shows "map_of (rev (bundleRelativeL10NPaths E d u)) (fullPath E d f) = Some c"
proof -
  let ?xs = "map (\<lambda>(fileName, fileContent). (fullPath E d fileName, fileContent)) u"
  have keys: "map fst ?xs = map (fullPath E d) (map fst u)"
    by (simp add: case_prod_beta comp_def)
  have "distinct (map (fullPath E d) (map fst u))"
    using assms(1,2) by (simp only: distinct_map set_map)
  then have "distinct (map fst ?xs)"
    by (simp only: keys)
  then have "distinct (map fst (rev ?xs))" by (simp add: rev_map [symmetric])
  moreover have "(fullPath E d f, c) \<in> set (rev ?xs)" using assms(3) by force
  ultimately have r: "map_of (rev ?xs) (fullPath E d f) = Some c" by (rule map_of_is_SomeI)
  have "distinct (map fst (bundleRelativeL10NPaths E d u))"
    unfolding bundleRelativeL10NPaths_eq by (rule distinct_Object_assign) simp
  then have "map_of (rev (bundleRelativeL10NPaths E d u)) = map_of (bundleRelativeL10NPaths E d u)"
    by (rule map_of_rev_distinct)
  then show ?thesis
    by (simp add: bundleRelativeL10NPaths_eq map_of_Object_assign r)
qed

lemma wf_l10n_unit:
  "wf_l10n l10n \<Longrightarrow> map_of l10n d = Some u \<Longrightarrow>
     distinct (map fst u) \<and> (\<forall>f \<in> fst ` set u. simple_name f)"
  by (auto simp: wf_l10n_def dest: map_of_SomeD)

lemma inj_on_fullPath:
  assumes "no_separator l" and "\<forall>f \<in> A. simple_name f"
  shows "inj_on (fullPath E (languageBundleDirname l)) A"
proof (rule inj_onI)
  fix f f' assume "f \<in> A" "f' \<in> A"
    and "fullPath E (languageBundleDirname l) f = fullPath E (languageBundleDirname l) f'"
  then have "l @ ''.lproj/'' @ f = l @ ''.lproj/'' @ f'"
    using assms by (simp add: fullPath_simple)
  then show "f = f'" by simp
qed

text \<open>One round of the loop: the entries it writes and the entries it leaves.\<close>

lemma lang_step_writes:
  assumes "wf_l10n l10n" and "no_separator l"
    and "map_of (merge_strings (rendered E tr l) (languageBundleDirname l) l10n)
           (languageBundleDirname l) = Some u"
    and "(f, c) \<in> set u"
  shows "map_of (snd (lang_step E tr l (l10n, fb))) (l @ ''.lproj/'' @ f) = Some c"
proof -
  have wf: "wf_l10n (merge_strings (rendered E tr l) (languageBundleDirname l) l10n)"
    using assms(1) by (rule wf_l10n_merge_strings)
  from wf_l10n_unit [OF wf assms(3)]
  have d: "distinct (map fst u)" and s: "\<forall>f \<in> fst ` set u. simple_name f" by auto
  have f: "simple_name f" using s assms(4) by force
  have inj: "inj_on (fullPath E (languageBundleDirname l)) (fst ` set u)"
    using assms(2) s by (rule inj_on_fullPath)
  have "map_of (rev (bundleRelativeL10NPaths E (languageBundleDirname l) u))
          (fullPath E (languageBundleDirname l) f) = Some c"
    using d inj assms(4) by (rule map_of_bundleRelativeL10NPaths)
  moreover have "u \<noteq> []" using assms(4) by auto
  ultimately show ?thesis
    using assms(2) f
    by (simp add: snd_lang_step assms(3) map_of_Object_assign fullPath_simple)
qed

lemma lang_step_keys:
  assumes "wf_l10n l10n" and "no_separator l"
    and "k \<in> fst ` set (snd (lang_step E tr l (l10n, fb)))"
  shows "k \<in> fst ` set fb \<or>
         (\<exists>u. map_of (merge_strings (rendered E tr l) (languageBundleDirname l) l10n)
                 (languageBundleDirname l) = Some u
              \<and> (\<exists>f \<in> fst ` set u. k = l @ ''.lproj/'' @ f))"
proof (cases "map_of (merge_strings (rendered E tr l) (languageBundleDirname l) l10n)
                (languageBundleDirname l)")
  case None
  with assms(3) show ?thesis by (simp add: snd_lang_step)
next
  case (Some u)
  have wf: "wf_l10n (merge_strings (rendered E tr l) (languageBundleDirname l) l10n)"
    using assms(1) by (rule wf_l10n_merge_strings)
  from wf_l10n_unit [OF wf Some]
  have s: "\<forall>f \<in> fst ` set u. simple_name f" by auto
  from assms(3) have "k \<in> fst ` set fb \<or> k \<in> fullPath E (languageBundleDirname l) ` fst ` set u"
    by (auto simp: snd_lang_step Some keys_Object_assign keys_bundleRelativeL10NPaths
        split: if_splits)
  then show ?thesis
  proof
    assume "k \<in> fst ` set fb"
    then show ?thesis ..
  next
    assume "k \<in> fullPath E (languageBundleDirname l) ` fst ` set u"
    then obtain f where f: "f \<in> fst ` set u" and k: "k = fullPath E (languageBundleDirname l) f"
      by auto
    from s f have "simple_name f" by auto
    with assms(2) k have "k = l @ ''.lproj/'' @ f" by (simp add: fullPath_simple)
    with Some f show ?thesis by auto
  qed
qed

lemma lang_step_leaves:
  assumes "wf_l10n l10n" and "no_separator l"
    and "\<forall>f. simple_name f \<longrightarrow> k \<noteq> l @ ''.lproj/'' @ f"
  shows "map_of (snd (lang_step E tr l (l10n, fb))) k = map_of fb k"
proof -
  show ?thesis
  proof (cases "map_of (merge_strings (rendered E tr l) (languageBundleDirname l) l10n)
                (languageBundleDirname l)")
    case None
    then show ?thesis by (simp add: snd_lang_step)
  next
    case (Some u)
    have wf: "wf_l10n (merge_strings (rendered E tr l) (languageBundleDirname l) l10n)"
      using assms(1) by (rule wf_l10n_merge_strings)
    from wf_l10n_unit [OF wf Some]
    have s: "\<forall>f \<in> fst ` set u. simple_name f" by auto
    have "k \<notin> fullPath E (languageBundleDirname l) ` fst ` set u"
    proof
      assume "k \<in> fullPath E (languageBundleDirname l) ` fst ` set u"
      then obtain f where f: "f \<in> fst ` set u" and k: "k = fullPath E (languageBundleDirname l) f"
        by auto
      from s f have sf: "simple_name f" by auto
      with assms(2) k have "k = l @ ''.lproj/'' @ f" by (simp add: fullPath_simple)
      with assms(3) sf show False by blast
    qed
    then have "map_of (rev (bundleRelativeL10NPaths E (languageBundleDirname l) u)) k = None"
      by (simp add: map_of_eq_None_iff keys_bundleRelativeL10NPaths)
    then show ?thesis
      by (simp add: snd_lang_step Some map_of_Object_assign)
  qed
qed

section \<open>The whole loop\<close>

lemma fold_lang_step_leaves:
  assumes "wf_l10n l10n" and "\<forall>l \<in> set ls. no_separator l"
    and "\<forall>l \<in> set ls. \<forall>f. simple_name f \<longrightarrow> k \<noteq> l @ ''.lproj/'' @ f"
  shows "map_of (snd (fold (lang_step E tr) ls (l10n, fb))) k = map_of fb k"
  using assms
proof (induction ls arbitrary: l10n fb)
  case Nil
  then show ?case by simp
next
  case (Cons a ls)
  obtain l10n1 fb1 where s1: "lang_step E tr a (l10n, fb) = (l10n1, fb1)"
    by (cases "lang_step E tr a (l10n, fb)")
  have l1: "l10n1 = merge_strings (rendered E tr a) (languageBundleDirname a) l10n"
    using fst_lang_step [of E tr a "(l10n, fb)"] by (simp add: s1)
  have wf1: "wf_l10n l10n1"
    unfolding l1 using Cons.prems(1) by (rule wf_l10n_merge_strings)
  have "map_of fb1 k = map_of fb k"
    using lang_step_leaves [of l10n a k E tr fb] Cons.prems by (simp add: s1)
  moreover have "map_of (snd (fold (lang_step E tr) ls (l10n1, fb1))) k = map_of fb1 k"
    using wf1 Cons.prems by (intro Cons.IH) auto
  ultimately show ?case by (simp add: s1)
qed

lemma fold_lang_step_writes:
  assumes "distinct ls" and "\<forall>l \<in> set ls. no_separator l" and "wf_l10n l10n"
    and "l \<in> set ls"
    and "map_of (merge_strings (rendered E tr l) (languageBundleDirname l) l10n)
           (languageBundleDirname l) = Some u"
    and "(f, c) \<in> set u"
  shows "map_of (snd (fold (lang_step E tr) ls (l10n, fb))) (l @ ''.lproj/'' @ f) = Some c"
  using assms
proof (induction ls arbitrary: l10n fb)
  case Nil
  then show ?case by simp
next
  case (Cons a ls)
  obtain l10n1 fb1 where s1: "lang_step E tr a (l10n, fb) = (l10n1, fb1)"
    by (cases "lang_step E tr a (l10n, fb)")
  have l1: "l10n1 = merge_strings (rendered E tr a) (languageBundleDirname a) l10n"
    using fst_lang_step [of E tr a "(l10n, fb)"] by (simp add: s1)
  have wf1: "wf_l10n l10n1"
    unfolding l1 using Cons.prems(3) by (rule wf_l10n_merge_strings)
  show ?case
  proof (cases "a = l")
    case True
    have fb1: "fb1 = snd (lang_step E tr l (l10n, fb))"
      using s1 True by simp
    have "no_separator l" using Cons.prems(2,4) by blast
    with Cons.prems(3) have w: "map_of fb1 (l @ ''.lproj/'' @ f) = Some c"
      unfolding fb1 using Cons.prems(5,6) by (rule lang_step_writes)
    have nl: "l \<notin> set ls" and sep: "\<forall>l' \<in> set ls. no_separator l'" and "no_separator l"
      using Cons.prems True by auto
    have "\<forall>l' \<in> set ls. \<forall>f'. simple_name f' \<longrightarrow> l @ ''.lproj/'' @ f \<noteq> l' @ ''.lproj/'' @ f'"
    proof (intro ballI allI impI notI)
      fix l' f' assume "l' \<in> set ls" and "l @ ''.lproj/'' @ f = l' @ ''.lproj/'' @ f'"
      with sep \<open>no_separator l\<close> have "l = l'" using lproj_path_inj by blast
      with nl \<open>l' \<in> set ls\<close> show False by simp
    qed
    with wf1 sep
    have "map_of (snd (fold (lang_step E tr) ls (l10n1, fb1))) (l @ ''.lproj/'' @ f)
            = map_of fb1 (l @ ''.lproj/'' @ f)"
      by (rule fold_lang_step_leaves)
    with w show ?thesis by (simp add: s1)
  next
    case False
    have "map_of (merge_strings (rendered E tr l) (languageBundleDirname l) l10n1)
            (languageBundleDirname l)
          = map_of (merge_strings (rendered E tr l) (languageBundleDirname l) l10n)
            (languageBundleDirname l)"
      unfolding l1 using False by (intro merge_strings_cong) (simp add: map_of_merge_strings)
    with Cons.prems(5)
    have u: "map_of (merge_strings (rendered E tr l) (languageBundleDirname l) l10n1)
               (languageBundleDirname l) = Some u"
      by simp
    have "map_of (snd (fold (lang_step E tr) ls (l10n1, fb1))) (l @ ''.lproj/'' @ f) = Some c"
      using Cons.prems False wf1 u by (intro Cons.IH) auto
    then show ?thesis by (simp add: s1)
  qed
qed

lemma fold_lang_step_keys:
  assumes "distinct ls" and "\<forall>l \<in> set ls. no_separator l" and "wf_l10n l10n"
    and "k \<in> fst ` set (snd (fold (lang_step E tr) ls (l10n, fb)))"
  shows "k \<in> fst ` set fb \<or>
         (\<exists>l \<in> set ls. \<exists>u.
            map_of (fst (fold (lang_step E tr) ls (l10n, fb))) (languageBundleDirname l) = Some u
            \<and> (\<exists>f \<in> fst ` set u. k = l @ ''.lproj/'' @ f))"
  using assms
proof (induction ls arbitrary: l10n fb)
  case Nil
  then show ?case by simp
next
  case (Cons a ls)
  obtain l10n1 fb1 where s1: "lang_step E tr a (l10n, fb) = (l10n1, fb1)"
    by (cases "lang_step E tr a (l10n, fb)")
  have l1: "l10n1 = merge_strings (rendered E tr a) (languageBundleDirname a) l10n"
    using fst_lang_step [of E tr a "(l10n, fb)"] by (simp add: s1)
  have wf1: "wf_l10n l10n1"
    unfolding l1 using Cons.prems(3) by (rule wf_l10n_merge_strings)
  have k: "k \<in> fst ` set (snd (fold (lang_step E tr) ls (l10n1, fb1)))"
    using Cons.prems(4) by (simp add: s1)
  have "k \<in> fst ` set fb1 \<or>
         (\<exists>l \<in> set ls. \<exists>u.
            map_of (fst (fold (lang_step E tr) ls (l10n1, fb1))) (languageBundleDirname l) = Some u
            \<and> (\<exists>f \<in> fst ` set u. k = l @ ''.lproj/'' @ f))"
    using Cons.prems wf1 k by (intro Cons.IH) auto
  then show ?case
  proof
    assume "k \<in> fst ` set fb1"
    then have "k \<in> fst ` set (snd (lang_step E tr a (l10n, fb)))" by (simp add: s1)
    with Cons.prems have "k \<in> fst ` set fb \<or>
         (\<exists>u. map_of l10n1 (languageBundleDirname a) = Some u
              \<and> (\<exists>f \<in> fst ` set u. k = a @ ''.lproj/'' @ f))"
      unfolding l1 by (intro lang_step_keys) auto
    moreover have "languageBundleDirname a \<notin> languageBundleDirname ` set ls"
      using Cons.prems(1) by auto
    then have "map_of (fst (fold (lang_step E tr) ls (l10n1, fb1))) (languageBundleDirname a)
                 = map_of l10n1 (languageBundleDirname a)"
      by (simp add: fst_fold_lang_step fold_merge_other)
    ultimately show ?thesis by (auto simp: s1)
  next
    assume "\<exists>l \<in> set ls. \<exists>u.
            map_of (fst (fold (lang_step E tr) ls (l10n1, fb1))) (languageBundleDirname l) = Some u
            \<and> (\<exists>f \<in> fst ` set u. k = l @ ''.lproj/'' @ f)"
    then show ?thesis by (auto simp: s1)
  qed
qed

lemma translationsLanguageCodes_wf:
  assumes "wf_translations (l10nTranslations st)"
  shows "translationsLanguageCodes st = rev (map fst (l10nTranslations st))"
    and "distinct (translationsLanguageCodes st)"
    and "\<forall>l \<in> set (translationsLanguageCodes st). no_separator l"
proof -
  have "\<forall>l \<in> set (rev (map fst (l10nTranslations st))). l \<noteq> []"
    using assms by (auto simp: wf_translations_def)
  then show 1: "translationsLanguageCodes st = rev (map fst (l10nTranslations st))"
    unfolding translationsLanguageCodes_def by (simp add: takeWhile_eq_all_conv)
  show "distinct (translationsLanguageCodes st)"
    unfolding 1 using assms by (simp add: wf_translations_def)
  show "\<forall>l \<in> set (translationsLanguageCodes st). no_separator l"
    unfolding 1 using assms by (auto simp: wf_translations_def)
qed

section \<open>The final bundle\<close>

lemma keys_spread: "fst ` set (spread b) = fst ` set b"
  by (simp add: spread_def keys_Object_assign)

lemma update_entry: "(k, v) \<in> set (AList.update k v al)"
  by (rule map_of_SomeD) (simp add: update_conv')

lemma fst_localize_all:
  "fst (localize_all E st b) =
     fold (\<lambda>l. merge_strings (rendered E (l10nTranslations st) l) (languageBundleDirname l))
       (translationsLanguageCodes st) (l10nBundles st)"
  by (simp add: localize_all_def fst_fold_lang_step)

lemma wf_l10n_localize_all:
  "wf_l10n (l10nBundles st) \<Longrightarrow> wf_l10n (fst (localize_all E st b))"
  by (simp add: fst_localize_all wf_l10n_fold_merge)

lemma staged_codes:
  "wf_translations (l10nTranslations st) \<Longrightarrow>
     set (translationsLanguageCodes st) = fst ` set (l10nTranslations st)"
  by (simp add: translationsLanguageCodes_wf(1))

text \<open>The folder of a staged language after the loop is its folder before the loop with
  the rendered strings merged in.\<close>

lemma localize_all_folder:
  assumes "wf_translations (l10nTranslations st)"
    and "lang \<in> fst ` set (l10nTranslations st)"
  shows "map_of (fst (localize_all E st b)) (languageBundleDirname lang) =
           map_of (merge_strings (rendered E (l10nTranslations st) lang)
                     (languageBundleDirname lang) (l10nBundles st))
             (languageBundleDirname lang)"
proof -
  have "distinct (translationsLanguageCodes st)"
    using assms(1) by (rule translationsLanguageCodes_wf)
  moreover have "lang \<in> set (translationsLanguageCodes st)"
    using assms by (simp add: staged_codes)
  ultimately show ?thesis
    unfolding fst_localize_all by (rule fold_merge_same)
qed

lemma localize_all_strings:
  assumes "wf_translations (l10nTranslations st)"
    and "lang \<in> fst ` set (l10nTranslations st)"
    and "rendered E (l10nTranslations st) lang \<noteq> []"
  shows "existing_strings (fst (localize_all E st b)) (languageBundleDirname lang) =
           existing_strings (l10nBundles st) (languageBundleDirname lang)
             @ rendered E (l10nTranslations st) lang"
  using assms(3)
  by (simp add: existing_strings_def [of "fst (localize_all E st b)"]
      localize_all_folder [OF assms(1,2)] map_of_merge_strings update_conv')

lemma localize_all_writes:
  assumes "wf_translations (l10nTranslations st)" and "wf_l10n (l10nBundles st)"
    and "lang \<in> fst ` set (l10nTranslations st)"
    and "map_of (fst (localize_all E st b)) (languageBundleDirname lang) = Some u"
    and "(f, c) \<in> set u"
  shows "map_of (snd (localize_all E st b)) (lang @ ''.lproj/'' @ f) = Some c"
proof -
  have d: "distinct (translationsLanguageCodes st)"
    and s: "\<forall>l \<in> set (translationsLanguageCodes st). no_separator l"
    using assms(1) by (rule translationsLanguageCodes_wf)+
  have l: "lang \<in> set (translationsLanguageCodes st)"
    using assms(1,3) by (simp add: staged_codes)
  have u: "map_of (merge_strings (rendered E (l10nTranslations st) lang)
                     (languageBundleDirname lang) (l10nBundles st))
             (languageBundleDirname lang) = Some u"
    using assms(4) by (simp add: localize_all_folder [OF assms(1,3)])
  show ?thesis
    unfolding localize_all_def using d s assms(2) l u assms(5) by (rule fold_lang_step_writes)
qed

lemma localize_all_keys:
  assumes "wf_translations (l10nTranslations st)" and "wf_l10n (l10nBundles st)"
    and "k \<in> fst ` set (snd (localize_all E st b))"
  shows "k \<in> fst ` set b \<or>
         (\<exists>lang \<in> fst ` set (l10nTranslations st). \<exists>u.
            map_of (fst (localize_all E st b)) (languageBundleDirname lang) = Some u
            \<and> (\<exists>f \<in> fst ` set u. k = lang @ ''.lproj/'' @ f))"
proof -
  have d: "distinct (translationsLanguageCodes st)"
    and s: "\<forall>l \<in> set (translationsLanguageCodes st). no_separator l"
    using assms(1) by (rule translationsLanguageCodes_wf)+
  from fold_lang_step_keys [OF d s assms(2) assms(3) [unfolded localize_all_def]]
  show ?thesis
    by (simp add: localize_all_def [symmetric] keys_spread staged_codes [OF assms(1)])
qed

lemma localize_all_root:
  assumes "wf_translations (l10nTranslations st)" and "wf_l10n (l10nBundles st)"
    and "distinct (map fst b)" and "CHR ''/'' \<notin> set k"
  shows "map_of (snd (localize_all E st b)) k = map_of b k"
proof -
  have s: "\<forall>l \<in> set (translationsLanguageCodes st). no_separator l"
    using assms(1) by (rule translationsLanguageCodes_wf)
  have "\<forall>l \<in> set (translationsLanguageCodes st). \<forall>f. simple_name f \<longrightarrow> k \<noteq> l @ ''.lproj/'' @ f"
    using assms(4) by auto
  with assms(2) s have "map_of (snd (localize_all E st b)) k = map_of (spread b) k"
    unfolding localize_all_def by (rule fold_lang_step_leaves)
  also have "\<dots> = map_of (rev b) k"
    by (simp add: spread_def map_of_Object_assign split: option.splits)
  also have "\<dots> = map_of b k"
    using assms(3) by (simp add: map_of_rev_distinct)
  finally show ?thesis .
qed

section \<open>The archive of a successful \<^verbatim>\<open>generate\<close>\<close>

lemma generate_state:
  assumes "generate E st = (st', Inr archive)"
  shows "l10nBundles st' = fst (localize_all E st (bundle st'))"
    and "l10nTranslations st' = l10nTranslations st"
    and "Certificates st' = Certificates st"
    and "type st' = type st"
    and "transitType st' = transitType st"
    and "\<exists>sig manifest. archive = snd (localize_all E st (bundle st')) @
            [(''signature'', sig), (''manifest.json'', manifest)]"
proof -
  from assms obtain passCoreBuffer props1 patched signatureBuffer bundle1 where
    st': "st' = st\<lparr>props := props1, bundle := bundle1,
                   l10nBundles := fst (localize_all E st bundle1)\<rparr>"
    and arch: "archive = snd (localize_all E st bundle1) @
       [(''signature'', signatureBuffer),
        (''manifest.json'',
         JSON_stringify E (manifest_json (manifest_of E (snd (localize_all E st bundle1)))))]"
    by (rule generate_InrE)
  show "l10nBundles st' = fst (localize_all E st (bundle st'))"
    and "l10nTranslations st' = l10nTranslations st"
    and "Certificates st' = Certificates st"
    and "type st' = type st"
    and "transitType st' = transitType st"
    by (simp_all add: st')
  show "\<exists>sig manifest. archive = snd (localize_all E st (bundle st')) @
            [(''signature'', sig), (''manifest.json'', manifest)]"
    using arch by (simp add: st')
qed

lemma generate_files:
  assumes "generate E st = (st', Inr archive)"
    and "wf_translations (l10nTranslations st)" and "wf_l10n (l10nBundles st)"
    and "lang \<in> fst ` set (l10nTranslations st)"
    and "map_of (l10nBundles st') (languageBundleDirname lang) = Some u" and "(f, c) \<in> set u"
  shows "map_of archive (lang @ ''.lproj/'' @ f) = Some c"
proof -
  from generate_state(6) [OF assms(1)] obtain sig manifest where
    arch: "archive = snd (localize_all E st (bundle st')) @
            [(''signature'', sig), (''manifest.json'', manifest)]"
    by blast
  have "map_of (snd (localize_all E st (bundle st'))) (lang @ ''.lproj/'' @ f) = Some c"
    using assms(2,3,4) assms(5) [unfolded generate_state(1) [OF assms(1)]] assms(6)
    by (rule localize_all_writes)
  then show ?thesis by (simp add: arch)
qed

lemma generate_strings:
  assumes "generate E st = (st', Inr archive)"
    and "wf_translations (l10nTranslations st)" and "wf_l10n (l10nBundles st)"
    and "lang \<in> fst ` set (l10nTranslations st)"
    and "rendered E (l10nTranslations st) lang \<noteq> []"
  shows "map_of archive (lang @ ''.lproj/pass.strings'') =
           Some (existing_strings (l10nBundles st) (languageBundleDirname lang)
                   @ rendered E (l10nTranslations st) lang)"
proof -
  let ?u = "AList.update ''pass.strings''
              (existing_strings (l10nBundles st) (languageBundleDirname lang)
                 @ rendered E (l10nTranslations st) lang)
              (case map_of (l10nBundles st) (languageBundleDirname lang) of
                 None \<Rightarrow> [] | Some u \<Rightarrow> u)"
  have "map_of (l10nBundles st') (languageBundleDirname lang) = Some ?u"
    using assms(5)
    by (simp add: generate_state(1) [OF assms(1)] localize_all_folder [OF assms(2,4)]
        map_of_merge_strings)
  moreover have "(''pass.strings'',
                  existing_strings (l10nBundles st) (languageBundleDirname lang)
                    @ rendered E (l10nTranslations st) lang) \<in> set ?u"
    by (rule update_entry)
  ultimately have "map_of archive (lang @ ''.lproj/'' @ ''pass.strings'') =
            Some (existing_strings (l10nBundles st) (languageBundleDirname lang)
                    @ rendered E (l10nTranslations st) lang)"
    by (rule generate_files [OF assms(1,2,3,4)])
  then show ?thesis by simp
qed

lemma generate_keys:
  assumes "generate E st = (st', Inr archive)"
    and "wf_translations (l10nTranslations st)" and "wf_l10n (l10nBundles st)"
    and "k \<in> fst ` set archive"
  shows "k \<in> fst ` set (bundle st') \<or> k = ''signature'' \<or> k = ''manifest.json'' \<or>
         (\<exists>lang \<in> fst ` set (l10nTranslations st). \<exists>u.
            map_of (l10nBundles st') (languageBundleDirname lang) = Some u
            \<and> (\<exists>f \<in> fst ` set u. k = lang @ ''.lproj/'' @ f))"
proof -
  from generate_state(6) [OF assms(1)] obtain sig manifest where
    arch: "archive = snd (localize_all E st (bundle st')) @
            [(''signature'', sig), (''manifest.json'', manifest)]"
    by blast
  from assms(4) have "k \<in> fst ` set (snd (localize_all E st (bundle st'))) \<or> k = ''signature''
      \<or> k = ''manifest.json''"
    by (auto simp: arch)
  then show ?thesis
    using localize_all_keys [OF assms(2,3), of k E "bundle st'"]
    unfolding generate_state(1) [OF assms(1), symmetric] by blast
qed

lemma generate_existing_strings:
  assumes "generate E st = (st', Inr archive)"
    and "wf_translations (l10nTranslations st)"
    and "lang \<in> fst ` set (l10nTranslations st)"
    and "rendered E (l10nTranslations st) lang \<noteq> []"
  shows "existing_strings (l10nBundles st') (languageBundleDirname lang) =
           existing_strings (l10nBundles st) (languageBundleDirname lang)
             @ rendered E (l10nTranslations st) lang"
  unfolding generate_state(1) [OF assms(1)] using assms(2,3,4) by (rule localize_all_strings)

lemma generate_wf_l10n:
  assumes "generate E st = (st', Inr archive)" and "wf_l10n (l10nBundles st)"
  shows "wf_l10n (l10nBundles st')"
  unfolding generate_state(1) [OF assms(1)] using assms(2) by (rule wf_l10n_localize_all)

lemma map_of_fold_delete:
  "k \<notin> set ks \<Longrightarrow> map_of (fold AList.delete ks al) k = map_of al k"
  by (induction ks arbitrary: al) auto

lemma keys_fold_delete:
  "fst ` set (fold AList.delete ks al) = fst ` set al - set ks"
proof (induction ks arbitrary: al)
  case Nil
  show ?case by simp
next
  case (Cons k ks)
  have "fst ` set (AList.delete k al) = fst ` set al - {k}"
    by (auto simp: AList.delete_eq)
  then show ?case by (auto simp: Cons.IH)
qed

lemma map_of_prune_personalization:
  "\<not> prefix ''personalizationLogo'' k \<Longrightarrow> k \<noteq> ''personalization.json'' \<Longrightarrow>
     map_of (prune_personalization ps b) k = map_of b k"
  by (auto simp: prune_personalization_def deletePersonalization_def
      getAllFilesWithName_startsWith_def Let_def map_of_fold_delete)

lemma generate_pass_json:
  assumes "generate E st = (st', Inr archive)"
  shows "\<exists>passCoreBuffer patched.
           map_of (bundle st) ''pass.json'' = Some passCoreBuffer \<and>
           snd (patch E st passCoreBuffer) = Inr patched \<and>
           props st' = fst (patch E st passCoreBuffer) \<and>
           map_of (bundle st') ''pass.json'' = Some patched"
proof -
  from assms obtain passCoreBuffer props1 patched signatureBuffer bundle1 where
    b: "map_of (bundle st) ''pass.json'' = Some passCoreBuffer"
    and p: "patch E st passCoreBuffer = (props1, Inr patched)"
    and b1: "bundle1 = prune_personalization props1 (AList.update ''pass.json'' patched (bundle st))"
    and st': "st' = st\<lparr>props := props1, bundle := bundle1,
                   l10nBundles := fst (localize_all E st bundle1)\<rparr>"
    by (rule generate_InrE)
  have "map_of bundle1 ''pass.json'' = Some patched"
    unfolding b1 by (simp add: map_of_prune_personalization update_conv')
  with b p show ?thesis by (auto simp: st')
qed

section \<open>The properties after \<^verbatim>\<open>_patch\<close> and the pruned bundle\<close>

lemma fst_patch:
  "fst (patch E st buf) = props st \<or> fst (patch E st buf) = prune_colors E (props st)"
  by (auto simp: patch_def patch_passFile_def overlay_def Let_def split: option.splits
      jsval.splits prod.splits sum.splits)

lemma map_of_prune_colors:
  "k \<notin> set passColors \<Longrightarrow> map_of (prune_colors E ps) k = map_of ps k"
  unfolding prune_colors_def by (rule map_of_fold_delete) (auto simp: invalid_colors_def)

lemma map_of_fst_patch:
  "k \<notin> set passColors \<Longrightarrow> map_of (fst (patch E st buf)) k = map_of (props st) k"
  using fst_patch [of E st buf] by (auto simp: map_of_prune_colors)

lemma keys_prune_personalization:
  assumes "\<not> truthy (case map_of ps ''nfc'' of None \<Rightarrow> JUndefined | Some v \<Rightarrow> v)"
    and "''personalization.json'' \<in> fst ` set b"
  shows "fst ` set (prune_personalization ps b) =
           {k \<in> fst ` set b. k \<noteq> ''personalization.json'' \<and> \<not> prefix ''personalizationLogo'' k}"
proof -
  have "prune_personalization ps b =
          fold AList.delete
            (filter (prefix ''personalizationLogo'') (map fst b) @ [''personalization.json'']) b"
    using assms
    by (simp add: prune_personalization_def deletePersonalization_def
        getAllFilesWithName_startsWith_def Let_def del: fold_append)
  then have "fst ` set (prune_personalization ps b) =
          fst ` set b
            - set (filter (prefix ''personalizationLogo'') (map fst b) @ [''personalization.json''])"
    by (simp only: keys_fold_delete)
  then show ?thesis by auto
qed

text \<open>Without any assumption on the names, an entry of the final bundle is an entry of the
  root bundle or was written under the path of a localization file.\<close>

lemma fold_lang_step_keys_any:
  "k \<in> fst ` set (snd (fold (lang_step E tr) ls s)) \<Longrightarrow>
     k \<in> fst ` set (snd s) \<or>
     (\<exists>lang \<in> set ls. \<exists>fileName. k = fullPath E (languageBundleDirname lang) fileName)"
proof (induction ls arbitrary: s)
  case Nil
  then show ?case by simp
next
  case (Cons a ls)
  from Cons.prems have "k \<in> fst ` set (snd (fold (lang_step E tr) ls (lang_step E tr a s)))"
    by simp
  then have "k \<in> fst ` set (snd (lang_step E tr a s)) \<or>
     (\<exists>lang \<in> set ls. \<exists>fileName. k = fullPath E (languageBundleDirname lang) fileName)"
    by (rule Cons.IH)
  moreover have "k \<in> fst ` set (snd s) \<or> (\<exists>fileName. k = fullPath E (languageBundleDirname a) fileName)"
    if "k \<in> fst ` set (snd (lang_step E tr a s))"
    using that
    by (auto simp: snd_lang_step keys_Object_assign keys_bundleRelativeL10NPaths
        split: option.splits if_splits)
  ultimately show ?case by auto
qed

lemma localize_all_keys_any:
  "k \<in> fst ` set (snd (localize_all E st b)) \<Longrightarrow>
     k \<in> fst ` set b \<or>
     (\<exists>lang \<in> set (translationsLanguageCodes st). \<exists>fileName.
        k = fullPath E (languageBundleDirname lang) fileName)"
  unfolding localize_all_def
  using fold_lang_step_keys_any [of k E "l10nTranslations st" "translationsLanguageCodes st"
      "(l10nBundles st, spread b)"]
  by (simp add: keys_spread)

section \<open>Root files in the final bundle\<close>

lemma replace_first_slash:
  "CHR ''/'' \<in> set s \<or> backslash \<in> set s \<Longrightarrow> CHR ''/'' \<in> set (replace_first backslash CHR ''/'' s)"
  by (induction s) auto

lemma fullPath_slash: "CHR ''/'' \<in> set (fullPath E d f)"
  unfolding fullPath_def
  by (rule replace_first_slash) (cases "platform E"; simp add: path_join_def path_sep_def)

lemma fold_lang_step_leaves_any:
  "\<forall>l \<in> set ls. \<forall>f. k \<noteq> fullPath E (languageBundleDirname l) f \<Longrightarrow>
     map_of (snd (fold (lang_step E tr) ls s)) k = map_of (snd s) k"
proof (induction ls arbitrary: s)
  case Nil
  show ?case by simp
next
  case (Cons a ls)
  have "map_of (rev (bundleRelativeL10NPaths E (languageBundleDirname a) u)) k = None" for u
    using Cons.prems by (auto simp: map_of_eq_None_iff keys_bundleRelativeL10NPaths)
  then have "map_of (snd (lang_step E tr a s)) k = map_of (snd s) k"
    by (simp add: snd_lang_step map_of_Object_assign split: option.splits)
  moreover have "map_of (snd (fold (lang_step E tr) ls (lang_step E tr a s))) k
                   = map_of (snd (lang_step E tr a s)) k"
    using Cons.prems by (intro Cons.IH) simp
  ultimately show ?case by simp
qed

lemma localize_all_root_any:
  assumes "distinct (map fst b)" and "CHR ''/'' \<notin> set k"
  shows "map_of (snd (localize_all E st b)) k = map_of b k"
proof -
  have "\<forall>l \<in> set (translationsLanguageCodes st). \<forall>f. k \<noteq> fullPath E (languageBundleDirname l) f"
    using assms(2) fullPath_slash by metis
  then have "map_of (snd (localize_all E st b)) k = map_of (spread b) k"
    unfolding localize_all_def using fold_lang_step_leaves_any by fastforce
  also have "\<dots> = map_of (rev b) k"
    by (simp add: spread_def map_of_Object_assign split: option.splits)
  also have "\<dots> = map_of b k"
    using assms(1) by (simp add: map_of_rev_distinct)
  finally show ?thesis .
qed

lemma distinct_fold_delete: "distinct (map fst al) \<Longrightarrow> distinct (map fst (fold AList.delete ks al))"
  by (induction ks arbitrary: al) (simp_all add: distinct_delete)

lemma distinct_prune_personalization:
  "distinct (map fst b) \<Longrightarrow> distinct (map fst (prune_personalization ps b))"
  by (simp add: prune_personalization_def deletePersonalization_def Let_def distinct_fold_delete
      del: fold_append)

lemma generate_distinct:
  assumes "generate E st = (st', Inr archive)" and "distinct (map fst (bundle st))"
  shows "distinct (map fst (bundle st'))"
proof -
  from assms(1) obtain passCoreBuffer props1 patched signatureBuffer bundle1 where
    b1: "bundle1 = prune_personalization props1 (AList.update ''pass.json'' patched (bundle st))"
    and st': "st' = st\<lparr>props := props1, bundle := bundle1,
                   l10nBundles := fst (localize_all E st bundle1)\<rparr>"
    by (rule generate_InrE)
  show ?thesis
    using assms(2) by (simp add: st' b1 distinct_prune_personalization distinct_update)
qed

lemma generate_root:
  assumes "generate E st = (st', Inr archive)" and "distinct (map fst (bundle st))"
    and "CHR ''/'' \<notin> set k" and "map_of (bundle st') k = Some v"
  shows "map_of archive k = Some v"
proof -
  from generate_state(6) [OF assms(1)] obtain sig manifest where
    arch: "archive = snd (localize_all E st (bundle st')) @
            [(''signature'', sig), (''manifest.json'', manifest)]"
    by blast
  have "map_of (snd (localize_all E st (bundle st'))) k = map_of (bundle st') k"
    using generate_distinct [OF assms(1,2)] assms(3) by (rule localize_all_root_any)
  with assms(4) show ?thesis by (simp add: arch)
qed

section \<open>The document written by \<^verbatim>\<open>_patch\<close>\<close>

lemma set_props_JObj: "set_props (JObj kv) fs = Inr (JObj (Object_assign kv fs))"
  by (induction fs arbitrary: kv) (auto simp: Object_assign_def)

lemma set_prop_error: "set_prop c k x = Inl e \<Longrightarrow> e = TypeError"
  by (cases c) auto

lemma set_props_error: "set_props c fs = Inl e \<Longrightarrow> e = TypeError"
  by (induction c fs rule: set_props.induct) (auto split: sum.splits dest: set_prop_error)

lemma patch_passFile_record:
  assumes "JSON_parse E buf = Some (JObj passFile)"
    and "map_of (snd (overlay E st passFile)) (type st) = Some (JObj cat)"
  shows "snd (patch_passFile E st buf) =
     (if type st = ''boardingPass'' \<and> \<not> truthy (transitType st) then Inl TRSTYPE_REQUIRED
      else Inr (JObj (AList.update (type st)
                        (JObj (AList.update ''transitType'' (transitType st)
                                 (Object_assign cat (fields_of st))))
                        (snd (overlay E st passFile)))))"
proof -
  obtain props1 passFile1 where o: "overlay E st passFile = (props1, passFile1)"
    by (cases "overlay E st passFile")
  with assms(2) have "map_of passFile1 (type st) = Some (JObj cat)" by simp
  then show ?thesis
    by (simp add: patch_passFile_def assms(1) o set_props_JObj)
qed

lemma patch_passFile_error:
  "snd (patch_passFile E st buf) = Inl e \<Longrightarrow>
     e = SyntaxError \<or> e = TypeError \<or>
     (e = TRSTYPE_REQUIRED \<and> type st = ''boardingPass'' \<and> \<not> truthy (transitType st))"
  by (auto simp: patch_passFile_def split: option.splits jsval.splits prod.splits sum.splits
      if_splits dest: set_props_error set_prop_error)

lemma snd_patch:
  "snd (patch E st buf) =
     (case snd (patch_passFile E st buf) of Inl e \<Rightarrow> Inl e
      | Inr passFile \<Rightarrow> Inr (JSON_stringify E passFile))"
  by (simp add: patch_def split: prod.splits sum.splits)

lemma generate_error:
  "snd (generate E st) = Inl e \<Longrightarrow>
     e = SyntaxError \<or> e = TypeError \<or> e = InvalidCredential \<or>
     (e = TRSTYPE_REQUIRED \<and> type st = ''boardingPass'' \<and> \<not> truthy (transitType st))"
proof (cases "map_of (bundle st) ''pass.json''")
  case None
  assume "snd (generate E st) = Inl e"
  with None show ?thesis by (simp add: generate_def)
next
  case (Some buf)
  assume e: "snd (generate E st) = Inl e"
  show ?thesis
  proof (cases "snd (patch_passFile E st buf)")
    case (Inl e')
    with e Some have "e' = e"
      using snd_patch [of E st buf]
      by (auto simp: generate_def split: prod.splits sum.splits)
    with Inl show ?thesis using patch_passFile_error by blast
  next
    case (Inr passFile)
    with e Some have "e = InvalidCredential"
      using snd_patch [of E st buf]
      by (auto simp: generate_def Let_def split: prod.splits sum.splits option.splits)
    then show ?thesis by simp
  qed
qed

lemma generate_TRSTYPE:
  assumes "template_category E st = Some (JObj cat)"
    and "type st = ''boardingPass''" and "\<not> truthy (transitType st)"
  shows "snd (generate E st) = Inl TRSTYPE_REQUIRED"
proof -
  from assms(1) obtain buf passFile where
    b: "map_of (bundle st) ''pass.json'' = Some buf"
    and p: "JSON_parse E buf = Some (JObj passFile)"
    and c: "map_of (snd (overlay E st passFile)) (type st) = Some (JObj cat)"
    by (auto simp: template_category_def split: option.splits jsval.splits)
  have "snd (patch_passFile E st buf) = Inl TRSTYPE_REQUIRED"
    using assms(2,3) by (simp add: patch_passFile_record [OF p c])
  then have "snd (patch E st buf) = Inl TRSTYPE_REQUIRED"
    by (simp add: snd_patch)
  then show ?thesis
    by (auto simp: generate_def b split: prod.splits sum.splits)
qed

lemma generate_succeeds:
  assumes "template_category E st = Some (JObj cat)"
    and "type st = ''boardingPass'' \<longrightarrow> truthy (transitType st)"
    and "\<forall>manifest. \<exists>sig. Signature_create E manifest (Certificates st) = Some sig"
  shows "\<exists>archive. snd (generate E st) = Inr archive"
proof -
  from assms(1) obtain buf passFile where
    b: "map_of (bundle st) ''pass.json'' = Some buf"
    and p: "JSON_parse E buf = Some (JObj passFile)"
    and c: "map_of (snd (overlay E st passFile)) (type st) = Some (JObj cat)"
    by (auto simp: template_category_def split: option.splits jsval.splits)
  have "\<exists>doc. snd (patch_passFile E st buf) = Inr doc"
    using assms(2) by (auto simp: patch_passFile_record [OF p c])
  then obtain patched where pp: "snd (patch E st buf) = Inr patched"
    by (auto simp: snd_patch)
  obtain props1 where p1: "patch E st buf = (props1, Inr patched)"
    using pp by (cases "patch E st buf") auto
  define bundle1 where
    "bundle1 = prune_personalization props1 (AList.update ''pass.json'' patched (bundle st))"
  from assms(3) obtain sig where
    "Signature_create E (manifest_of E (snd (localize_all E st bundle1))) (Certificates st)
       = Some sig"
    by blast
  then show ?thesis
    by (auto simp: generate_def b p1 bundle1_def Let_def split: prod.splits)
qed

lemma generate_document:
  assumes "generate E st = (st', Inr archive)"
  shows "\<exists>buf passFile.
           map_of (bundle st) ''pass.json'' = Some buf \<and>
           snd (patch_passFile E st buf) = Inr passFile \<and>
           map_of (bundle st') ''pass.json'' = Some (JSON_stringify E passFile)"
proof -
  from generate_pass_json [OF assms] obtain buf patched where
    b: "map_of (bundle st) ''pass.json'' = Some buf"
    and p: "snd (patch E st buf) = Inr patched"
    and b': "map_of (bundle st') ''pass.json'' = Some patched"
    by blast
  from p obtain passFile where "snd (patch_passFile E st buf) = Inr passFile"
    and "patched = JSON_stringify E passFile"
    by (auto simp: snd_patch split: sum.splits)
  with b b' show ?thesis by blast
qed

section \<open>The constructor\<close>

lemma has_keys_error: "has_keys v = Inl e \<Longrightarrow> e = TypeError"
  by (cases v) auto

lemma get_prop_error: "get_prop v k = Inl e \<Longrightarrow> e = TypeError"
  by (cases v) auto

lemma getValidInArray_error: "getValidInArray E s xs = Inl e \<Longrightarrow> e = TypeError"
  by (induction xs) (auto split: sum.splits dest: has_keys_error)

lemma validatedPassKeys_error:
  "validatedPassKeys E t core ks acc = Inl e \<Longrightarrow> e = TypeError"
  by (induction E t core ks acc rule: validatedPassKeys.induct)
    (auto simp: Let_def split: if_splits option.splits jsval.splits sum.splits
      dest: getValidInArray_error)

lemma template_fields_error: "template_fields E c fieldName = Inl e \<Longrightarrow> e = TypeError"
  by (auto simp: template_fields_def split: sum.splits if_splits jsval.splits dest: get_prop_error)

lemma template_transitType_error: "template_transitType t c = Inl e \<Longrightarrow> e = TypeError"
  by (auto simp: template_transitType_def split: sum.splits if_splits dest: get_prop_error)

lemma template_transitType_value:
  "template_transitType t c = Inr tt \<Longrightarrow> tt = JStr [] \<or> (t = ''boardingPass'' \<and> truthy tt)"
  by (auto simp: template_transitType_def split: sum.splits if_splits)

lemma Pass_constructor_InrE:
  assumes "Pass_constructor E options = Inr st"
  obtains passCoreBuffer kv validOverrides validated where
    "isValid_PassInstance E options"
    "bundle st = spread (model_bundle (model options))"
    "l10nBundles st = l10nBundle (model options)"
    "l10nTranslations st = []"
    "Certificates st = certificates options"
    "map_of (bundle st) ''pass.json'' = Some passCoreBuffer"
    "JSON_parse E passCoreBuffer = Some (JObj kv)"
    "passCore st = JObj kv"
    "getValidated_overrides E (case overrides options of None \<Rightarrow> [] | Some ovv \<Rightarrow> ovv)
       = Some validOverrides"
    "find is_type_key (map fst kv) = Some (type st)"
    "validatedPassKeys E (type st) kv (map fst kv) [] = Inr validated"
    "props st = Object_assign (spread validated) validOverrides"
    "template_transitType (type st) (case map_of kv (type st) of None \<Rightarrow> JUndefined | Some x \<Rightarrow> x)
       = Inr (transitType st)"
  using assms unfolding Pass_constructor_def Let_def
  by (auto split: if_splits option.splits sum.splits jsval.splits)

lemma Pass_constructor_error:
  assumes "Pass_constructor E options = Inl e"
  shows "e = REQUIR_VALID_FAILED \<or> e = PASSFILE_VALIDATION_FAILED \<or> e = OVV_KEYS_BADFORMAT
         \<or> e = NO_PASS_TYPE \<or> e = TypeError"
  using assms unfolding Pass_constructor_def Let_def
  by (auto split: if_splits option.splits sum.splits jsval.splits
      dest: validatedPassKeys_error template_fields_error template_transitType_error)

lemma Pass_constructor_transitType:
  assumes "Pass_constructor E options = Inr st"
  shows "transitType st = JStr [] \<or> (type st = ''boardingPass'' \<and> truthy (transitType st))"
  using assms by (elim Pass_constructor_InrE) (auto dest: template_transitType_value)

lemma overlay_transitType_update [simp]:
  "overlay E (st\<lparr>transitType := x\<rparr>) passFile = overlay E st passFile"
  by (simp add: overlay_def)

lemma template_category_transitType_update [simp]:
  "template_category E (st\<lparr>transitType := x\<rparr>) = template_category E st"
  by (auto simp: template_category_def split: option.splits jsval.splits)

lemma template_category_set_transitType:
  "template_category E (set_transitType E st v) = template_category E st"
  by (simp add: set_transitType_def)

section \<open>The properties of a constructed instance\<close>

lemma getValidated_overrides_whitelisted:
  assumes "getValidated_overrides E ovv = Some validOverrides"
    and "\<forall>k \<in> fst ` set ovv. k \<in> set (OverridesSupportedOptions E)"
  shows "validOverrides = ovv"
proof -
  have "filter (\<lambda>(k, v). k \<in> set (OverridesSupportedOptions E)) ovv = ovv"
    using assms(2) by (intro filter_True) auto
  with assms(1) show ?thesis
    by (simp add: getValidated_overrides_def Let_def split: if_splits)
qed

lemma getValidated_overrides_keys:
  "getValidated_overrides E ovv = Some validOverrides \<Longrightarrow>
     fst ` set validOverrides \<subseteq> set (OverridesSupportedOptions E)"
  by (auto simp: getValidated_overrides_def Let_def split: if_splits)

lemma getValidated_overrides_filter:
  "getValidated_overrides E (filter (\<lambda>(k, v). k \<in> set (OverridesSupportedOptions E)) ovv)
     = getValidated_overrides E ovv"
  by (simp add: getValidated_overrides_def Let_def)

lemma validatedPassKeys_step:
  assumes "validatedPassKeys E t core (current # ks) acc = Inr validated"
  shows "\<exists>acc'. validatedPassKeys E t core ks acc' = Inr validated
           \<and> fst ` set acc' \<subseteq> insert current (fst ` set acc)"
proof (cases "t = current")
  case True
  with assms have "validatedPassKeys E t core ks acc = Inr validated" by simp
  then show ?thesis by blast
next
  case False
  from assms False obtain x where
    "validatedPassKeys E t core ks (AList.update current x acc) = Inr validated"
    by (auto simp: Let_def split: option.splits jsval.splits sum.splits)
  moreover have "fst ` set (AList.update current x acc) \<subseteq> insert current (fst ` set acc)"
    by (simp add: dom_update)
  ultimately show ?thesis by blast
qed

lemma validatedPassKeys_keys:
  "validatedPassKeys E t core ks acc = Inr validated \<Longrightarrow>
     fst ` set validated \<subseteq> set ks \<union> fst ` set acc"
proof (induction ks arbitrary: acc)
  case Nil
  then show ?case by simp
next
  case (Cons current ks)
  from validatedPassKeys_step [OF Cons.prems] obtain acc' where
    r: "validatedPassKeys E t core ks acc' = Inr validated"
    and a: "fst ` set acc' \<subseteq> insert current (fst ` set acc)"
    by blast
  from r have "fst ` set validated \<subseteq> set ks \<union> fst ` set acc'" by (rule Cons.IH)
  with a have "fst ` set validated \<subseteq> set ks \<union> insert current (fst ` set acc)"
    by blast
  then show ?case unfolding list.set by blast
qed

lemma Pass_constructor_distinct:
  assumes "Pass_constructor E options = Inr st"
  shows "distinct (map fst (bundle st))" and "distinct (map fst (props st))"
proof -
  from assms obtain validOverrides validated where
    b: "bundle st = spread (model_bundle (model options))"
    and p: "props st = Object_assign (spread validated) validOverrides"
    by (rule Pass_constructor_InrE)
  show "distinct (map fst (bundle st))"
    by (simp add: b distinct_spread)
  show "distinct (map fst (props st))"
    unfolding p by (rule distinct_Object_assign) (rule distinct_spread)
qed

lemma Pass_constructor_override:
  assumes "Pass_constructor E options = Inr st" and "overrides options = Some ovv"
    and "distinct (map fst ovv)"
    and "\<forall>k \<in> fst ` set ovv. k \<in> set (OverridesSupportedOptions E)"
    and "map_of ovv k = Some v"
  shows "map_of (props st) k = Some v"
proof -
  from assms(1) obtain validOverrides validated where
    g: "getValidated_overrides E (case overrides options of None \<Rightarrow> [] | Some ovv \<Rightarrow> ovv)
          = Some validOverrides"
    and p: "props st = Object_assign (spread validated) validOverrides"
    by (rule Pass_constructor_InrE)
  from g assms(2,4) have "validOverrides = ovv"
    by (intro getValidated_overrides_whitelisted) simp_all
  moreover have "map_of (rev ovv) k = Some v"
    using assms(3,5) by (simp add: map_of_rev_distinct)
  ultimately show ?thesis
    by (simp add: p map_of_Object_assign)
qed

lemma Pass_constructor_props_keys:
  assumes "Pass_constructor E options = Inr st" and "k \<in> fst ` set (props st)"
  shows "k \<in> set (OverridesSupportedOptions E) \<or> (\<exists>kv. passCore st = JObj kv \<and> k \<in> fst ` set kv)"
proof -
  from assms(1) obtain kv validOverrides validated where
    c: "passCore st = JObj kv"
    and g: "getValidated_overrides E (case overrides options of None \<Rightarrow> [] | Some ovv \<Rightarrow> ovv)
          = Some validOverrides"
    and v: "validatedPassKeys E (type st) kv (map fst kv) [] = Inr validated"
    and p: "props st = Object_assign (spread validated) validOverrides"
    by (rule Pass_constructor_InrE)
  from assms(2) have "k \<in> fst ` set validated \<or> k \<in> fst ` set validOverrides"
    by (auto simp: p keys_Object_assign keys_spread)
  then show ?thesis
    using validatedPassKeys_keys [OF v] getValidated_overrides_keys [OF g] c by auto
qed

lemma patch_passFile_other:
  assumes "snd (patch_passFile E st buf) = Inr doc"
  shows "\<exists>passFile0 passFile.
           JSON_parse E buf = Some (JObj passFile0) \<and> doc = JObj passFile \<and>
           (\<forall>k. k \<noteq> type st \<longrightarrow>
                map_of passFile k = map_of (snd (overlay E st passFile0)) k)"
proof -
  from assms obtain passFile0 c2 where
    p: "JSON_parse E buf = Some (JObj passFile0)"
    and d: "doc = JObj (AList.update (type st) c2 (snd (overlay E st passFile0)))"
    by (auto simp: patch_passFile_def split: option.splits jsval.splits prod.splits sum.splits
        if_splits)
  have "\<forall>k. k \<noteq> type st \<longrightarrow>
          map_of (AList.update (type st) c2 (snd (overlay E st passFile0))) k
            = map_of (snd (overlay E st passFile0)) k"
    by (simp add: update_conv')
  with p d show ?thesis by blast
qed

lemma distinct_prune_colors:
  "distinct (map fst ps) \<Longrightarrow> distinct (map fst (prune_colors E ps))"
  unfolding prune_colors_def by (rule distinct_fold_delete)

lemma overlay_override:
  assumes "distinct (map fst (props st))" and "map_of (props st) k = Some v"
    and "\<not> (k \<in> set passColors \<and> truthy v \<and> \<not> isValidRGB E v)"
  shows "map_of (snd (overlay E st passFile)) k = Some v"
proof -
  have ne: "props st \<noteq> []" using assms(2) by auto
  have "k \<notin> set (invalid_colors E (props st))"
    using assms(2,3) by (auto simp: invalid_colors_def)
  then have "map_of (prune_colors E (props st)) k = Some v"
    unfolding prune_colors_def using assms(2) by (simp add: map_of_fold_delete)
  moreover have "map_of (rev (prune_colors E (props st))) = map_of (prune_colors E (props st))"
    using assms(1) by (intro map_of_rev_distinct distinct_prune_colors)
  ultimately show ?thesis
    using ne by (simp add: overlay_def Let_def map_of_Object_assign)
qed

section \<open>Running the examples\<close>

lemmas model_defs = generate_def patch_def patch_passFile_def overlay_def prune_colors_def invalid_colors_def
  passColors_def fields_of_def prune_personalization_def deletePersonalization_def
  getAllFilesWithName_startsWith_def localize_all_def translationsLanguageCodes_def lang_step_def
  merge_strings_def bundleRelativeL10NPaths_def fullPath_def path_join_def path_sep_def
  languageBundleDirname_def backslash_def rendered_def manifest_of_def manifest_json_def
  Object_assign_def spread_def localize_def

lemmas constructor_defs = Pass_constructor_def getValidated_overrides_def is_type_key_def
  pass_types_def propsSchemaMap_def template_fields_def template_transitType_def sublist_code
  Object_assign_def spread_def

lemmas demo_defs = demo_env_def demo_localized_pass_def demo_store_pass_def demo_parse_def
  demo_stringify_def demo_store_json_def demo_store_doc_def demo_store_patched_json_def
  demo_store_patched_doc_def demo_generateStringFile_def demo_isValidRGB_def
  demo_boarding_json_def demo_boarding_doc_def demo_color_json_def demo_color_doc_def

lemma demo_store_constructed: "Pass_constructor demo_env demo_store_options = Inr demo_store_pass"
  by (simp add: constructor_defs demo_defs demo_store_options_def)

lemma demo_boarding_constructed:
  "Pass_constructor demo_env demo_boarding_options = Inr demo_boarding_pass"
  by (simp add: constructor_defs demo_defs demo_boarding_options_def demo_boarding_pass_def)

lemma demo_generate: "snd (generate demo_env demo_localized_pass) = Inr demo_archive"
  by (simp add: model_defs demo_defs demo_archive_def)

lemma demo_generate_win32:
  "snd (generate (demo_env\<lparr>platform := Win32\<rparr>) demo_localized_pass) = Inr demo_archive"
  by (simp add: model_defs demo_defs demo_archive_def)

lemma demo_generate_state: "fst (generate demo_env demo_localized_pass) = demo_generated_pass"
  by (simp add: model_defs demo_defs demo_generated_pass_def)

lemma demo_generate_again: "snd (generate demo_env demo_generated_pass) = Inr demo_archive2"
  by (simp add: model_defs demo_defs demo_generated_pass_def demo_archive2_def)

lemma demo_localized_wf:
  "wf_translations (l10nTranslations demo_localized_pass)"
  "wf_l10n (l10nBundles demo_localized_pass)"
  by (simp_all add: wf_translations_def wf_l10n_def simple_name_def no_separator_def backslash_def
      demo_localized_pass_def demo_store_pass_def localize_def)

lemma demo_staged:
  "''en'' \<in> fst ` set (l10nTranslations demo_localized_pass)"
  "''fr'' \<in> fst ` set (l10nTranslations demo_localized_pass)"
  by (simp_all add: demo_localized_pass_def demo_store_pass_def localize_def)

lemma demo_rendered:
  "rendered demo_env (l10nTranslations demo_localized_pass) ''en'' = ''bye = Bye;''"
  "rendered demo_env (l10nTranslations demo_localized_pass) ''fr'' = ''bye = Salut;''"
  by (simp_all add: rendered_def demo_defs localize_def)

lemma demo_existing:
  "existing_strings (l10nBundles demo_localized_pass) (languageBundleDirname ''en'')
     = ''hello = Hello;''"
  "existing_strings (l10nBundles demo_localized_pass) (languageBundleDirname ''fr'') = []"
  by (simp_all add: existing_strings_def languageBundleDirname_def demo_defs localize_def)

lemma demo_boarding_category:
  "template_category demo_env demo_boarding_pass = Some (JObj [])"
  by (simp add: template_category_def overlay_def demo_defs demo_boarding_pass_def)

lemma demo_store_category:
  "template_category demo_env demo_store_pass = Some (JObj [])"
  by (simp add: template_category_def overlay_def prune_colors_def invalid_colors_def
      passColors_def Object_assign_def demo_defs)

lemma demo_store_generate:
  "generate demo_env demo_store_pass =
     (demo_store_pass\<lparr>bundle := [(''pass.json'', demo_store_patched_json), (''icon.png'', ''PNG'')]\<rparr>,
      Inr [(''pass.json'', demo_store_patched_json),
           (''icon.png'', ''PNG''),
           (''signature'', ''signed''),
           (''manifest.json'',
            ''{pass.json:sha1:'' @ demo_store_patched_json @ '',icon.png:sha1:PNG,}'')])"
  by (simp add: model_defs demo_defs)

section \<open>C1: the manifest records the digest of every archived file\<close>

text \<open>
  C1. When \<^verbatim>\<open>generate\<close> succeeds, the entries it archives are the final merged bundle
  (the patched and pruned bundle of the instance, merged with the flattened localization
  files), followed by the signature and \<^verbatim>\<open>manifest.json\<close>. The manifest has exactly the
  paths of the final bundle as keys and maps each path to the digest of the bytes archived
  under it; the signature is created from this manifest, and \<^verbatim>\<open>manifest.json\<close> is its
  serialisation. So the manifest is computed after every mutation of the bundle and before
  the signature.
\<close>

theorem manifest_integrity:
  assumes "generate E st = (st', Inr archive)"
  shows "\<exists>finalBundle signatureBuffer.
      finalBundle = snd (localize_all E st (bundle st')) \<and>
      archive = finalBundle @
        [(''signature'', signatureBuffer),
         (''manifest.json'', JSON_stringify E (manifest_json (manifest_of E finalBundle)))] \<and>
      Signature_create E (manifest_of E finalBundle) (Certificates st) = Some signatureBuffer \<and>
      fst ` set (manifest_of E finalBundle) = fst ` set finalBundle \<and>
      (\<forall>(fileName, buffer) \<in> set finalBundle.
         map_of (manifest_of E finalBundle) fileName = Some (sha1_hex E buffer))"
proof -
  from assms obtain passCoreBuffer props1 patched signatureBuffer bundle1 where
    st': "st' = st\<lparr>props := props1, bundle := bundle1, l10nBundles := fst (localize_all E st bundle1)\<rparr>"
    and sig: "Signature_create E (manifest_of E (snd (localize_all E st bundle1))) (Certificates st)
       = Some signatureBuffer"
    and arch: "archive = snd (localize_all E st bundle1) @
       [(''signature'', signatureBuffer),
        (''manifest.json'',
         JSON_stringify E (manifest_json (manifest_of E (snd (localize_all E st bundle1)))))]"
    by (rule generate_InrE)
  have b: "bundle st' = bundle1" by (simp add: st')
  have d: "distinct (map fst (snd (localize_all E st bundle1)))"
    by (rule distinct_localize_all)
  show ?thesis
    using sig arch d by (auto simp: b manifest_of_keys manifest_of_entry)
qed

theorem manifest_integrity_witness:
  "snd (generate demo_env demo_localized_pass) = Inr demo_archive \<and>
   fst ` set (manifest_of demo_env (take 4 demo_archive)) = fst ` set (take 4 demo_archive) \<and>
   map_of (manifest_of demo_env (take 4 demo_archive)) ''en.lproj/pass.strings''
     = Some (sha1_hex demo_env ''hello = Hello;bye = Bye;'') \<and>
   map_of (manifest_of demo_env (take 4 demo_archive)) ''pass.json''
     = Some (sha1_hex demo_env demo_store_patched_json)"
proof -
  have g: "generate demo_env demo_localized_pass
             = (fst (generate demo_env demo_localized_pass), Inr demo_archive)"
    using demo_generate by (simp add: prod_eq_iff)
  from manifest_integrity [OF g] obtain finalBundle signatureBuffer x where
    a: "demo_archive = finalBundle @ [(''signature'', signatureBuffer), (''manifest.json'', x)]"
    and k: "fst ` set (manifest_of demo_env finalBundle) = fst ` set finalBundle"
    and m: "\<forall>(fileName, buffer) \<in> set finalBundle.
              map_of (manifest_of demo_env finalBundle) fileName = Some (sha1_hex demo_env buffer)"
    by blast
  have "length demo_archive = 6" by (simp add: demo_archive_def)
  moreover have "length demo_archive = length finalBundle + 2" by (subst a) simp
  ultimately have "length finalBundle = 4" by simp
  then have t: "take 4 demo_archive = finalBundle" by (subst a) simp
  have "(''en.lproj/pass.strings'', ''hello = Hello;bye = Bye;'') \<in> set (take 4 demo_archive)"
    and "(''pass.json'', demo_store_patched_json) \<in> set (take 4 demo_archive)"
    by (simp_all add: demo_archive_def)
  with m k demo_generate show ?thesis
    unfolding t by blast
qed

section \<open>C2: the transit type is required when a boarding pass is generated\<close>

text \<open>
  C2. The constructor never fails with the transit-subtype-required error, and the transit
  type of a constructed instance is the empty string unless the category is
  \<^verbatim>\<open>boardingPass\<close> and the template holds a truthy transit type. For an instance whose
  category is \<^verbatim>\<open>boardingPass\<close>, whose transit type is not set (falsy) and whose category
  entry in \<^verbatim>\<open>pass.json\<close> is an object, \<^verbatim>\<open>generate\<close> fails with that error. For an
  instance whose category is \<^verbatim>\<open>storeCard\<close>, \<^verbatim>\<open>generate\<close> never fails with it, and succeeds
  when the category entry is an object and the signature can be created. Setting a valid,
  truthy transit type before the call makes \<^verbatim>\<open>generate\<close> succeed under the same two
  conditions, whatever the category.
\<close>

theorem transit_type_required:
  "Pass_constructor E options \<noteq> Inl TRSTYPE_REQUIRED
   \<and> (\<forall>st. Pass_constructor E options = Inr st \<longrightarrow>
          transitType st = JStr [] \<or> (type st = ''boardingPass'' \<and> truthy (transitType st)))
   \<and> (\<forall>st cat. type st = ''boardingPass'' \<and> \<not> truthy (transitType st)
          \<and> template_category E st = Some (JObj cat) \<longrightarrow>
          snd (generate E st) = Inl TRSTYPE_REQUIRED)
   \<and> (\<forall>st. type st = ''storeCard'' \<longrightarrow> snd (generate E st) \<noteq> Inl TRSTYPE_REQUIRED)
   \<and> (\<forall>st cat. type st = ''storeCard'' \<and> template_category E st = Some (JObj cat)
          \<and> (\<forall>manifest. \<exists>sig. Signature_create E manifest (Certificates st) = Some sig) \<longrightarrow>
          (\<exists>archive. snd (generate E st) = Inr archive))
   \<and> (\<forall>st cat v. isValid E v TransitType \<and> truthy v
          \<and> template_category E st = Some (JObj cat)
          \<and> (\<forall>manifest. \<exists>sig. Signature_create E manifest (Certificates st) = Some sig) \<longrightarrow>
          (\<exists>archive. snd (generate E (set_transitType E st v)) = Inr archive))"
proof (intro conjI allI impI)
  show "Pass_constructor E options \<noteq> Inl TRSTYPE_REQUIRED"
    using Pass_constructor_error [of E options TRSTYPE_REQUIRED] by auto
next
  fix st assume "Pass_constructor E options = Inr st"
  then show "transitType st = JStr [] \<or> (type st = ''boardingPass'' \<and> truthy (transitType st))"
    by (rule Pass_constructor_transitType)
next
  fix st cat
  assume "type st = ''boardingPass'' \<and> \<not> truthy (transitType st)
          \<and> template_category E st = Some (JObj cat)"
  then show "snd (generate E st) = Inl TRSTYPE_REQUIRED"
    using generate_TRSTYPE [of E st cat] by simp
next
  fix st :: Pass assume "type st = ''storeCard''"
  then show "snd (generate E st) \<noteq> Inl TRSTYPE_REQUIRED"
    using generate_error [of E st TRSTYPE_REQUIRED] by auto
next
  fix st cat
  assume a: "type st = ''storeCard'' \<and> template_category E st = Some (JObj cat)
          \<and> (\<forall>manifest. \<exists>sig. Signature_create E manifest (Certificates st) = Some sig)"
  then have "type st = ''boardingPass'' \<longrightarrow> truthy (transitType st)" by simp
  with a show "\<exists>archive. snd (generate E st) = Inr archive"
    using generate_succeeds [of E st cat] by blast
next
  fix st cat v
  assume a: "isValid E v TransitType \<and> truthy v
          \<and> template_category E st = Some (JObj cat)
          \<and> (\<forall>manifest. \<exists>sig. Signature_create E manifest (Certificates st) = Some sig)"
  let ?st = "set_transitType E st v"
  have 1: "template_category E ?st = Some (JObj cat)"
    using a by (simp add: template_category_set_transitType)
  have 2: "type ?st = ''boardingPass'' \<longrightarrow> truthy (transitType ?st)"
    using a by (simp add: set_transitType_def)
  have 3: "\<forall>manifest. \<exists>sig. Signature_create E manifest (Certificates ?st) = Some sig"
    using a by (simp add: set_transitType_def)
  from 1 2 3 show "\<exists>archive. snd (generate E ?st) = Inr archive"
    by (rule generate_succeeds)
qed

theorem transit_type_required_witness:
  "Pass_constructor demo_env demo_boarding_options = Inr demo_boarding_pass \<and>
   type demo_boarding_pass = ''boardingPass'' \<and>
   transitType demo_boarding_pass = JStr [] \<and>
   template_category demo_env demo_boarding_pass = Some (JObj []) \<and>
   snd (generate demo_env demo_boarding_pass) = Inl TRSTYPE_REQUIRED \<and>
   (\<exists>archive. snd (generate demo_env
                      (set_transitType demo_env demo_boarding_pass (JStr ''PKTransitTypeAir'')))
                = Inr archive) \<and>
   Pass_constructor demo_env demo_store_options = Inr demo_store_pass \<and>
   type demo_store_pass = ''storeCard'' \<and>
   template_category demo_env demo_store_pass = Some (JObj []) \<and>
   snd (generate demo_env demo_store_pass) \<noteq> Inl TRSTYPE_REQUIRED \<and>
   (\<exists>archive. snd (generate demo_env demo_store_pass) = Inr archive)"
proof -
  note t = transit_type_required [of demo_env demo_boarding_options]
  have sign: "\<forall>manifest. \<exists>sig. Signature_create demo_env manifest c = Some sig" for c
    by (simp add: demo_env_def)
  have b: "type demo_boarding_pass = ''boardingPass''" "transitType demo_boarding_pass = JStr []"
    by (simp_all add: demo_boarding_pass_def)
  have s: "type demo_store_pass = ''storeCard''"
    by (simp add: demo_store_pass_def)
  have v: "isValid demo_env (JStr ''PKTransitTypeAir'') TransitType"
    by (simp add: demo_env_def)
  have 1: "snd (generate demo_env demo_boarding_pass) = Inl TRSTYPE_REQUIRED"
    using t [THEN conjunct2, THEN conjunct2, THEN conjunct1, rule_format,
        of demo_boarding_pass "[]"] b demo_boarding_category
    by simp
  have 2: "\<exists>archive. snd (generate demo_env
                      (set_transitType demo_env demo_boarding_pass (JStr ''PKTransitTypeAir'')))
                = Inr archive"
    using t [THEN conjunct2, THEN conjunct2, THEN conjunct2, THEN conjunct2, THEN conjunct2,
        rule_format, of "JStr ''PKTransitTypeAir''" demo_boarding_pass "[]"]
      v demo_boarding_category sign
    by simp
  have 3: "\<exists>archive. snd (generate demo_env demo_store_pass) = Inr archive"
    using t [THEN conjunct2, THEN conjunct2, THEN conjunct2, THEN conjunct2, THEN conjunct1,
        rule_format, of demo_store_pass "[]"]
      s demo_store_category sign
    by simp
  have 4: "snd (generate demo_env demo_store_pass) \<noteq> Inl TRSTYPE_REQUIRED"
    using t [THEN conjunct2, THEN conjunct2, THEN conjunct2, THEN conjunct1, rule_format,
        of demo_store_pass] s
    by simp
  from 1 2 3 4 b s demo_boarding_constructed demo_store_constructed demo_boarding_category
    demo_store_category
  show ?thesis by (simp only: simp_thms not_False_eq_True)
qed

section \<open>C3: personalization files and passes without NFC\<close>

text \<open>
  C3, as amended. Whenever the properties declare no NFC payload and the bundle of the
  instance contains \<^verbatim>\<open>personalization.json\<close>, a successful \<^verbatim>\<open>generate\<close> leaves in the bundle
  of the instance, which is the root part of the archive, neither \<^verbatim>\<open>personalization.json\<close>
  nor a file whose name starts with \<^verbatim>\<open>personalizationLogo\<close>. The files of the staged
  language folders are not pruned. When the staged language codes and the file names of
  the language folders are names proper (distinct, not empty, free of path separators, a
  file name not a dot segment), the archive holds no \<^verbatim>\<open>personalization.json\<close>, and an
  archived path that starts with \<^verbatim>\<open>personalizationLogo\<close> is the path
  \<open><lang>.lproj/<filename>\<close> of a file of the folder of a staged language whose code
  starts with \<^verbatim>\<open>personalizationLogo\<close>. This holds for every call of \<^verbatim>\<open>generate\<close>.
\<close>

theorem personalization_pruned:
  assumes "generate E st = (st', Inr archive)"
    and "\<not> truthy (case map_of (props st) ''nfc'' of None \<Rightarrow> JUndefined | Some v \<Rightarrow> v)"
    and "''personalization.json'' \<in> fst ` set (bundle st)"
  shows "''personalization.json'' \<notin> fst ` set (bundle st')
       \<and> (\<forall>k \<in> fst ` set (bundle st'). \<not> prefix ''personalizationLogo'' k)
       \<and> (wf_translations (l10nTranslations st) \<and> wf_l10n (l10nBundles st) \<longrightarrow>
            ''personalization.json'' \<notin> fst ` set archive
            \<and> (\<forall>k \<in> fst ` set archive. prefix ''personalizationLogo'' k \<longrightarrow>
                 (\<exists>lang \<in> fst ` set (l10nTranslations st).
                    prefix ''personalizationLogo'' lang
                    \<and> (\<exists>u. map_of (l10nBundles st') (languageBundleDirname lang) = Some u
                           \<and> (\<exists>f \<in> fst ` set u. k = lang @ ''.lproj/'' @ f)))))"
proof -
  from assms(1) obtain passCoreBuffer props1 patched signatureBuffer bundle1 where
    p: "patch E st passCoreBuffer = (props1, Inr patched)"
    and b1: "bundle1 = prune_personalization props1 (AList.update ''pass.json'' patched (bundle st))"
    and st': "st' = st\<lparr>props := props1, bundle := bundle1,
                   l10nBundles := fst (localize_all E st bundle1)\<rparr>"
    by (rule generate_InrE)
  have "map_of props1 ''nfc'' = map_of (props st) ''nfc''"
    using map_of_fst_patch [of "''nfc''" E st passCoreBuffer] by (simp add: p passColors_def)
  with assms(2)
  have nfc: "\<not> truthy (case map_of props1 ''nfc'' of None \<Rightarrow> JUndefined | Some v \<Rightarrow> v)"
    by simp
  have "''personalization.json'' \<in> fst ` set (AList.update ''pass.json'' patched (bundle st))"
    using assms(3) by (simp add: dom_update)
  with nfc have keys: "fst ` set bundle1 =
      {k \<in> fst ` set (AList.update ''pass.json'' patched (bundle st)).
         k \<noteq> ''personalization.json'' \<and> \<not> prefix ''personalizationLogo'' k}"
    unfolding b1 by (rule keys_prune_personalization)
  have b': "bundle st' = bundle1" by (simp add: st')
  have root: "''personalization.json'' \<notin> fst ` set (bundle st')"
    "\<forall>k \<in> fst ` set (bundle st'). \<not> prefix ''personalizationLogo'' k"
    unfolding b' keys by simp_all
  have archived: "wf_translations (l10nTranslations st) \<and> wf_l10n (l10nBundles st) \<longrightarrow>
            ''personalization.json'' \<notin> fst ` set archive
            \<and> (\<forall>k \<in> fst ` set archive. prefix ''personalizationLogo'' k \<longrightarrow>
                 (\<exists>lang \<in> fst ` set (l10nTranslations st).
                    prefix ''personalizationLogo'' lang
                    \<and> (\<exists>u. map_of (l10nBundles st') (languageBundleDirname lang) = Some u
                           \<and> (\<exists>f \<in> fst ` set u. k = lang @ ''.lproj/'' @ f))))"
  proof (intro conjI ballI impI)
    assume w: "wf_translations (l10nTranslations st) \<and> wf_l10n (l10nBundles st)"
    note wf = w [THEN conjunct1] w [THEN conjunct2]
    show "''personalization.json'' \<notin> fst ` set archive"
    proof
      assume "''personalization.json'' \<in> fst ` set archive"
      with assms(1) wf
      have "''personalization.json'' \<in> fst ` set (bundle st') \<or>
            ''personalization.json'' = ''signature'' \<or>
            ''personalization.json'' = ''manifest.json'' \<or>
            (\<exists>lang \<in> fst ` set (l10nTranslations st). \<exists>u.
               map_of (l10nBundles st') (languageBundleDirname lang) = Some u
               \<and> (\<exists>f \<in> fst ` set u. ''personalization.json'' = lang @ ''.lproj/'' @ f))"
        by (rule generate_keys)
      with root(1)
      have "\<exists>lang \<in> fst ` set (l10nTranslations st). \<exists>u.
               map_of (l10nBundles st') (languageBundleDirname lang) = Some u
               \<and> (\<exists>f \<in> fst ` set u. ''personalization.json'' = lang @ ''.lproj/'' @ f)"
        by simp
      then obtain lang f where "''personalization.json'' = lang @ ''.lproj/'' @ f"
        by (elim bexE exE conjE)
      then have "CHR ''/'' \<in> set ''personalization.json''"
        by (simp only: set_append) simp
      then show False by simp
    qed
  next
    fix k
    assume w: "wf_translations (l10nTranslations st) \<and> wf_l10n (l10nBundles st)"
      and k: "k \<in> fst ` set archive" and pk: "prefix ''personalizationLogo'' k"
    note wf = w [THEN conjunct1] w [THEN conjunct2]
    from assms(1) wf k
    have "k \<in> fst ` set (bundle st') \<or> k = ''signature'' \<or> k = ''manifest.json'' \<or>
          (\<exists>lang \<in> fst ` set (l10nTranslations st). \<exists>u.
             map_of (l10nBundles st') (languageBundleDirname lang) = Some u
             \<and> (\<exists>f \<in> fst ` set u. k = lang @ ''.lproj/'' @ f))"
      by (rule generate_keys)
    moreover have "k \<notin> fst ` set (bundle st')"
      using root(2) pk by blast
    moreover have "k \<noteq> ''signature''" and "k \<noteq> ''manifest.json''"
      using pk by auto
    ultimately have "\<exists>lang \<in> fst ` set (l10nTranslations st). \<exists>u.
             map_of (l10nBundles st') (languageBundleDirname lang) = Some u
             \<and> (\<exists>f \<in> fst ` set u. k = lang @ ''.lproj/'' @ f)"
      by simp
    then obtain lang u f where
      lang: "lang \<in> fst ` set (l10nTranslations st)"
      and u: "map_of (l10nBundles st') (languageBundleDirname lang) = Some u"
      and f: "f \<in> fst ` set u"
      and eq: "k = lang @ ''.lproj/'' @ f"
      by (elim bexE exE conjE)
    from pk have "prefix ''personalizationLogo'' (lang @ (''.lproj/'' @ f))"
      by (simp only: eq)
    then have "prefix ''personalizationLogo'' lang \<or>
        (\<exists>us. ''personalizationLogo'' = lang @ us \<and> prefix us (''.lproj/'' @ f))"
      by (rule prefix_append [THEN iffD1])
    then have "prefix ''personalizationLogo'' lang"
    proof (elim disjE exE conjE)
      assume "prefix ''personalizationLogo'' lang"
      then show ?thesis .
    next
      fix us
      assume us: "''personalizationLogo'' = lang @ us" and pre: "prefix us (''.lproj/'' @ f)"
      show ?thesis
      proof (cases us)
        case Nil
        with us show ?thesis by simp
      next
        case (Cons c cs)
        with pre have "c = CHR ''.''" by simp
        with Cons have "CHR ''.'' \<in> set (lang @ us)" by simp
        then have "CHR ''.'' \<in> set ''personalizationLogo''" by (simp only: us)
        then show ?thesis by simp
      qed
    qed
    with lang u f eq
    show "\<exists>lang \<in> fst ` set (l10nTranslations st).
            prefix ''personalizationLogo'' lang
            \<and> (\<exists>u. map_of (l10nBundles st') (languageBundleDirname lang) = Some u
                   \<and> (\<exists>f \<in> fst ` set u. k = lang @ ''.lproj/'' @ f))"
      by blast
  qed
  show ?thesis
    by (rule conjI [OF root(1) conjI [OF root(2) archived]])
qed

lemma demo_logo_generate: "snd (generate demo_env demo_logo_pass) = Inr demo_logo_archive"
  by (simp add: model_defs demo_defs demo_logo_pass_def demo_logo_archive_def)

theorem personalization_kept_counterexample:
  "\<not> truthy (case map_of (props demo_logo_pass) ''nfc'' of None \<Rightarrow> JUndefined | Some v \<Rightarrow> v) \<and>
   ''personalization.json'' \<in> fst ` set (bundle demo_logo_pass) \<and>
   snd (generate demo_env demo_logo_pass) = Inr demo_logo_archive \<and>
   (''personalizationLogo.lproj/pass.strings'', ''bye = Bye;'') \<in> set demo_logo_archive \<and>
   prefix ''personalizationLogo'' ''personalizationLogo.lproj/pass.strings'' \<and>
   (''en.lproj/personalizationLogo.png'', ''LOGO-EN'') \<in> set demo_logo_archive"
  using demo_logo_generate
  by (simp add: demo_logo_pass_def demo_store_pass_def localize_def demo_logo_archive_def)

lemma demo_logo_wf:
  "wf_translations (l10nTranslations demo_logo_pass)"
  "wf_l10n (l10nBundles demo_logo_pass)"
  by (simp_all add: wf_translations_def wf_l10n_def simple_name_def no_separator_def backslash_def
      demo_logo_pass_def demo_store_pass_def localize_def)

theorem personalization_pruned_witness:
  "generate demo_env demo_localized_pass = (demo_generated_pass, Inr demo_archive) \<and>
   \<not> truthy (case map_of (props demo_localized_pass) ''nfc'' of None \<Rightarrow> JUndefined | Some v \<Rightarrow> v) \<and>
   ''personalization.json'' \<in> fst ` set (bundle demo_localized_pass) \<and>
   ''personalizationLogo.png'' \<in> fst ` set (bundle demo_localized_pass) \<and>
   ''personalization.json'' \<notin> fst ` set (bundle demo_generated_pass) \<and>
   ''personalizationLogo.png'' \<notin> fst ` set (bundle demo_generated_pass) \<and>
   snd (generate demo_env demo_logo_pass) = Inr demo_logo_archive \<and>
   wf_translations (l10nTranslations demo_logo_pass) \<and>
   wf_l10n (l10nBundles demo_logo_pass) \<and>
   ''personalization.json'' \<notin> fst ` set demo_logo_archive \<and>
   (\<exists>lang \<in> fst ` set (l10nTranslations demo_logo_pass).
      prefix ''personalizationLogo'' lang \<and>
      (\<exists>f. ''personalizationLogo.lproj/pass.strings'' = lang @ ''.lproj/'' @ f))"
proof -
  have g: "generate demo_env demo_localized_pass = (demo_generated_pass, Inr demo_archive)"
    using demo_generate demo_generate_state by (simp add: prod_eq_iff)
  have n: "\<not> truthy (case map_of (props demo_localized_pass) ''nfc'' of
                       None \<Rightarrow> JUndefined | Some v \<Rightarrow> v)"
    and p: "''personalization.json'' \<in> fst ` set (bundle demo_localized_pass)"
    and l: "''personalizationLogo.png'' \<in> fst ` set (bundle demo_localized_pass)"
    by (simp_all add: demo_localized_pass_def demo_store_pass_def localize_def)
  from personalization_pruned [OF g n p]
  have "''personalization.json'' \<notin> fst ` set (bundle demo_generated_pass)"
    and "\<forall>k \<in> fst ` set (bundle demo_generated_pass). \<not> prefix ''personalizationLogo'' k"
    by blast+
  moreover have "prefix ''personalizationLogo'' ''personalizationLogo.png''"
    by simp
  ultimately have r: "''personalization.json'' \<notin> fst ` set (bundle demo_generated_pass)"
    "''personalizationLogo.png'' \<notin> fst ` set (bundle demo_generated_pass)"
    by blast+
  have g': "generate demo_env demo_logo_pass
              = (fst (generate demo_env demo_logo_pass), Inr demo_logo_archive)"
    using demo_logo_generate by (simp add: prod_eq_iff)
  have n': "\<not> truthy (case map_of (props demo_logo_pass) ''nfc'' of
                        None \<Rightarrow> JUndefined | Some v \<Rightarrow> v)"
    and p': "''personalization.json'' \<in> fst ` set (bundle demo_logo_pass)"
    by (simp_all add: demo_logo_pass_def demo_store_pass_def localize_def)
  have k: "''personalizationLogo.lproj/pass.strings'' \<in> fst ` set demo_logo_archive"
    by (simp add: demo_logo_archive_def)
  have pk: "prefix ''personalizationLogo'' ''personalizationLogo.lproj/pass.strings''"
    by simp
  note a = personalization_pruned [OF g' n' p', THEN conjunct2, THEN conjunct2, rule_format,
      OF conjI, OF demo_logo_wf]
  have a1: "''personalization.json'' \<notin> fst ` set demo_logo_archive"
    using a [THEN conjunct1] .
  have "\<exists>lang \<in> fst ` set (l10nTranslations demo_logo_pass).
      prefix ''personalizationLogo'' lang
      \<and> (\<exists>u. map_of (l10nBundles (fst (generate demo_env demo_logo_pass)))
                 (languageBundleDirname lang) = Some u
             \<and> (\<exists>f \<in> fst ` set u. ''personalizationLogo.lproj/pass.strings'' = lang @ ''.lproj/'' @ f))"
    using a [THEN conjunct2, rule_format, OF k pk] .
  then have a2: "\<exists>lang \<in> fst ` set (l10nTranslations demo_logo_pass).
      prefix ''personalizationLogo'' lang \<and>
      (\<exists>f. ''personalizationLogo.lproj/pass.strings'' = lang @ ''.lproj/'' @ f)"
    by blast
  from g n p l r demo_logo_generate demo_logo_wf a1 a2 show ?thesis
    by (simp only: simp_thms)
qed

section \<open>C4: overrides and the values of the template\<close>

text \<open>
  C4, as amended. Let an instance be constructed with overrides whose keys are distinct and
  all on the whitelist, and let the whitelist not contain the category key. When
  \<^verbatim>\<open>generate\<close> succeeds, the archived \<^verbatim>\<open>pass.json\<close> is the serialisation of a document that
  holds, under every overridden key, the value of the override, whatever the template held,
  except under a colour key (\<^verbatim>\<open>backgroundColor\<close>, \<^verbatim>\<open>foregroundColor\<close>, \<^verbatim>\<open>labelColor\<close>)
  whose overriding value is truthy and fails \<^verbatim>\<open>isValidRGB\<close>: \<^verbatim>\<open>_patch\<close> deletes that
  property before it assigns the properties to the document.
\<close>

theorem overrides_take_precedence:
  assumes "Pass_constructor E options = Inr st"
    and "overrides options = Some ovv"
    and "distinct (map fst ovv)"
    and "\<forall>k \<in> fst ` set ovv. k \<in> set (OverridesSupportedOptions E)"
    and "type st \<notin> set (OverridesSupportedOptions E)"
    and "generate E st = (st', Inr archive)"
  shows "\<exists>passFile.
           map_of archive ''pass.json'' = Some (JSON_stringify E (JObj passFile)) \<and>
           (\<forall>k v. map_of ovv k = Some v
                  \<and> \<not> (k \<in> set passColors \<and> truthy v \<and> \<not> isValidRGB E v) \<longrightarrow>
                  map_of passFile k = Some v)"
proof -
  have d: "distinct (map fst (bundle st))" and dp: "distinct (map fst (props st))"
    using assms(1) by (rule Pass_constructor_distinct)+
  from generate_document [OF assms(6)] obtain buf doc where
    p: "snd (patch_passFile E st buf) = Inr doc"
    and b': "map_of (bundle st') ''pass.json'' = Some (JSON_stringify E doc)"
    by blast
  from patch_passFile_other [OF p] obtain passFile0 passFile where
    doc: "doc = JObj passFile"
    and other: "\<forall>k. k \<noteq> type st \<longrightarrow>
                  map_of passFile k = map_of (snd (overlay E st passFile0)) k"
    by blast
  have a: "map_of archive ''pass.json'' = Some (JSON_stringify E (JObj passFile))"
    using assms(6) d _ b' [unfolded doc] by (rule generate_root) simp
  have "map_of passFile k = Some v"
    if kv: "map_of ovv k = Some v"
      and c: "\<not> (k \<in> set passColors \<and> truthy v \<and> \<not> isValidRGB E v)" for k v
  proof -
    from kv have "k \<in> fst ` set ovv" by (force dest: map_of_SomeD)
    with assms(4,5) have "k \<noteq> type st" by auto
    moreover have "map_of (props st) k = Some v"
      using assms(1,2,3,4) kv by (rule Pass_constructor_override)
    then have "map_of (snd (overlay E st passFile0)) k = Some v"
      using dp c by (intro overlay_override)
    ultimately show ?thesis by (simp add: other)
  qed
  with a show ?thesis by blast
qed

lemma demo_color_constructed:
  "Pass_constructor demo_env demo_color_options = Inr demo_color_pass"
  by (simp add: constructor_defs demo_defs demo_color_options_def demo_color_pass_def)

lemma demo_color_patched:
  "snd (patch_passFile demo_env demo_color_pass demo_color_json) = Inr demo_color_patched_doc"
  by (simp add: model_defs demo_defs demo_color_pass_def demo_color_patched_doc_def)

lemma demo_color_generate:
  "snd (generate demo_env demo_color_pass) = Inr demo_color_archive"
  by (simp add: model_defs demo_defs demo_color_pass_def demo_color_patched_doc_def
      demo_color_archive_def)

theorem override_dropped_counterexample:
  "Pass_constructor demo_env demo_color_options = Inr demo_color_pass \<and>
   overrides demo_color_options
     = Some [(''backgroundColor'', JStr ''rgb(300,0,0)''), (''logoText'', JStr ''Override'')] \<and>
   ''backgroundColor'' \<in> set (OverridesSupportedOptions demo_env) \<and>
   ''logoText'' \<in> set (OverridesSupportedOptions demo_env) \<and>
   map_of (bundle demo_color_pass) ''pass.json'' = Some demo_color_json \<and>
   snd (patch_passFile demo_env demo_color_pass demo_color_json) = Inr demo_color_patched_doc \<and>
   snd (generate demo_env demo_color_pass) = Inr demo_color_archive \<and>
   map_of demo_color_archive ''pass.json'' = Some (JSON_stringify demo_env demo_color_patched_doc) \<and>
   get_prop demo_color_patched_doc ''backgroundColor'' = Inr (JStr ''rgb(0,0,0)'') \<and>
   JStr ''rgb(0,0,0)'' \<noteq> JStr ''rgb(300,0,0)''"
  using demo_color_constructed demo_color_patched demo_color_generate
  by (simp add: demo_color_options_def demo_color_pass_def demo_env_def demo_color_archive_def
      demo_color_patched_doc_def)

theorem overrides_take_precedence_witness:
  "Pass_constructor demo_env demo_color_options = Inr demo_color_pass \<and>
   overrides demo_color_options
     = Some [(''backgroundColor'', JStr ''rgb(300,0,0)''), (''logoText'', JStr ''Override'')] \<and>
   type demo_color_pass \<notin> set (OverridesSupportedOptions demo_env) \<and>
   snd (generate demo_env demo_color_pass) = Inr demo_color_archive \<and>
   (\<exists>passFile.
      map_of demo_color_archive ''pass.json'' = Some (JSON_stringify demo_env (JObj passFile)) \<and>
      map_of passFile ''logoText'' = Some (JStr ''Override''))"
proof -
  have o: "overrides demo_color_options
     = Some [(''backgroundColor'', JStr ''rgb(300,0,0)''), (''logoText'', JStr ''Override'')]"
    by (simp add: demo_color_options_def)
  have d: "distinct (map fst [(''backgroundColor'', JStr ''rgb(300,0,0)''),
                               (''logoText'', JStr ''Override'')])"
    by simp
  have w: "\<forall>k \<in> fst ` set [(''backgroundColor'', JStr ''rgb(300,0,0)''),
                              (''logoText'', JStr ''Override'')].
             k \<in> set (OverridesSupportedOptions demo_env)"
    by (simp add: demo_env_def)
  have t: "type demo_color_pass \<notin> set (OverridesSupportedOptions demo_env)"
    by (simp add: demo_env_def demo_color_pass_def)
  have g: "generate demo_env demo_color_pass
             = (fst (generate demo_env demo_color_pass), Inr demo_color_archive)"
    using demo_color_generate by (simp add: prod_eq_iff)
  from overrides_take_precedence [OF demo_color_constructed o d w t g]
  obtain passFile where
    1: "map_of demo_color_archive ''pass.json'' = Some (JSON_stringify demo_env (JObj passFile))"
    and 2: "\<forall>k v. map_of [(''backgroundColor'', JStr ''rgb(300,0,0)''),
                           (''logoText'', JStr ''Override'')] k = Some v
                  \<and> \<not> (k \<in> set passColors \<and> truthy v \<and> \<not> isValidRGB demo_env v) \<longrightarrow>
                  map_of passFile k = Some v"
    by blast
  from 2 [rule_format, of "''logoText''" "JStr ''Override''"]
  have "map_of passFile ''logoText'' = Some (JStr ''Override'')"
    by (simp add: passColors_def)
  with 1 have "\<exists>passFile.
      map_of demo_color_archive ''pass.json'' = Some (JSON_stringify demo_env (JObj passFile)) \<and>
      map_of passFile ''logoText'' = Some (JStr ''Override'')"
    by blast
  with demo_color_constructed o t demo_color_generate show ?thesis
    by (simp only: simp_thms)
qed

section \<open>C5: overrides outside the whitelist\<close>

text \<open>
  C5. Let the options pass the check of their shape with the overrides as given and with
  the overrides restricted to the whitelist. Then the constructor returns for the overrides
  as given what it returns for the restricted overrides, the same instance or the same
  error: the keys outside the whitelist are dropped and raise nothing. Every property of a
  constructed instance has a key of the whitelist or a key of the template's
  \<^verbatim>\<open>pass.json\<close>.
\<close>

theorem unknown_overrides_dropped:
  assumes "isValid_PassInstance E (options\<lparr>overrides := Some ovv\<rparr>)"
    and "isValid_PassInstance E
           (options\<lparr>overrides :=
              Some (filter (\<lambda>(k, v). k \<in> set (OverridesSupportedOptions E)) ovv)\<rparr>)"
  shows "Pass_constructor E (options\<lparr>overrides := Some ovv\<rparr>) =
           Pass_constructor E
             (options\<lparr>overrides :=
                Some (filter (\<lambda>(k, v). k \<in> set (OverridesSupportedOptions E)) ovv)\<rparr>)
       \<and> (\<forall>st k. Pass_constructor E (options\<lparr>overrides := Some ovv\<rparr>) = Inr st
                  \<and> k \<in> fst ` set (props st) \<longrightarrow>
                  k \<in> set (OverridesSupportedOptions E)
                  \<or> (\<exists>kv. passCore st = JObj kv \<and> k \<in> fst ` set kv))"
proof (intro conjI allI impI)
  show "Pass_constructor E (options\<lparr>overrides := Some ovv\<rparr>) =
           Pass_constructor E
             (options\<lparr>overrides :=
                Some (filter (\<lambda>(k, v). k \<in> set (OverridesSupportedOptions E)) ovv)\<rparr>)"
    using assms
    by (simp add: Pass_constructor_def Let_def getValidated_overrides_filter
        cong: option.case_cong jsval.case_cong sum.case_cong)
next
  fix st k
  assume "Pass_constructor E (options\<lparr>overrides := Some ovv\<rparr>) = Inr st
            \<and> k \<in> fst ` set (props st)"
  then show "k \<in> set (OverridesSupportedOptions E)
               \<or> (\<exists>kv. passCore st = JObj kv \<and> k \<in> fst ` set kv)"
    using Pass_constructor_props_keys by blast
qed

lemma demo_overridden_constructed:
  "Pass_constructor demo_env
     (demo_store_options\<lparr>overrides := Some [(''logoText'', JStr ''Override'')]\<rparr>)
   = Inr (demo_store_pass\<lparr>props := [(''description'', JStr ''Demo''),
                                     (''logoText'', JStr ''Override'')]\<rparr>)"
  by (simp add: constructor_defs demo_defs demo_store_options_def)

theorem unknown_overrides_dropped_witness:
  "isValid_PassInstance demo_env
     (demo_store_options\<lparr>overrides :=
        Some [(''logoText'', JStr ''Override''), (''unknownKey'', JStr ''x'')]\<rparr>) \<and>
   ''unknownKey'' \<notin> set (OverridesSupportedOptions demo_env) \<and>
   Pass_constructor demo_env
     (demo_store_options\<lparr>overrides :=
        Some [(''logoText'', JStr ''Override''), (''unknownKey'', JStr ''x'')]\<rparr>)
   = Inr (demo_store_pass\<lparr>props := [(''description'', JStr ''Demo''),
                                     (''logoText'', JStr ''Override'')]\<rparr>)"
proof -
  have v: "isValid_PassInstance demo_env x" for x
    by (simp add: demo_env_def)
  have u: "''unknownKey'' \<notin> set (OverridesSupportedOptions demo_env)"
    by (simp add: demo_env_def)
  have f: "filter (\<lambda>(k, v). k \<in> set (OverridesSupportedOptions demo_env))
             [(''logoText'', JStr ''Override''), (''unknownKey'', JStr ''x'')]
           = [(''logoText'', JStr ''Override'')]"
    by (simp add: demo_env_def)
  from unknown_overrides_dropped [where E = demo_env and options = demo_store_options
      and ovv = "[(''logoText'', JStr ''Override''), (''unknownKey'', JStr ''x'')]",
      OF v v, THEN conjunct1]
  have "Pass_constructor demo_env
     (demo_store_options\<lparr>overrides :=
        Some [(''logoText'', JStr ''Override''), (''unknownKey'', JStr ''x'')]\<rparr>)
   = Inr (demo_store_pass\<lparr>props := [(''description'', JStr ''Demo''),
                                     (''logoText'', JStr ''Override'')]\<rparr>)"
    unfolding f by (simp only: demo_overridden_constructed)
  with v u show ?thesis by (simp only: simp_thms)
qed

section \<open>C6: merging and flattening the localization files\<close>

text \<open>
  C6. The statement says that every file contributed by a staged language is placed under
  a forward-slash-separated path \<open><langcode>.lproj/<filename>\<close>, and the comment above
  the flattening in \<^verbatim>\<open>generate\<close> says that the slashes are replaced to avoid the Windows
  ones. The replacement \<^verbatim>\<open>.replace(/\\/, "/")\<close> stops after the first backslash. On a
  Windows host, for a template whose English folder holds a file named \<open>sub\<close>, backslash,
  \<open>logo.png\<close>, and with English translations staged, \<^verbatim>\<open>path.join\<close> yields \<open>en.lproj\<close>,
  backslash, \<open>sub\<close>, backslash, \<open>logo.png\<close>; \<^verbatim>\<open>generate\<close> succeeds and archives the file
  under \<open>en.lproj/sub\<close>, backslash, \<open>logo.png\<close>: a path that still holds a backslash.
\<close>

theorem localization_backslash_kept:
  "Pass_constructor demo_win32_env demo_nested_options = Inr demo_nested_constructed \<and>
   demo_nested_pass = localize demo_nested_constructed ''en'' (Some [(''bye'', ''Bye'')]) \<and>
   platform demo_win32_env = Win32 \<and>
   path_join demo_win32_env (languageBundleDirname ''en'') demo_nested_name
     = ''en.lproj'' @ backslash # ''sub'' @ backslash # ''logo.png'' \<and>
   fullPath demo_win32_env (languageBundleDirname ''en'') demo_nested_name
     = ''en.lproj/sub'' @ backslash # ''logo.png'' \<and>
   (\<exists>archive. snd (generate demo_win32_env demo_nested_pass) = Inr archive \<and>
      map fst archive = demo_nested_paths \<and>
      map_of archive (''en.lproj/sub'' @ backslash # ''logo.png'') = Some ''LOGO-EN'' \<and>
      map_of archive ''en.lproj/sub/logo.png'' = None) \<and>
   backslash \<in> set (''en.lproj/sub'' @ backslash # ''logo.png'')"
  by (simp add: model_defs constructor_defs demo_defs demo_win32_env_def demo_nested_options_def
      demo_nested_constructed_def demo_nested_pass_def demo_nested_name_def demo_nested_paths_def)

subsection \<open>Names proper\<close>

text \<open>
  Let the staged language codes be distinct, not empty and free of path separators, and
  let the files of every language folder have distinct file names proper. When
  \<^verbatim>\<open>generate\<close> succeeds, then
  \<^item> for every staged language whose rendered string table is not empty, the archive holds
    under \<open><lang>.lproj/pass.strings\<close> the \<^verbatim>\<open>pass.strings\<close> bytes the localization bundle had
    for that language (none if there were none) followed by the rendered bytes;
  \<^item> every file of the folder of a staged language, as the folder is after merging, is
    archived under \<open><lang>.lproj/<filename>\<close> with its bytes, on both platforms;
  \<^item> every archived entry is a file of the root bundle of the instance, the signature, the
    manifest or such a file: a language whose folder is empty or missing after merging
    contributes nothing.
\<close>

lemma localization_merge:
  assumes "generate E st = (st', Inr archive)"
    and "wf_translations (l10nTranslations st)"
    and "wf_l10n (l10nBundles st)"
  shows "(\<forall>lang \<in> fst ` set (l10nTranslations st).
            rendered E (l10nTranslations st) lang \<noteq> [] \<longrightarrow>
            map_of archive (lang @ ''.lproj/pass.strings'') =
              Some (existing_strings (l10nBundles st) (languageBundleDirname lang)
                      @ rendered E (l10nTranslations st) lang))
       \<and> (\<forall>lang \<in> fst ` set (l10nTranslations st). \<forall>u f c.
            map_of (l10nBundles st') (languageBundleDirname lang) = Some u \<and> (f, c) \<in> set u \<longrightarrow>
            map_of archive (lang @ ''.lproj/'' @ f) = Some c)
       \<and> (\<forall>k \<in> fst ` set archive.
            k \<in> fst ` set (bundle st') \<or> k = ''signature'' \<or> k = ''manifest.json'' \<or>
            (\<exists>lang \<in> fst ` set (l10nTranslations st). \<exists>u.
               map_of (l10nBundles st') (languageBundleDirname lang) = Some u
               \<and> (\<exists>f \<in> fst ` set u. k = lang @ ''.lproj/'' @ f)))"
proof (intro conjI ballI allI impI)
  fix lang
  assume "lang \<in> fst ` set (l10nTranslations st)"
    and "rendered E (l10nTranslations st) lang \<noteq> []"
  with assms show "map_of archive (lang @ ''.lproj/pass.strings'') =
      Some (existing_strings (l10nBundles st) (languageBundleDirname lang)
              @ rendered E (l10nTranslations st) lang)"
    by (rule generate_strings)
next
  fix lang u f c
  assume "lang \<in> fst ` set (l10nTranslations st)"
    and "map_of (l10nBundles st') (languageBundleDirname lang) = Some u \<and> (f, c) \<in> set u"
  then show "map_of archive (lang @ ''.lproj/'' @ f) = Some c"
    using generate_files [OF assms, of lang u f c] by simp
next
  fix k
  assume "k \<in> fst ` set archive"
  with assms show "k \<in> fst ` set (bundle st') \<or> k = ''signature'' \<or> k = ''manifest.json'' \<or>
            (\<exists>lang \<in> fst ` set (l10nTranslations st). \<exists>u.
               map_of (l10nBundles st') (languageBundleDirname lang) = Some u
               \<and> (\<exists>f \<in> fst ` set u. k = lang @ ''.lproj/'' @ f))"
    by (rule generate_keys)
qed

lemma localization_merge_example:
  "snd (generate demo_env demo_localized_pass) = Inr demo_archive \<and>
   snd (generate (demo_env\<lparr>platform := Win32\<rparr>) demo_localized_pass) = Inr demo_archive \<and>
   wf_translations (l10nTranslations demo_localized_pass) \<and>
   wf_l10n (l10nBundles demo_localized_pass) \<and>
   map_of demo_archive ''en.lproj/pass.strings'' = Some (''hello = Hello;'' @ ''bye = Bye;'') \<and>
   map_of demo_archive ''fr.lproj/pass.strings'' = Some ([] @ ''bye = Salut;'')"
proof -
  have g: "generate demo_env demo_localized_pass
             = (fst (generate demo_env demo_localized_pass), Inr demo_archive)"
    using demo_generate by (simp add: prod_eq_iff)
  note strings = localization_merge [OF g demo_localized_wf, THEN conjunct1, rule_format]
  have "map_of demo_archive (''en'' @ ''.lproj/pass.strings'') = Some (''hello = Hello;'' @ ''bye = Bye;'')"
    using strings [OF demo_staged(1)] by (simp only: demo_rendered demo_existing) simp
  moreover
  have "map_of demo_archive (''fr'' @ ''.lproj/pass.strings'') = Some ([] @ ''bye = Salut;'')"
    using strings [OF demo_staged(2)] by (simp only: demo_rendered demo_existing) simp
  ultimately show ?thesis
    using demo_generate demo_generate_win32 demo_localized_wf by simp
qed

section \<open>C7: generated barcodes and the single barcode\<close>

text \<open>
  C7. Let the validation of a barcode with one of the four formats and the message
  \<^verbatim>\<open>12345\<close> return an object with that format and that message. Then \<^verbatim>\<open>barcodes("12345")\<close>
  sets the property \<^verbatim>\<open>barcodes\<close> to four entries, with the formats
  \<^verbatim>\<open>PKBarcodeFormatQR\<close>, \<^verbatim>\<open>PKBarcodeFormatPDF417\<close>, \<^verbatim>\<open>PKBarcodeFormatAztec\<close> and
  \<^verbatim>\<open>PKBarcodeFormatCode128\<close> in this order and the message \<^verbatim>\<open>12345\<close> each. After it,
  \<^verbatim>\<open>barcode("PKBarcodeFormatCode128")\<close> returns the instance unchanged, so a single barcode
  that was not set stays unset, and \<^verbatim>\<open>barcode("PKBarcodeFormatQR")\<close> sets the property
  \<^verbatim>\<open>barcode\<close> to the first entry, whose format is \<^verbatim>\<open>PKBarcodeFormatQR\<close>.
\<close>

theorem barcodes_scenario:
  assumes "\<forall>format \<in> set barcode_formats. \<exists>b.
             getValidated E (JObj [(''format'', JStr format), (''message'', JStr ''12345'')]) Barcode
               = Some (JObj b)
             \<and> map_of b ''format'' = Some (JStr format)
             \<and> map_of b ''message'' = Some (JStr ''12345'')"
    and "map_of (props st) ''barcode'' = None"
  shows "\<exists>b1 b2 b3 b4.
           map_of (props (barcodes E st [JStr ''12345''])) ''barcodes'' = Some (JArr [b1, b2, b3, b4])
         \<and> map (\<lambda>b. get_prop b ''format'') [b1, b2, b3, b4] =
             [Inr (JStr ''PKBarcodeFormatQR''), Inr (JStr ''PKBarcodeFormatPDF417''),
              Inr (JStr ''PKBarcodeFormatAztec''), Inr (JStr ''PKBarcodeFormatCode128'')]
         \<and> map (\<lambda>b. get_prop b ''message'') [b1, b2, b3, b4] = replicate 4 (Inr (JStr ''12345''))
         \<and> barcode (barcodes E st [JStr ''12345'']) (Some ''PKBarcodeFormatCode128'')
             = Inr (barcodes E st [JStr ''12345''])
         \<and> map_of (props (barcodes E st [JStr ''12345''])) ''barcode'' = None
         \<and> (\<exists>st2. barcode (barcodes E st [JStr ''12345'']) (Some ''PKBarcodeFormatQR'') = Inr st2
                  \<and> map_of (props st2) ''barcode'' = Some b1)"
proof -
  have v: "\<exists>b. getValidated E (JObj [(''format'', JStr format), (''message'', JStr ''12345'')]) Barcode
               = Some (JObj b)
             \<and> map_of b ''format'' = Some (JStr format)
             \<and> map_of b ''message'' = Some (JStr ''12345'')"
    if "format \<in> set barcode_formats" for format
    using assms(1) that by blast
  from v [of "''PKBarcodeFormatQR''"] obtain b1 where
    b1: "getValidated E (JObj [(''format'', JStr ''PKBarcodeFormatQR''), (''message'', JStr ''12345'')])
           Barcode = Some (JObj b1)"
      "map_of b1 ''format'' = Some (JStr ''PKBarcodeFormatQR'')"
      "map_of b1 ''message'' = Some (JStr ''12345'')"
    by (auto simp: barcode_formats_def)
  from v [of "''PKBarcodeFormatPDF417''"] obtain b2 where
    b2: "getValidated E (JObj [(''format'', JStr ''PKBarcodeFormatPDF417''), (''message'', JStr ''12345'')])
           Barcode = Some (JObj b2)"
      "map_of b2 ''format'' = Some (JStr ''PKBarcodeFormatPDF417'')"
      "map_of b2 ''message'' = Some (JStr ''12345'')"
    by (auto simp: barcode_formats_def)
  from v [of "''PKBarcodeFormatAztec''"] obtain b3 where
    b3: "getValidated E (JObj [(''format'', JStr ''PKBarcodeFormatAztec''), (''message'', JStr ''12345'')])
           Barcode = Some (JObj b3)"
      "map_of b3 ''format'' = Some (JStr ''PKBarcodeFormatAztec'')"
      "map_of b3 ''message'' = Some (JStr ''12345'')"
    by (auto simp: barcode_formats_def)
  from v [of "''PKBarcodeFormatCode128''"] obtain b4 where
    b4: "getValidated E (JObj [(''format'', JStr ''PKBarcodeFormatCode128''), (''message'', JStr ''12345'')])
           Barcode = Some (JObj b4)"
      "map_of b4 ''format'' = Some (JStr ''PKBarcodeFormatCode128'')"
      "map_of b4 ''message'' = Some (JStr ''12345'')"
    by (auto simp: barcode_formats_def)
  have auto_gen: "barcodesFromUncompleteData E ''12345'' = [JObj b1, JObj b2, JObj b3, JObj b4]"
    by (simp add: barcodesFromUncompleteData_def barcode_formats_def b1 b2 b3 b4)
  let ?st1 = "barcodes E st [JStr ''12345'']"
  have st1: "?st1 = st\<lparr>props := AList.update ''barcodes''
                (JArr [JObj b1, JObj b2, JObj b3, JObj b4]) (props st)\<rparr>"
    by (simp add: barcodes_def auto_gen)
  have 1: "map_of (props ?st1) ''barcodes'' = Some (JArr [JObj b1, JObj b2, JObj b3, JObj b4])"
    by (simp add: st1 update_conv')
  have 2: "map (\<lambda>b. get_prop b ''format'') [JObj b1, JObj b2, JObj b3, JObj b4] =
             [Inr (JStr ''PKBarcodeFormatQR''), Inr (JStr ''PKBarcodeFormatPDF417''),
              Inr (JStr ''PKBarcodeFormatAztec''), Inr (JStr ''PKBarcodeFormatCode128'')]"
    by (simp add: b1 b2 b3 b4)
  have 3: "map (\<lambda>b. get_prop b ''message'') [JObj b1, JObj b2, JObj b3, JObj b4]
             = replicate 4 (Inr (JStr ''12345''))"
    by (simp add: b1 b2 b3 b4 numeral_eq_Suc)
  have 4: "barcode ?st1 (Some ''PKBarcodeFormatCode128'') = Inr ?st1"
    by (simp add: barcode_def)
  have 5: "map_of (props ?st1) ''barcode'' = None"
    using assms(2) by (simp add: st1 update_conv')
  have "find_barcode ''PKBarcodeFormatQR'' [JObj b1, JObj b2, JObj b3, JObj b4]
          = Inr (Some (JObj b1))"
    by (simp add: b1)
  then have "barcode ?st1 (Some ''PKBarcodeFormatQR'')
               = Inr (?st1\<lparr>props := AList.update ''barcode'' (JObj b1) (props ?st1)\<rparr>)"
    by (simp add: barcode_def 1)
  then have 6: "\<exists>st2. barcode ?st1 (Some ''PKBarcodeFormatQR'') = Inr st2
                  \<and> map_of (props st2) ''barcode'' = Some (JObj b1)"
    by (simp add: update_conv')
  show ?thesis
    by (rule exI [where x = "JObj b1"], rule exI [where x = "JObj b2"],
        rule exI [where x = "JObj b3"], rule exI [where x = "JObj b4"])
      (simp only: 1 2 3 4 5 6 simp_thms)
qed

theorem barcodes_scenario_witness:
  "map_of (props demo_store_pass) ''barcode'' = None \<and>
   map_of (props (barcodes demo_env demo_store_pass [JStr ''12345''])) ''barcodes''
     = Some (JArr [JObj [(''format'', JStr ''PKBarcodeFormatQR''), (''message'', JStr ''12345'')],
                   JObj [(''format'', JStr ''PKBarcodeFormatPDF417''), (''message'', JStr ''12345'')],
                   JObj [(''format'', JStr ''PKBarcodeFormatAztec''), (''message'', JStr ''12345'')],
                   JObj [(''format'', JStr ''PKBarcodeFormatCode128''), (''message'', JStr ''12345'')]]) \<and>
   barcode (barcodes demo_env demo_store_pass [JStr ''12345'']) (Some ''PKBarcodeFormatCode128'')
     = Inr (barcodes demo_env demo_store_pass [JStr ''12345'']) \<and>
   (\<exists>st2. barcode (barcodes demo_env demo_store_pass [JStr ''12345'']) (Some ''PKBarcodeFormatQR'')
            = Inr st2
          \<and> map_of (props st2) ''barcode''
              = Some (JObj [(''format'', JStr ''PKBarcodeFormatQR''), (''message'', JStr ''12345'')]))"
proof -
  have h: "\<forall>format \<in> set barcode_formats. \<exists>b.
             getValidated demo_env
               (JObj [(''format'', JStr format), (''message'', JStr ''12345'')]) Barcode
               = Some (JObj b)
             \<and> map_of b ''format'' = Some (JStr format)
             \<and> map_of b ''message'' = Some (JStr ''12345'')"
    by (simp add: demo_env_def)
  have n: "map_of (props demo_store_pass) ''barcode'' = None"
    by (simp add: demo_store_pass_def)
  have e: "map_of (props (barcodes demo_env demo_store_pass [JStr ''12345''])) ''barcodes''
     = Some (JArr [JObj [(''format'', JStr ''PKBarcodeFormatQR''), (''message'', JStr ''12345'')],
                   JObj [(''format'', JStr ''PKBarcodeFormatPDF417''), (''message'', JStr ''12345'')],
                   JObj [(''format'', JStr ''PKBarcodeFormatAztec''), (''message'', JStr ''12345'')],
                   JObj [(''format'', JStr ''PKBarcodeFormatCode128''), (''message'', JStr ''12345'')]])"
    by (simp add: barcodes_def barcodesFromUncompleteData_def barcode_formats_def demo_env_def
        demo_store_pass_def)
  from barcodes_scenario [OF h n] obtain b1 b2 b3 b4 where
    1: "map_of (props (barcodes demo_env demo_store_pass [JStr ''12345''])) ''barcodes''
          = Some (JArr [b1, b2, b3, b4])"
    and 4: "barcode (barcodes demo_env demo_store_pass [JStr ''12345''])
              (Some ''PKBarcodeFormatCode128'')
             = Inr (barcodes demo_env demo_store_pass [JStr ''12345''])"
    and 6: "\<exists>st2. barcode (barcodes demo_env demo_store_pass [JStr ''12345''])
                   (Some ''PKBarcodeFormatQR'') = Inr st2
                  \<and> map_of (props st2) ''barcode'' = Some b1"
    by blast
  from 1 e have "b1 = JObj [(''format'', JStr ''PKBarcodeFormatQR''), (''message'', JStr ''12345'')]"
    by simp
  with 6 4 e n show ?thesis by (simp only: simp_thms)
qed

section \<open>C8: keys are unique across the five slots\<close>

lemma fieldsKeys_slots:
  "set (fieldsKeys st) = (\<Union>s. field_key ` set (slot_fields st s))"
proof -
  have "UNIV = {PrimaryFields, SecondaryFields, AuxiliaryFields, BackFields, HeaderFields}"
    using slot.exhaust by auto
  then have "(\<Union>s. field_key ` set (slot_fields st s)) =
          (\<Union>s \<in> {PrimaryFields, SecondaryFields, AuxiliaryFields, BackFields, HeaderFields}.
             field_key ` set (slot_fields st s))"
    by simp
  then show ?thesis
    by (simp add: fieldsKeys_def image_Un Un_assoc)
qed

lemma slot_fields_update:
  "slot_fields (slot_update s fs st) s' = (if s' = s then fs else slot_fields st s')"
  by (cases s; cases s') simp_all

lemma insert_field_fresh:
  assumes "field_key field \<notin> set (fieldsKeys st)"
  shows "insert_field st s field = (slot_update s (slot_fields st s @ [field]) st, None)"
    and "slot_fields (fst (insert_field st s field)) s' =
           (if s' = s then slot_fields st s @ [field] else slot_fields st s')"
    and "set (fieldsKeys (fst (insert_field st s field))) = insert (field_key field) (set (fieldsKeys st))"
proof -
  show 1: "insert_field st s field = (slot_update s (slot_fields st s @ [field]) st, None)"
    using assms by (simp add: insert_field_def)
  show 2: "slot_fields (fst (insert_field st s field)) s' =
           (if s' = s then slot_fields st s @ [field] else slot_fields st s')" for s'
    by (simp add: 1 slot_fields_update)
  show "set (fieldsKeys (fst (insert_field st s field))) = insert (field_key field) (set (fieldsKeys st))"
    using 1 by (cases s) (auto simp: fieldsKeys_def)
qed

lemma insert_fields_fresh:
  "distinct (map field_key fs) \<Longrightarrow> set (map field_key fs) \<inter> set (fieldsKeys st) = {} \<Longrightarrow>
     slot_fields (insert_fields st s fs) s' =
       (if s' = s then slot_fields st s @ fs else slot_fields st s')"
proof (induction fs arbitrary: st)
  case Nil
  then show ?case by (simp add: insert_fields_def)
next
  case (Cons f fs)
  have fresh: "field_key f \<notin> set (fieldsKeys st)" using Cons.prems(2) by auto
  let ?st = "fst (insert_field st s f)"
  have "distinct (map field_key fs)" using Cons.prems(1) by simp
  moreover have "set (map field_key fs) \<inter> set (fieldsKeys ?st) = {}"
    using Cons.prems by (auto simp: insert_field_fresh(3) [OF fresh])
  ultimately have "slot_fields (insert_fields ?st s fs) s' =
       (if s' = s then slot_fields ?st s @ fs else slot_fields ?st s')"
    by (rule Cons.IH)
  then show ?case
    by (simp add: insert_fields_def insert_field_fresh(2) [OF fresh])
qed

text \<open>
  C8. The keys of an instance are the keys of the fields of its five slots. Inserting a
  field whose key is among them, in whatever slot, returns the condition
  \<open>DuplicateKey\<close> and the instance unchanged. Inserting a field with a new key appends it to
  the target slot and leaves the other slots as they were; so fields with distinct new keys
  inserted one after the other end up at the end of the slot in the order of insertion.
\<close>

theorem field_keys_unique:
  "set (fieldsKeys st) = (\<Union>s. field_key ` set (slot_fields st s))
   \<and> (field_key field \<in> set (fieldsKeys st) \<longrightarrow>
        insert_field st s field = (st, Some DuplicateKey))
   \<and> (field_key field \<notin> set (fieldsKeys st) \<longrightarrow>
        snd (insert_field st s field) = None
        \<and> slot_fields (fst (insert_field st s field)) s = slot_fields st s @ [field]
        \<and> (\<forall>s'. s' \<noteq> s \<longrightarrow> slot_fields (fst (insert_field st s field)) s' = slot_fields st s'))
   \<and> (distinct (map field_key fs) \<and> set (map field_key fs) \<inter> set (fieldsKeys st) = {} \<longrightarrow>
        slot_fields (insert_fields st s fs) s = slot_fields st s @ fs
        \<and> (\<forall>s'. s' \<noteq> s \<longrightarrow> slot_fields (insert_fields st s fs) s' = slot_fields st s'))"
proof (intro conjI impI allI)
  show "set (fieldsKeys st) = (\<Union>s. field_key ` set (slot_fields st s))"
    by (rule fieldsKeys_slots)
next
  assume "field_key field \<in> set (fieldsKeys st)"
  then show "insert_field st s field = (st, Some DuplicateKey)"
    by (simp add: insert_field_def)
next
  assume f: "field_key field \<notin> set (fieldsKeys st)"
  show "snd (insert_field st s field) = None"
    by (simp add: insert_field_fresh(1) [OF f])
  show "slot_fields (fst (insert_field st s field)) s = slot_fields st s @ [field]"
    by (simp add: insert_field_fresh(2) [OF f])
  show "slot_fields (fst (insert_field st s field)) s' = slot_fields st s'" if "s' \<noteq> s" for s'
    using that by (simp add: insert_field_fresh(2) [OF f])
next
  assume a: "distinct (map field_key fs) \<and> set (map field_key fs) \<inter> set (fieldsKeys st) = {}"
  show "slot_fields (insert_fields st s fs) s = slot_fields st s @ fs"
    using a by (simp add: insert_fields_fresh)
  show "slot_fields (insert_fields st s fs) s' = slot_fields st s'" if "s' \<noteq> s" for s'
    using a that by (simp add: insert_fields_fresh)
qed

theorem field_keys_unique_witness:
  "field_key demo_gate \<notin> set (fieldsKeys demo_boarding_pass) \<and>
   primaryFields (fst (insert_field demo_boarding_pass PrimaryFields demo_gate)) = [demo_gate] \<and>
   field_key demo_gate
     \<in> set (fieldsKeys (fst (insert_field demo_boarding_pass PrimaryFields demo_gate))) \<and>
   insert_field (fst (insert_field demo_boarding_pass PrimaryFields demo_gate)) BackFields demo_gate
     = (fst (insert_field demo_boarding_pass PrimaryFields demo_gate), Some DuplicateKey) \<and>
   distinct (map field_key [demo_gate, demo_seat]) \<and>
   primaryFields (insert_fields demo_boarding_pass PrimaryFields [demo_gate, demo_seat])
     = [demo_gate, demo_seat]"
proof -
  have fresh: "field_key demo_gate \<notin> set (fieldsKeys demo_boarding_pass)"
    by (simp add: fieldsKeys_def demo_boarding_pass_def)
  let ?st = "fst (insert_field demo_boarding_pass PrimaryFields demo_gate)"
  have 1: "slot_fields ?st PrimaryFields = slot_fields demo_boarding_pass PrimaryFields @ [demo_gate]"
    using field_keys_unique [of demo_boarding_pass demo_gate PrimaryFields "[]"] fresh by blast
  have dup: "field_key demo_gate \<in> set (fieldsKeys ?st)"
    by (simp add: fieldsKeys_def insert_field_def demo_boarding_pass_def)
  have 2: "insert_field ?st BackFields demo_gate = (?st, Some DuplicateKey)"
    using field_keys_unique [of ?st demo_gate BackFields "[]"] dup by blast
  have d: "distinct (map field_key [demo_gate, demo_seat])"
    by (simp add: field_key_def demo_gate_def demo_seat_def)
  have e: "set (map field_key [demo_gate, demo_seat]) \<inter> set (fieldsKeys demo_boarding_pass) = {}"
    by (simp add: fieldsKeys_def demo_boarding_pass_def)
  have 3: "slot_fields (insert_fields demo_boarding_pass PrimaryFields [demo_gate, demo_seat])
             PrimaryFields
           = slot_fields demo_boarding_pass PrimaryFields @ [demo_gate, demo_seat]"
    using field_keys_unique [of demo_boarding_pass demo_gate PrimaryFields
        "[demo_gate, demo_seat]"] d e
    by blast
  have p: "primaryFields demo_boarding_pass = []"
    by (simp add: demo_boarding_pass_def)
  from 1 2 3 fresh dup d show ?thesis
    by (simp add: p)
qed

section \<open>C9: the transit type is written for every category\<close>

text \<open>
  C9. Whatever the category, when \<^verbatim>\<open>generate\<close> succeeds on an instance whose category
  entry in \<^verbatim>\<open>pass.json\<close> is an object, the \<^verbatim>\<open>pass.json\<close> that the call serialises and
  stores in the bundle of the instance is the serialisation of a document whose category
  entry is an object holding under \<^verbatim>\<open>transitType\<close> the transit type stored in the
  instance. When the staged language codes and the file names of the language folders are
  names proper, so that no localization file is flattened onto a root path, these are
  the bytes archived under \<^verbatim>\<open>pass.json\<close>. The stored value is the empty string for an
  instance as constructed from a template of any category other than \<^verbatim>\<open>boardingPass\<close>:
  a store card or a coupon is serialised with the transit type \<^verbatim>\<open>""\<close>.
\<close>

theorem transitType_written:
  assumes "generate E st = (st', Inr archive)"
    and "distinct (map fst (bundle st))"
    and "template_category E st = Some (JObj cat)"
  shows "(\<exists>passFile kv.
            map_of (bundle st') ''pass.json'' = Some (JSON_stringify E (JObj passFile)) \<and>
            map_of passFile (type st) = Some (JObj kv) \<and>
            map_of kv ''transitType'' = Some (transitType st) \<and>
            (wf_translations (l10nTranslations st) \<and> wf_l10n (l10nBundles st) \<longrightarrow>
               map_of archive ''pass.json'' = Some (JSON_stringify E (JObj passFile))))
       \<and> (\<forall>options. Pass_constructor E options = Inr st \<and> type st \<noteq> ''boardingPass'' \<longrightarrow>
            transitType st = JStr [])"
proof (intro conjI allI impI)
  from assms(3) obtain buf passFile where
    b: "map_of (bundle st) ''pass.json'' = Some buf"
    and p: "JSON_parse E buf = Some (JObj passFile)"
    and c: "map_of (snd (overlay E st passFile)) (type st) = Some (JObj cat)"
    by (auto simp: template_category_def split: option.splits jsval.splits)
  from generate_document [OF assms(1)] b obtain doc where
    d: "snd (patch_passFile E st buf) = Inr doc"
    and b': "map_of (bundle st') ''pass.json'' = Some (JSON_stringify E doc)"
    by auto
  let ?kv = "AList.update ''transitType'' (transitType st) (Object_assign cat (fields_of st))"
  let ?passFile = "AList.update (type st) (JObj ?kv) (snd (overlay E st passFile))"
  have doc: "doc = JObj ?passFile"
    using d by (simp add: patch_passFile_record [OF p c] split: if_splits)
  have 1: "map_of (bundle st') ''pass.json'' = Some (JSON_stringify E (JObj ?passFile))"
    using b' by (simp only: doc)
  have 2: "map_of ?passFile (type st) = Some (JObj ?kv)"
    by (simp add: update_conv')
  have 3: "map_of ?kv ''transitType'' = Some (transitType st)"
    by (simp add: update_conv')
  have 4: "map_of archive ''pass.json'' = Some (JSON_stringify E (JObj ?passFile))"
    using assms(1,2) _ 1 by (rule generate_root) simp
  from 1 2 3 4 show "\<exists>passFile kv.
            map_of (bundle st') ''pass.json'' = Some (JSON_stringify E (JObj passFile)) \<and>
            map_of passFile (type st) = Some (JObj kv) \<and>
            map_of kv ''transitType'' = Some (transitType st) \<and>
            (wf_translations (l10nTranslations st) \<and> wf_l10n (l10nBundles st) \<longrightarrow>
               map_of archive ''pass.json'' = Some (JSON_stringify E (JObj passFile)))"
    by blast
next
  fix options
  assume "Pass_constructor E options = Inr st \<and> type st \<noteq> ''boardingPass''"
  then show "transitType st = JStr []"
    using Pass_constructor_transitType [of E options st] by blast
qed

lemma demo_localized_category:
  "template_category demo_env demo_localized_pass = Some (JObj [])"
  by (simp add: template_category_def overlay_def prune_colors_def invalid_colors_def
      passColors_def Object_assign_def demo_defs localize_def)

theorem transitType_written_witness:
  "Pass_constructor demo_env demo_store_options = Inr demo_store_pass \<and>
   type demo_store_pass = ''storeCard'' \<and>
   transitType demo_store_pass = JStr [] \<and>
   generate demo_env demo_localized_pass = (demo_generated_pass, Inr demo_archive) \<and>
   distinct (map fst (bundle demo_localized_pass)) \<and>
   template_category demo_env demo_localized_pass = Some (JObj []) \<and>
   wf_translations (l10nTranslations demo_localized_pass) \<and>
   wf_l10n (l10nBundles demo_localized_pass) \<and>
   (\<exists>passFile kv.
      map_of (bundle demo_generated_pass) ''pass.json''
        = Some (JSON_stringify demo_env (JObj passFile)) \<and>
      map_of demo_archive ''pass.json'' = Some (JSON_stringify demo_env (JObj passFile)) \<and>
      map_of passFile ''storeCard'' = Some (JObj kv) \<and>
      map_of kv ''transitType'' = Some (JStr []))"
proof -
  have d: "distinct (map fst (bundle demo_store_pass))"
    and t: "type demo_store_pass = ''storeCard''"
    by (simp_all add: demo_store_pass_def)
  from transitType_written [OF demo_store_generate d demo_store_category, THEN conjunct2,
      rule_format, of demo_store_options] demo_store_constructed t
  have e: "transitType demo_store_pass = JStr []" by simp
  have g: "generate demo_env demo_localized_pass = (demo_generated_pass, Inr demo_archive)"
    using demo_generate demo_generate_state by (simp add: prod_eq_iff)
  have d': "distinct (map fst (bundle demo_localized_pass))"
    and t': "type demo_localized_pass = ''storeCard''"
    and e': "transitType demo_localized_pass = JStr []"
    by (simp_all add: demo_localized_pass_def demo_store_pass_def localize_def)
  from transitType_written [OF g d' demo_localized_category, THEN conjunct1]
  obtain passFile kv where
    1: "map_of (bundle demo_generated_pass) ''pass.json''
          = Some (JSON_stringify demo_env (JObj passFile))"
    and 2: "map_of passFile ''storeCard'' = Some (JObj kv)"
    and 3: "map_of kv ''transitType'' = Some (JStr [])"
    and 4: "wf_translations (l10nTranslations demo_localized_pass) \<and>
            wf_l10n (l10nBundles demo_localized_pass) \<longrightarrow>
            map_of demo_archive ''pass.json'' = Some (JSON_stringify demo_env (JObj passFile))"
    unfolding t' e' by blast
  from 4 demo_localized_wf
  have 5: "map_of demo_archive ''pass.json'' = Some (JSON_stringify demo_env (JObj passFile))"
    by blast
  from 1 2 3 5 have "\<exists>passFile kv.
      map_of (bundle demo_generated_pass) ''pass.json''
        = Some (JSON_stringify demo_env (JObj passFile)) \<and>
      map_of demo_archive ''pass.json'' = Some (JSON_stringify demo_env (JObj passFile)) \<and>
      map_of passFile ''storeCard'' = Some (JObj kv) \<and>
      map_of kv ''transitType'' = Some (JStr [])"
    by blast
  with demo_store_constructed t e g d' demo_localized_category demo_localized_wf
  show ?thesis
    by (simp only: simp_thms)
qed

section \<open>C10: \<^verbatim>\<open>generate\<close> changes the instance\<close>

text \<open>
  C10. A successful \<^verbatim>\<open>generate\<close> stores the patched \<^verbatim>\<open>pass.json\<close> in the bundle of the
  instance and leaves the staged translations as they were; for every staged language whose
  rendered string table is not empty it appends the rendered bytes to the
  \<^verbatim>\<open>pass.strings\<close> of the localization bundle of the instance, which is the object the
  constructor received. So the archive of a second successful call holds the rendered bytes
  twice after the bytes the template had. (Language codes and file names as in C6.)
\<close>

theorem generate_twice:
  assumes "generate E st = (st1, Inr archive1)"
    and "generate E st1 = (st2, Inr archive2)"
    and "wf_translations (l10nTranslations st)"
    and "wf_l10n (l10nBundles st)"
  shows "(\<exists>passCoreBuffer patched.
            map_of (bundle st) ''pass.json'' = Some passCoreBuffer \<and>
            snd (patch E st passCoreBuffer) = Inr patched \<and>
            map_of (bundle st1) ''pass.json'' = Some patched)
       \<and> l10nTranslations st1 = l10nTranslations st
       \<and> (\<forall>lang \<in> fst ` set (l10nTranslations st).
            rendered E (l10nTranslations st) lang \<noteq> [] \<longrightarrow>
              existing_strings (l10nBundles st1) (languageBundleDirname lang) =
                existing_strings (l10nBundles st) (languageBundleDirname lang)
                  @ rendered E (l10nTranslations st) lang
            \<and> map_of archive1 (lang @ ''.lproj/pass.strings'') =
                Some (existing_strings (l10nBundles st) (languageBundleDirname lang)
                        @ rendered E (l10nTranslations st) lang)
            \<and> map_of archive2 (lang @ ''.lproj/pass.strings'') =
                Some (existing_strings (l10nBundles st) (languageBundleDirname lang)
                        @ rendered E (l10nTranslations st) lang
                        @ rendered E (l10nTranslations st) lang))"
proof (intro conjI ballI impI)
  from generate_pass_json [OF assms(1)]
  show "\<exists>passCoreBuffer patched.
            map_of (bundle st) ''pass.json'' = Some passCoreBuffer \<and>
            snd (patch E st passCoreBuffer) = Inr patched \<and>
            map_of (bundle st1) ''pass.json'' = Some patched"
    by blast
next
  show t: "l10nTranslations st1 = l10nTranslations st"
    using assms(1) by (rule generate_state)
next
  fix lang
  assume l: "lang \<in> fst ` set (l10nTranslations st)"
    and r: "rendered E (l10nTranslations st) lang \<noteq> []"
  have t: "l10nTranslations st1 = l10nTranslations st"
    using assms(1) by (rule generate_state)
  show e: "existing_strings (l10nBundles st1) (languageBundleDirname lang) =
                existing_strings (l10nBundles st) (languageBundleDirname lang)
                  @ rendered E (l10nTranslations st) lang"
    using assms(1,3) l r by (rule generate_existing_strings)
  show "map_of archive1 (lang @ ''.lproj/pass.strings'') =
                Some (existing_strings (l10nBundles st) (languageBundleDirname lang)
                        @ rendered E (l10nTranslations st) lang)"
    using assms(1,3,4) l r by (rule generate_strings)
  have wf1: "wf_l10n (l10nBundles st1)"
    using assms(1,4) by (rule generate_wf_l10n)
  have "map_of archive2 (lang @ ''.lproj/pass.strings'') =
          Some (existing_strings (l10nBundles st1) (languageBundleDirname lang)
                  @ rendered E (l10nTranslations st1) lang)"
    using assms(2) assms(3) [folded t] wf1 l [folded t] r [folded t] by (rule generate_strings)
  then show "map_of archive2 (lang @ ''.lproj/pass.strings'') =
                Some (existing_strings (l10nBundles st) (languageBundleDirname lang)
                        @ rendered E (l10nTranslations st) lang
                        @ rendered E (l10nTranslations st) lang)"
    by (simp add: e t)
qed

theorem generate_twice_witness:
  "generate demo_env demo_localized_pass = (demo_generated_pass, Inr demo_archive) \<and>
   snd (generate demo_env demo_generated_pass) = Inr demo_archive2 \<and>
   wf_translations (l10nTranslations demo_localized_pass) \<and>
   wf_l10n (l10nBundles demo_localized_pass) \<and>
   map_of demo_archive (''en'' @ ''.lproj/pass.strings'') = Some (''hello = Hello;'' @ ''bye = Bye;'') \<and>
   map_of demo_archive2 (''en'' @ ''.lproj/pass.strings'')
     = Some (''hello = Hello;'' @ ''bye = Bye;'' @ ''bye = Bye;'')"
proof -
  have g1: "generate demo_env demo_localized_pass = (demo_generated_pass, Inr demo_archive)"
    using demo_generate demo_generate_state by (simp add: prod_eq_iff)
  have g2: "generate demo_env demo_generated_pass
              = (fst (generate demo_env demo_generated_pass), Inr demo_archive2)"
    using demo_generate_again by (simp add: prod_eq_iff)
  note twice = generate_twice [OF g1 g2 demo_localized_wf, THEN conjunct2, THEN conjunct2,
      rule_format, OF demo_staged(1)]
  have "map_of demo_archive (''en'' @ ''.lproj/pass.strings'')
          = Some (''hello = Hello;'' @ ''bye = Bye;'')"
    and "map_of demo_archive2 (''en'' @ ''.lproj/pass.strings'')
          = Some (''hello = Hello;'' @ ''bye = Bye;'' @ ''bye = Bye;'')"
    using twice by (simp_all only: demo_rendered demo_existing) simp_all
  with g1 demo_generate_again demo_localized_wf show ?thesis
    by (simp only: simp_thms)
qed

end
